(* ===== verification/Prelude.thy ===== *)
theory Prelude
  imports Main "HOL-Library.Word" "HOL-Library.Char_ord" "HOL-Library.Sublist"
begin

text \<open>
  Shared vocabulary of the development: Go's \<open>error\<close> values, results, the collections
  of simplification rules, and generic facts about lists and maps that several components
  use.
\<close>

text \<open>
  An \<open>error\<close> of Go as far as the code looks at one: a text (\<open>err.Error()\<close>), or an
  error that implements \<open>net.Error\<close>, with what its \<open>Timeout()\<close> returns and its text.
\<close>

datatype go_error =
    ErrText string
  | ErrNet (err_timeout: bool) (err_net_text: string)

fun error_text :: "go_error \<Rightarrow> string" where
  "error_text (ErrText s) = s"
| "error_text (ErrNet _ s) = s"

fun is_net_timeout :: "go_error \<Rightarrow> bool" where
  "is_net_timeout (ErrNet t _) = t"
| "is_net_timeout (ErrText _) = False"

fun is_net_error :: "go_error \<Rightarrow> bool" where
  "is_net_error (ErrNet _ _) = True"
| "is_net_error (ErrText _) = False"

type_synonym 'a result = "go_error + 'a"

type_synonym u32 = "32 word"
type_synonym u64 = "64 word"

text \<open>
  \<open>go_str\<close> collects the evaluation rules for Go's string functions on ASCII input,
  \<open>unchanged\<close> the frame facts (what an operation leaves alone).
\<close>

named_theorems go_str
named_theorems unchanged

section \<open>Lists and maps\<close>

lemma take_length_append_iff [simp]: "take (length p) (p @ s) = p"
  by simp

lemma list_all_concat_map:
  "(\<And>x. x \<in> set xs \<Longrightarrow> \<forall>c \<in> set (f x). P c) \<Longrightarrow> \<forall>c \<in> set (concat (map f xs)). P c"
  by auto

lemma map_of_distinct_upd:
  "distinct (map fst xs) \<Longrightarrow> (k, v) \<in> set xs \<Longrightarrow> map_of xs k = Some v"
  by (rule map_of_is_SomeI)

lemma finite_dom_fun_upd [simp]: "finite (dom m) \<Longrightarrow> finite (dom (m(k := v)))"
  by (cases v) (auto simp: dom_fun_upd)

lemma card_dom_upd_le: "finite (dom m) \<Longrightarrow> card (dom (m(k \<mapsto> v))) \<le> Suc (card (dom m))"
  by (simp add: card_insert_if)

lemma last_rev_hd: "s \<noteq> [] \<Longrightarrow> last (rev s) = hd s"
  by (cases s) auto

section \<open>Loops with errors\<close>

text \<open>A loop over a list whose body may fail, in which case the loop returns the error.\<close>

fun for_each :: "('a \<Rightarrow> 's \<Rightarrow> 'e option \<times> 's) \<Rightarrow> 'a list \<Rightarrow> 's \<Rightarrow> 'e option \<times> 's" where
  "for_each f [] s = (None, s)"
| "for_each f (x # xs) s =
     (case f x s of (Some e, t) \<Rightarrow> (Some e, t) | (None, t) \<Rightarrow> for_each f xs t)"

lemma for_each_append:
  "for_each f (xs @ ys) s =
     (case for_each f xs s of (Some e, t) \<Rightarrow> (Some e, t) | (None, t) \<Rightarrow> for_each f ys t)"
  by (induction xs arbitrary: s) (auto split: prod.split option.split)

lemma for_each_invariant:
  assumes "\<And>x s. x \<in> set xs \<Longrightarrow> P s \<Longrightarrow> P (snd (f x s))" "P s"
  shows "P (snd (for_each f xs s))"
  using assms
proof (induction xs arbitrary: s)
  case (Cons x xs)
  have "P (snd (f x s))" using Cons.prems by simp
  then show ?case using Cons.IH Cons.prems(1) by (auto split: prod.split option.split)
qed simp

text \<open>
  A body that works off a list of things to do for each element, possibly not to the end, and
  keeps an invariant: what is logged of the loop is a prefix of all there is to do, and all
  of it when the loop ends without an error.
\<close>

locale traced_body =
  fixes body :: "'a \<Rightarrow> 's \<Rightarrow> 'e option \<times> 's" and inv :: "'s \<Rightarrow> bool"
    and log :: "'s \<Rightarrow> 'r list" and todo :: "'a \<Rightarrow> 'r list"
  assumes body_inv: "inv s \<Longrightarrow> body x s = (e, t) \<Longrightarrow> inv t"
    and body_trace: "inv s \<Longrightarrow> body x s = (e, t) \<Longrightarrow>
      \<exists>rs. log t = log s @ rs \<and> prefix rs (todo x) \<and> (e = None \<longrightarrow> rs = todo x)"
begin

lemma loop_inv: "inv s \<Longrightarrow> for_each body xs s = (e, t) \<Longrightarrow> inv t"
  by (induction xs arbitrary: s) (auto dest: body_inv split: prod.splits option.splits)

lemma loop_trace:
  assumes "inv s" "for_each body xs s = (e, t)"
  shows "\<exists>rs. log t = log s @ rs \<and> prefix rs (concat (map todo xs)) \<and> (e = None \<longrightarrow> rs = concat (map todo xs))"
  using assms
proof (induction xs arbitrary: s)
  case (Cons x xs)
  obtain e1 s1 where b: "body x s = (e1, s1)" by (cases "body x s")
  then obtain rs where rs: "log s1 = log s @ rs" "prefix rs (todo x)" "e1 = None \<longrightarrow> rs = todo x"
    using body_trace Cons.prems(1) by blast
  show ?case
  proof (cases e1)
    case None
    then obtain rs2 where "log t = log s1 @ rs2" "prefix rs2 (concat (map todo xs))"
      "e = None \<longrightarrow> rs2 = concat (map todo xs)"
      using Cons body_inv [OF Cons.prems(1) b] b by auto
    then show ?thesis using rs None by (intro exI [of _ "rs @ rs2"]) simp
  next
    case (Some err)
    then show ?thesis using rs b Cons.prems(2) by (intro exI [of _ rs]) (auto intro: prefix_order.trans)
  qed
qed simp

end

end
