(* ===== verification/Go_Strings.thy ===== *)
theory Go_Strings
  imports Go_Unicode
begin

text \<open>
  The functions of Go's \<open>strings\<close>, \<open>bytes\<close> and \<open>strconv\<close> packages that the bridge
  calls, on byte strings, with the facts about them that the components share.
\<close>

section \<open>Prefixes, searching, splitting\<close>

definition has_prefix :: "string \<Rightarrow> string \<Rightarrow> bool" where
  "has_prefix s p \<longleftrightarrow> take (length p) s = p"

definition has_suffix :: "string \<Rightarrow> string \<Rightarrow> bool" where
  "has_suffix s p \<longleftrightarrow> length p \<le> length s \<and> drop (length s - length p) s = p"

definition trim_prefix :: "string \<Rightarrow> string \<Rightarrow> string" where
  "trim_prefix s p = (if has_prefix s p then drop (length p) s else s)"

text \<open>\<open>cut sep s\<close> splits at the first occurrence of \<open>sep\<close> (\<open>strings.Index\<close>,
  \<open>strings.SplitN(s, sep, 2)\<close>).\<close>

fun cut :: "string \<Rightarrow> string \<Rightarrow> (string \<times> string) option" where
  "cut sep [] = (if sep = [] then Some ([], []) else None)"
| "cut sep (c # s) =
     (if has_prefix (c # s) sep then Some ([], drop (length sep) (c # s))
      else map_option (\<lambda>(a, b). (c # a, b)) (cut sep s))"

definition contains_str :: "string \<Rightarrow> string \<Rightarrow> bool" where
  "contains_str s sub \<longleftrightarrow> cut sub s \<noteq> None"

text \<open>\<open>cut_char\<close>: the same for one byte (\<open>strings.IndexByte\<close>).\<close>

fun cut_char :: "char \<Rightarrow> string \<Rightarrow> (string \<times> string) option" where
  "cut_char d [] = None"
| "cut_char d (c # s) =
     (if c = d then Some ([], s) else map_option (\<lambda>(a, b). (c # a, b)) (cut_char d s))"

text \<open>Split at the last occurrence of a byte (\<open>strings.LastIndexByte\<close>).\<close>

fun cut_last_char :: "char \<Rightarrow> string \<Rightarrow> (string \<times> string) option" where
  "cut_last_char d [] = None"
| "cut_last_char d (c # s) =
     (case cut_last_char d s of
        Some (a, b) \<Rightarrow> Some (c # a, b)
      | None \<Rightarrow> if c = d then Some ([], s) else None)"

fun split_char :: "char \<Rightarrow> string \<Rightarrow> string list" where
  "split_char d [] = [[]]"
| "split_char d (c # s) =
     (if c = d then [] # split_char d s
      else case split_char d s of [] \<Rightarrow> [[c]] | p # ps \<Rightarrow> (c # p) # ps)"

fun join_str :: "string \<Rightarrow> string list \<Rightarrow> string" where
  "join_str sep [] = []"
| "join_str sep [x] = x"
| "join_str sep (x # y # xs) = x @ sep @ join_str sep (y # xs)"

definition replace_char :: "char \<Rightarrow> string \<Rightarrow> string \<Rightarrow> string" where
  "replace_char d r s = concat (map (\<lambda>c. if c = d then r else [c]) s)"

definition trim_right_char :: "char \<Rightarrow> string \<Rightarrow> string" where
  "trim_right_char d s = rev (dropWhile (\<lambda>c. c = d) (rev s))"

text \<open>The character U+2026, which the logs put where something is left out.\<close>

definition dots :: string where
  "dots = [CHR 0xE2, CHR 0x80, CHR 0xA6]"

text \<open>Ends of lines.\<close>

definition nl :: string where "nl = [CHR 0x0A]"
definition crlf :: string where "crlf = [CHR 0x0D, CHR 0x0A]"

section \<open>White space\<close>

definition ascii_space :: "char \<Rightarrow> bool" where
  "ascii_space c \<longleftrightarrow> c = CHR '' '' \<or> (9 \<le> byte c \<and> byte c \<le> 13)"

text \<open>The two- and three-byte encodings of the runes for which \<open>unicode.IsSpace\<close> holds.\<close>

definition space2 :: "char \<Rightarrow> char \<Rightarrow> bool" where
  "space2 c d \<longleftrightarrow> c = CHR 0xC2 \<and> (d = CHR 0x85 \<or> d = CHR 0xA0)"

definition space3 :: "char \<Rightarrow> char \<Rightarrow> char \<Rightarrow> bool" where
  "space3 c d e \<longleftrightarrow>
     (c = CHR 0xE1 \<and> d = CHR 0x9A \<and> e = CHR 0x80) \<or>
     (c = CHR 0xE2 \<and> d = CHR 0x80 \<and>
        ((128 \<le> byte e \<and> byte e \<le> 138) \<or> e = CHR 0xA8 \<or> e = CHR 0xA9 \<or> e = CHR 0xAF)) \<or>
     (c = CHR 0xE2 \<and> d = CHR 0x81 \<and> e = CHR 0x9F) \<or>
     (c = CHR 0xE3 \<and> d = CHR 0x80 \<and> e = CHR 0x80)"

text \<open>How many bytes of white space the string starts with, one rune at most.\<close>

fun space_len :: "string \<Rightarrow> nat" where
  "space_len [] = 0"
| "space_len [c] = (if ascii_space c then 1 else 0)"
| "space_len [c, d] = (if ascii_space c then 1 else if space2 c d then 2 else 0)"
| "space_len (c # d # e # s) =
     (if ascii_space c then 1 else if space2 c d then 2 else if space3 c d e then 3 else 0)"

text \<open>The same at the end of a string, read from its reverse.\<close>

fun space_len_rev :: "string \<Rightarrow> nat" where
  "space_len_rev [] = 0"
| "space_len_rev [c] = (if ascii_space c then 1 else 0)"
| "space_len_rev [d, c] = (if ascii_space d then 1 else if space2 c d then 2 else 0)"
| "space_len_rev (e # d # c # s) =
     (if ascii_space e then 1 else if space2 d e then 2 else if space3 c d e then 3 else 0)"

function drop_by :: "(string \<Rightarrow> nat) \<Rightarrow> string \<Rightarrow> string" where
  "drop_by f s = (if s = [] \<or> f s = 0 then s else drop_by f (drop (f s) s))"
  by pat_completeness auto
termination
  by (relation "measure (\<lambda>(f, s). length s)") auto

declare drop_by.simps [simp del]

definition trim_space :: "string \<Rightarrow> string" where
  "trim_space s = rev (drop_by space_len_rev (rev (drop_by space_len s)))"

text \<open>\<open>strings.Fields\<close>: \<open>acc\<close> is the reversed field being read.\<close>

function fields_acc :: "string \<Rightarrow> string \<Rightarrow> string list" where
  "fields_acc acc [] = (if acc = [] then [] else [rev acc])"
| "fields_acc acc (c # s) =
     (let n = space_len (c # s) in
      if n = 0 then fields_acc (c # acc) s
      else (if acc = [] then [] else [rev acc]) @ fields_acc [] (drop (n - 1) s))"
  by pat_completeness auto
termination
  by (relation "measure (\<lambda>(acc, s). length s)") (auto simp: less_Suc_eq_le)

definition fields :: "string \<Rightarrow> string list" where
  "fields s = fields_acc [] s"

section \<open>Case\<close>

definition to_lower :: "string \<Rightarrow> string" where
  "to_lower s = encode_runes (map lower_rune (runes s))"

definition to_upper :: "string \<Rightarrow> string" where
  "to_upper s = encode_runes (map upper_rune (runes s))"

definition equal_fold :: "string \<Rightarrow> string \<Rightarrow> bool" where
  "equal_fold s t \<longleftrightarrow> map fold_rune (runes s) = map fold_rune (runes t)"

section \<open>Decimal numbers\<close>

definition digit_char :: "nat \<Rightarrow> char" where
  "digit_char d = char_of (48 + d)"

definition is_digit :: "char \<Rightarrow> bool" where
  "is_digit c \<longleftrightarrow> 48 \<le> byte c \<and> byte c \<le> 57"

fun nat_str :: "nat \<Rightarrow> string" where
  "nat_str n = (if n < 10 then [digit_char n] else nat_str (n div 10) @ [digit_char (n mod 10)])"

declare nat_str.simps [simp del]

definition itoa :: "int \<Rightarrow> string" where
  "itoa i = (if i < 0 then CHR ''-'' # nat_str (nat (- i)) else nat_str (nat i))"

text \<open>\<open>strconv.ParseUint(s, 10, 64)\<close> after the empty-string check.\<close>

datatype uint_result = UOk nat | USyntax | URange

fun parse_uint :: "nat \<Rightarrow> string \<Rightarrow> uint_result" where
  "parse_uint n [] = UOk n"
| "parse_uint n (c # s) =
     (if \<not> is_digit c then USyntax
      else let n1 = n * 10 + (byte c - 48) in
           if 2 ^ 64 \<le> n1 then URange else parse_uint n1 s)"

definition max_int :: int where
  "max_int = 2 ^ 63 - 1"

text \<open>\<open>strconv.Atoi\<close>: the value it returns, and whether its error is nil.\<close>

definition atoi_digits :: "bool \<Rightarrow> string \<Rightarrow> int \<times> bool" where
  "atoi_digits neg s =
     (if s = [] then (0, False)
      else case parse_uint 0 s of
        USyntax \<Rightarrow> (0, False)
      | URange \<Rightarrow> (if neg then - max_int - 1 else max_int, False)
      | UOk n \<Rightarrow>
          if neg then (if int n \<le> max_int + 1 then (- int n, True) else (- max_int - 1, False))
          else (if int n \<le> max_int then (int n, True) else (max_int, False)))"

fun atoi :: "string \<Rightarrow> int \<times> bool" where
  "atoi [] = (0, False)"
| "atoi (c # s) =
     (if c = CHR ''-'' then atoi_digits True s
      else if c = CHR ''+'' then atoi_digits False s
      else atoi_digits False (c # s))"

section \<open>Host and port\<close>

text \<open>\<open>net.SplitHostPort\<close>: the host, or \<open>None\<close> for an error.\<close>

definition split_host :: "string \<Rightarrow> string option" where
  "split_host hp =
     (case cut_last_char CHR '':'' hp of
        None \<Rightarrow> None
      | Some (pre, port) \<Rightarrow>
          (case hp of
             [] \<Rightarrow> None
           | c # rest \<Rightarrow>
               if c = CHR ''['' then
                 (case cut_char CHR '']'' rest of
                    None \<Rightarrow> None
                  | Some (host, after) \<Rightarrow>
                      if after = CHR '':'' # port \<and> CHR ''['' \<notin> set rest \<and> CHR '']'' \<notin> set port
                      then Some host else None)
               else if CHR '':'' \<in> set pre \<or> CHR ''['' \<in> set hp \<or> CHR '']'' \<in> set hp then None
               else Some pre))"

section \<open>Facts about prefixes and splitting\<close>

lemma has_prefix_append [simp, go_str]: "has_prefix (p @ s) p"
  by (simp add: has_prefix_def)

lemma has_prefix_Nil [simp, go_str]: "has_prefix s []" "has_prefix [] p \<longleftrightarrow> p = []"
  by (auto simp: has_prefix_def)

lemma has_prefix_Cons [simp, go_str]: "has_prefix (c # s) (d # p) \<longleftrightarrow> c = d \<and> has_prefix s p"
  by (auto simp: has_prefix_def)

lemma has_prefix_iff: "has_prefix s p \<longleftrightarrow> (\<exists>t. s = p @ t)"
  by (metis append_take_drop_id has_prefix_append has_prefix_def)

lemma trim_prefix_append [simp]: "trim_prefix (p @ s) p = s"
  by (simp add: trim_prefix_def)

lemma cut_char_Some: "cut_char d s = Some (a, b) \<Longrightarrow> s = a @ d # b \<and> d \<notin> set a"
  by (induction s arbitrary: a) (auto split: if_splits)

lemma cut_char_append [simp]: "d \<notin> set a \<Longrightarrow> cut_char d (a @ d # b) = Some (a, b)"
  by (induction a) auto

lemma cut_char_None_iff: "cut_char d s = None \<longleftrightarrow> d \<notin> set s"
  by (induction s) auto

lemma cut_last_char_None_iff: "cut_last_char d s = None \<longleftrightarrow> d \<notin> set s"
  by (induction s) (auto split: option.splits)

lemma cut_last_char_Some:
  "cut_last_char d s = Some (a, b) \<Longrightarrow> s = a @ d # b \<and> d \<notin> set b"
  by (induction s arbitrary: a) (auto simp: cut_last_char_None_iff split: option.splits if_splits)

lemma cut_last_char_append [simp]:
  "d \<notin> set b \<Longrightarrow> cut_last_char d (a @ d # b) = Some (a, b)"
proof (induction a)
  case Nil
  then have "cut_last_char d b = None" by (simp add: cut_last_char_None_iff)
  then show ?case by simp
qed simp

lemma cut_Some: "cut sep s = Some (a, b) \<Longrightarrow> s = a @ sep @ b"
  by (induction sep s arbitrary: a rule: cut.induct)
    (auto simp: has_prefix_iff split: if_splits)

lemma split_char_not_Nil [simp]: "split_char d s \<noteq> []"
  by (induction s) (auto split: list.splits)

lemma split_char_no_sep: "d \<notin> set s \<Longrightarrow> split_char d s = [s]"
  by (induction s) auto

lemma split_char_append_sep: "split_char d (s @ d # t) = split_char d s @ split_char d t"
  by (induction s) (auto split: list.splits)

lemma split_char_cut: "d \<notin> set s \<Longrightarrow> split_char d (s @ d # t) = s # split_char d t"
  by (simp add: split_char_append_sep split_char_no_sep)

lemma set_split_char: "p \<in> set (split_char d s) \<Longrightarrow> set p \<subseteq> set s - {d}"
  by (induction s arbitrary: p) (fastforce split: list.splits if_splits)+

lemma join_split_char: "join_str [d] (split_char d s) = s"
proof (induction s)
  case (Cons c s)
  then show ?case
    by (cases "split_char d s" rule: list.exhaust; cases "tl (split_char d s)") auto
qed simp

lemma replace_char_notin: "d \<notin> set s \<Longrightarrow> replace_char d r s = s"
  by (induction s) (auto simp: replace_char_def)

lemma replace_char_simps [simp]:
  "replace_char d r [] = []"
  "replace_char d r (c # s) = (if c = d then r else [c]) @ replace_char d r s"
  "replace_char d r (s @ t) = replace_char d r s @ replace_char d r t"
  by (simp_all add: replace_char_def)

lemma set_replace_char: "set (replace_char d r s) \<subseteq> (set s - {d}) \<union> set r"
  by (induction s) auto

section \<open>Facts about trimming\<close>

lemma drop_by_stop [simp]: "f s = 0 \<Longrightarrow> drop_by f s = s"
  by (subst drop_by.simps) simp

lemma drop_by_Nil [simp]: "drop_by f [] = []"
  by (subst drop_by.simps) simp

lemma drop_by_step: "s \<noteq> [] \<Longrightarrow> f s = Suc n \<Longrightarrow> drop_by f s = drop_by f (drop (Suc n) s)"
  by (subst drop_by.simps) simp

lemma drop_by_suffix: "\<exists>n. drop_by f s = drop n s"
proof (induction f s rule: drop_by.induct)
  case (1 f s)
  show ?case
  proof (cases "s = [] \<or> f s = 0")
    case True
    then have "drop_by f s = drop 0 s" by (subst drop_by.simps) simp
    then show ?thesis by blast
  next
    case False
    with 1 obtain n where "drop_by f (drop (f s) s) = drop n (drop (f s) s)" by blast
    with False have "drop_by f s = drop (n + f s) s" by (subst drop_by.simps) simp
    then show ?thesis by blast
  qed
qed

lemma drop_by_zero: "f [] = 0 \<Longrightarrow> f (drop_by f s) = 0"
proof (induction f s rule: drop_by.induct)
  case (1 f s)
  then show ?case by (subst drop_by.simps) auto
qed

lemma set_drop_by: "set (drop_by f s) \<subseteq> set s"
  using drop_by_suffix [of f s] set_drop_subset by fastforce

lemma length_drop_by: "length (drop_by f s) \<le> length s"
  using drop_by_suffix [of f s] by auto

lemma set_trim_space: "set (trim_space s) \<subseteq> set s"
  using set_drop_by [of space_len_rev "rev (drop_by space_len s)"] set_drop_by [of space_len s]
  by (auto simp: trim_space_def)

lemma length_trim_space: "length (trim_space s) \<le> length s"
  using length_drop_by [of space_len_rev "rev (drop_by space_len s)"] length_drop_by [of space_len s]
  by (auto simp: trim_space_def)

lemma trim_space_take: "\<exists>n. trim_space s = take n (drop_by space_len s)"
proof -
  define t where "t = drop_by space_len s"
  obtain m where "drop_by space_len_rev (rev t) = drop m (rev t)"
    using drop_by_suffix by metis
  then have "trim_space s = take (length t - m) t"
    by (simp add: trim_space_def t_def rev_drop)
  then show ?thesis unfolding t_def by blast
qed

lemma trim_space_infix: "\<exists>a b. s = a @ trim_space s @ b"
proof -
  obtain m where m: "drop_by space_len s = drop m s" using drop_by_suffix by metis
  obtain n where "trim_space s = take n (drop m s)" using trim_space_take [of s] m by auto
  then have "s = take m s @ trim_space s @ drop n (drop m s)"
    by (metis append_take_drop_id)
  then show ?thesis by blast
qed

lemma space_len_take: "space_len s = 0 \<Longrightarrow> space_len (take n s) = 0"
  by (cases s rule: space_len.cases; cases n; cases "n - 1"; cases "n - 2")
    (auto simp: take_Cons' split: if_splits)

lemma space_len_trim_space [simp]: "space_len (trim_space s) = 0"
proof -
  obtain n where "trim_space s = take n (drop_by space_len s)" using trim_space_take by blast
  then show ?thesis by (simp add: space_len_take drop_by_zero)
qed

lemma space_len_rev_trim_space [simp]: "space_len_rev (rev (trim_space s)) = 0"
  by (simp add: trim_space_def drop_by_zero)

lemma trim_space_eq_self: "space_len s = 0 \<Longrightarrow> space_len_rev (rev s) = 0 \<Longrightarrow> trim_space s = s"
  by (simp add: trim_space_def)

lemma trim_space_idem [simp]: "trim_space (trim_space s) = trim_space s"
  by (simp add: trim_space_eq_self)

text \<open>A byte that cannot begin or end white space: printing ASCII other than blank.\<close>

definition visible :: "char \<Rightarrow> bool" where
  "visible c \<longleftrightarrow> 33 \<le> byte c \<and> byte c \<le> 126"

lemma visible_no_space: "visible c \<Longrightarrow> \<not> ascii_space c"
  by (auto simp: visible_def ascii_space_def)

lemma visible_minus [simp]: "visible CHR ''-''"
  by (simp add: visible_def)

lemma visible_ascii: "visible c \<Longrightarrow> byte c < 128"
  by (simp add: visible_def)

lemma visible_not_space2: "visible c \<Longrightarrow> \<not> space2 c d" "visible d \<Longrightarrow> \<not> space2 c d"
  by (auto simp: visible_def space2_def)

lemma visible_not_space3: "visible c \<Longrightarrow> \<not> space3 c d e" "visible e \<Longrightarrow> \<not> space3 c d e"
  by (auto simp: visible_def space3_def)

lemma visible_space_len: "visible c \<Longrightarrow> space_len (c # s) = 0"
  by (cases "c # s" rule: space_len.cases)
    (simp_all add: visible_no_space visible_not_space2 visible_not_space3)

lemma visible_space_len_rev: "visible c \<Longrightarrow> space_len_rev (c # s) = 0"
  by (cases "c # s" rule: space_len_rev.cases)
    (simp_all add: visible_no_space visible_not_space2 visible_not_space3)

lemma trim_space_visible:
  assumes "s \<noteq> []" "visible (hd s)" "visible (last s)"
  shows "trim_space s = s"
proof -
  obtain c t where s: "s = c # t" using assms(1) by (cases s) auto
  obtain t' d where s': "s = t' @ [d]" using assms(1) by (cases s rule: rev_cases) auto
  have "space_len s = 0" using assms(2) s by (simp add: visible_space_len)
  moreover have "space_len_rev (rev s) = 0" using assms(3) s' by (simp add: visible_space_len_rev)
  ultimately show ?thesis by (simp add: trim_space_def)
qed

lemma trim_space_line:
  assumes "s \<noteq> []" "visible (hd s)" "visible (last s)"
  shows "trim_space (s @ [CHR 0x0D, CHR 0x0A]) = s"
proof -
  have rev: "space_len_rev (CHR 0x0A # t) = 1" "space_len_rev (CHR 0x0D # t) = 1" for t
    by (cases t; cases "tl t"; simp add: ascii_space_def)+
  obtain c u where c: "s = c # u" using assms(1) by (cases s) auto
  obtain u' d where d: "s = u' @ [d]" using assms(1) by (cases s rule: rev_cases) auto
  from c assms have "space_len (s @ [CHR 0x0D, CHR 0x0A]) = 0" by (simp add: visible_space_len)
  moreover from d assms have "space_len_rev (rev s) = 0" by (simp add: visible_space_len_rev)
  ultimately show ?thesis by (simp add: trim_space_def drop_by_step rev)
qed

lemma trim_space_Nil [simp, go_str]: "trim_space [] = []"
  by (simp add: trim_space_def)

lemma trim_space_all_visible: "\<forall>c \<in> set s. visible c \<Longrightarrow> trim_space s = s"
  by (cases "s = []") (auto intro: trim_space_visible)

lemma trim_space_blank_Cons [go_str]: "ascii_space c \<Longrightarrow> trim_space (c # s) = trim_space s"
proof -
  assume "ascii_space c"
  then have "space_len (c # s) = Suc 0" by (cases "c # s" rule: space_len.cases) auto
  then show ?thesis by (simp add: trim_space_def drop_by_step)
qed

lemma trim_space_start: "trim_space s = c # t \<Longrightarrow> \<not> ascii_space c"
  using space_len_trim_space [of s]
  by (cases "c # t" rule: space_len.cases) (auto split: if_splits)

section \<open>Facts about case\<close>

definition lower_char :: "char \<Rightarrow> char" where
  "lower_char c = char_of (lower_rune (byte c))"

definition upper_char :: "char \<Rightarrow> char" where
  "upper_char c = char_of (upper_rune (byte c))"

lemma to_lower_Nil [simp, go_str]: "to_lower [] = []"
  by (simp add: to_lower_def)

lemma to_lower_Cons [go_str]: "byte c < 128 \<Longrightarrow> to_lower (c # s) = lower_char c # to_lower s"
  by (simp add: to_lower_def lower_char_def del: runes.simps)

lemma to_upper_Nil [simp, go_str]: "to_upper [] = []"
  by (simp add: to_upper_def)

lemma to_upper_Cons [go_str]: "byte c < 128 \<Longrightarrow> to_upper (c # s) = upper_char c # to_upper s"
  by (simp add: to_upper_def upper_char_def del: runes.simps)

lemma to_lower_ascii: "ascii s \<Longrightarrow> to_lower s = map lower_char s"
  by (induction s) (auto simp: to_lower_Cons)

lemma to_upper_ascii: "ascii s \<Longrightarrow> to_upper s = map upper_char s"
  by (induction s) (auto simp: to_upper_Cons)

lemma to_lower_append: "ascii s \<Longrightarrow> to_lower (s @ t) = to_lower s @ to_lower t"
  by (induction s) (auto simp: to_lower_Cons)

lemma to_upper_append: "ascii s \<Longrightarrow> to_upper (s @ t) = to_upper s @ to_upper t"
  by (induction s) (auto simp: to_upper_Cons)

lemma num_less_256: "(128::nat) < 256"
  by simp

lemma byte_lower_char: "byte c < 128 \<Longrightarrow> byte (lower_char c) = lower_rune (byte c)"
  by (simp add: lower_char_def) (metis lower_rune_ascii mod_less less_trans num_less_256)

lemma lower_char_idem [simp]: "byte c < 128 \<Longrightarrow> lower_char (lower_char c) = lower_char c"
  by (auto simp: lower_char_def lower_rune_def)

lemma to_lower_idem_ascii: "ascii s \<Longrightarrow> to_lower (to_lower s) = to_lower s"
  by (induction s) (auto simp: to_lower_Cons byte_lower_char)

lemma to_lower_digits: "\<forall>c \<in> set s. is_digit c \<Longrightarrow> to_lower s = s"
  by (induction s) (auto simp: to_lower_Cons is_digit_def lower_char_def lower_rune_def)

lemma equal_fold_refl [simp]: "equal_fold s s"
  by (simp add: equal_fold_def)

lemma equal_fold_sym: "equal_fold s t \<Longrightarrow> equal_fold t s"
  by (simp add: equal_fold_def)

lemma equal_fold_trans: "equal_fold s t \<Longrightarrow> equal_fold t u \<Longrightarrow> equal_fold s u"
  by (simp add: equal_fold_def)

section \<open>Facts about decimal numbers\<close>

lemma is_digit_digit_char [simp]: "d < 10 \<Longrightarrow> is_digit (digit_char d)"
  by (simp add: is_digit_def digit_char_def)

lemma byte_digit_char [simp]: "d < 10 \<Longrightarrow> byte (digit_char d) = 48 + d"
  by (simp add: digit_char_def)

lemma is_digit_visible: "is_digit c \<Longrightarrow> visible c"
  by (simp add: is_digit_def visible_def)

lemma nat_str_digits: "\<forall>c \<in> set (nat_str n). is_digit c"
proof (induction n rule: nat_str.induct)
  case (1 n)
  then show ?case by (subst nat_str.simps) auto
qed

lemma nat_str_not_Nil [simp]: "nat_str n \<noteq> []"
  by (subst nat_str.simps) simp

lemma parse_uint_append:
  "parse_uint n (s @ t) = (case parse_uint n s of UOk m \<Rightarrow> parse_uint m t | r \<Rightarrow> r)"
  by (induction n s rule: parse_uint.induct) (auto simp: Let_def)

lemma parse_uint_nat_str: "n < 2 ^ 64 \<Longrightarrow> parse_uint 0 (nat_str n) = UOk n"
proof (induction n rule: nat_str.induct)
  case (1 n)
  show ?case
  proof (cases "n < 10")
    case True
    then show ?thesis by (subst nat_str.simps) simp
  next
    case False
    with 1 have "parse_uint 0 (nat_str (n div 10)) = UOk (n div 10)" by simp
    with False "1.prems" show ?thesis
      by (subst nat_str.simps) (simp add: parse_uint_append)
  qed
qed

lemma atoi_digits_nat_str:
  "int n \<le> max_int \<Longrightarrow> atoi_digits False (nat_str n) = (int n, True)"
  by (simp add: atoi_digits_def parse_uint_nat_str max_int_def)

lemma digit_not_sign: "is_digit c \<Longrightarrow> c \<noteq> CHR ''-'' \<and> c \<noteq> CHR ''+''"
  by (auto simp: is_digit_def)

lemma atoi_nat_str: "int n \<le> max_int \<Longrightarrow> atoi (nat_str n) = (int n, True)"
proof -
  assume n: "int n \<le> max_int"
  obtain c s where cs: "nat_str n = c # s" by (cases "nat_str n") auto
  then have "is_digit c" using nat_str_digits [of n] by simp
  then have "c \<noteq> CHR ''-''" "c \<noteq> CHR ''+''" by (auto dest: digit_not_sign)
  with n cs show ?thesis by (simp add: atoi_digits_nat_str [OF n, unfolded cs])
qed

lemma atoi_itoa: "- max_int - 1 \<le> i \<Longrightarrow> i \<le> max_int \<Longrightarrow> atoi (itoa i) = (i, True)"
proof (cases "i < 0")
  case True
  assume "- max_int - 1 \<le> i"
  then show ?thesis using True
    by (simp add: itoa_def atoi_digits_def parse_uint_nat_str max_int_def)
next
  case False
  assume "i \<le> max_int"
  then show ?thesis using False by (simp add: itoa_def atoi_nat_str)
qed

lemma atoi_digits_range:
  "atoi_digits neg s = (i, b) \<Longrightarrow> - max_int - 1 \<le> i \<and> i \<le> max_int"
  by (auto simp: atoi_digits_def max_int_def split: if_splits uint_result.splits)

lemma atoi_range: "atoi s = (i, b) \<Longrightarrow> - max_int - 1 \<le> i \<and> i \<le> max_int"
  by (cases s) (auto simp: max_int_def dest: atoi_digits_range split: if_splits)

lemma parse_uint_digits: "parse_uint n s = UOk m \<Longrightarrow> \<forall>c \<in> set s. is_digit c"
  by (induction n s rule: parse_uint.induct) (auto simp: Let_def split: if_splits)

lemma atoi_digits_ok: "atoi_digits neg s = (i, True) \<Longrightarrow> s \<noteq> [] \<and> (\<forall>c \<in> set s. is_digit c)"
  by (auto simp: atoi_digits_def dest: parse_uint_digits split: if_splits uint_result.splits)

lemma atoi_ok_visible: "atoi s = (i, True) \<Longrightarrow> s \<noteq> [] \<and> (\<forall>c \<in> set s. visible c)"
  by (cases s) (auto simp: visible_def split: if_splits dest!: atoi_digits_ok is_digit_visible)

lemma nat_str_inject: "nat_str m = nat_str n \<longleftrightarrow> m = n"
proof
  define val where "val = foldl (\<lambda>a c. a * 10 + (byte c - 48)) (0::nat)"
  have val: "val (nat_str k) = k" for k
  proof (induction k rule: nat_str.induct)
    case (1 k)
    then show ?case by (subst nat_str.simps) (auto simp: val_def)
  qed
  assume "nat_str m = nat_str n"
  then show "m = n" using val by metis
qed simp

lemma itoa_not_Nil [simp]: "itoa i \<noteq> []"
  by (simp add: itoa_def)

lemma itoa_visible: "\<forall>c \<in> set (itoa i). visible c"
  using nat_str_digits [of "nat i"] nat_str_digits [of "nat (- i)"]
  by (auto simp: itoa_def is_digit_visible)

lemma lower_char_minus [simp]: "lower_char CHR ''-'' = CHR ''-''"
  by code_simp

lemma to_lower_itoa [simp]: "to_lower (itoa i) = itoa i"
  using nat_str_digits [of "nat i"] nat_str_digits [of "nat (- i)"]
  by (simp add: itoa_def to_lower_digits to_lower_Cons lower_char_minus)

lemma itoa_inject: "itoa i = itoa j \<longleftrightarrow> i = j"
proof -
  have neq: "nat_str n \<noteq> CHR ''-'' # s" for n s
    using nat_str_digits [of n] by (auto simp: is_digit_def)
  show ?thesis
    using neq neq [symmetric] by (auto simp: itoa_def nat_str_inject split: if_splits)
qed

section \<open>Evaluation rules\<close>

text \<open>Rewrite rules that compute the functions above on literals: \<open>simp add: go_str\<close>.\<close>

lemma lower_char_letters [go_str]:
  "lower_char CHR ''A'' = CHR ''a''"
  "lower_char CHR ''B'' = CHR ''b''"
  "lower_char CHR ''C'' = CHR ''c''"
  "lower_char CHR ''D'' = CHR ''d''"
  "lower_char CHR ''E'' = CHR ''e''"
  "lower_char CHR ''F'' = CHR ''f''"
  "lower_char CHR ''G'' = CHR ''g''"
  "lower_char CHR ''H'' = CHR ''h''"
  "lower_char CHR ''I'' = CHR ''i''"
  "lower_char CHR ''J'' = CHR ''j''"
  "lower_char CHR ''K'' = CHR ''k''"
  "lower_char CHR ''L'' = CHR ''l''"
  "lower_char CHR ''M'' = CHR ''m''"
  "lower_char CHR ''N'' = CHR ''n''"
  "lower_char CHR ''O'' = CHR ''o''"
  "lower_char CHR ''P'' = CHR ''p''"
  "lower_char CHR ''Q'' = CHR ''q''"
  "lower_char CHR ''R'' = CHR ''r''"
  "lower_char CHR ''S'' = CHR ''s''"
  "lower_char CHR ''T'' = CHR ''t''"
  "lower_char CHR ''U'' = CHR ''u''"
  "lower_char CHR ''V'' = CHR ''v''"
  "lower_char CHR ''W'' = CHR ''w''"
  "lower_char CHR ''X'' = CHR ''x''"
  "lower_char CHR ''Y'' = CHR ''y''"
  "lower_char CHR ''Z'' = CHR ''z''"
  by code_simp+

lemma upper_char_letters [go_str]:
  "upper_char CHR ''a'' = CHR ''A''"
  "upper_char CHR ''b'' = CHR ''B''"
  "upper_char CHR ''c'' = CHR ''C''"
  "upper_char CHR ''d'' = CHR ''D''"
  "upper_char CHR ''e'' = CHR ''E''"
  "upper_char CHR ''f'' = CHR ''F''"
  "upper_char CHR ''g'' = CHR ''G''"
  "upper_char CHR ''h'' = CHR ''H''"
  "upper_char CHR ''i'' = CHR ''I''"
  "upper_char CHR ''j'' = CHR ''J''"
  "upper_char CHR ''k'' = CHR ''K''"
  "upper_char CHR ''l'' = CHR ''L''"
  "upper_char CHR ''m'' = CHR ''M''"
  "upper_char CHR ''n'' = CHR ''N''"
  "upper_char CHR ''o'' = CHR ''O''"
  "upper_char CHR ''p'' = CHR ''P''"
  "upper_char CHR ''q'' = CHR ''Q''"
  "upper_char CHR ''r'' = CHR ''R''"
  "upper_char CHR ''s'' = CHR ''S''"
  "upper_char CHR ''t'' = CHR ''T''"
  "upper_char CHR ''u'' = CHR ''U''"
  "upper_char CHR ''v'' = CHR ''V''"
  "upper_char CHR ''w'' = CHR ''W''"
  "upper_char CHR ''x'' = CHR ''X''"
  "upper_char CHR ''y'' = CHR ''Y''"
  "upper_char CHR ''z'' = CHR ''Z''"
  by code_simp+

lemma lower_char_other [go_str]: "byte c < 65 \<Longrightarrow> lower_char c = c" "90 < byte c \<Longrightarrow> byte c < 128 \<Longrightarrow> lower_char c = c"
  by (simp_all add: lower_char_def lower_rune_def)

lemma upper_char_other [go_str]: "byte c < 97 \<Longrightarrow> upper_char c = c" "122 < byte c \<Longrightarrow> byte c < 128 \<Longrightarrow> upper_char c = c"
  by (simp_all add: upper_char_def upper_rune_def)

lemma digit_char_eval [go_str]:
  "digit_char 0 = CHR ''0''"
  "digit_char (Suc 0) = CHR ''1''"
  "digit_char 2 = CHR ''2''"
  "digit_char 3 = CHR ''3''"
  "digit_char 4 = CHR ''4''"
  "digit_char 5 = CHR ''5''"
  "digit_char 6 = CHR ''6''"
  "digit_char 7 = CHR ''7''"
  "digit_char 8 = CHR ''8''"
  "digit_char 9 = CHR ''9''"
  by code_simp+

lemma nat_str_eval [go_str]:
  "n < 10 \<Longrightarrow> nat_str n = [digit_char n]"
  "10 \<le> n \<Longrightarrow> nat_str n = nat_str (n div 10) @ [digit_char (n mod 10)]"
  by (subst nat_str.simps, simp)+

lemma drop_by_eval [go_str]:
  "s \<noteq> [] \<Longrightarrow> f s \<noteq> 0 \<Longrightarrow> drop_by f s = drop_by f (drop (f s) s)"
  by (subst drop_by.simps) simp

lemmas go_str_defs [go_str] =
  trim_space_def ascii_space_def space2_def space3_def fields_def itoa_def atoi_digits_def
  is_digit_def max_int_def equal_fold_def fold_rune_def trim_right_char_def contains_str_def
  has_suffix_def trim_prefix_def

end
