(* ===== verification/Base64.thy ===== *)
theory Base64
  imports Go_Strings
begin

text \<open>
  \<open>base64.StdEncoding\<close> of Go's \<open>encoding/base64\<close>: \<open>EncodeToString\<close>, and
  \<open>DecodeString\<close>, which skips CR and LF anywhere, wants full padding, refuses anything
  after it, and does not look at the unused low bits of the last digit.  The locale
  \<open>text_codec\<close> is what the protocol code needs of such an encoding; base64 interprets it.
\<close>

definition b64_char :: "nat \<Rightarrow> char" where
  "b64_char n =
     (if n < 26 then char_of (65 + n) else if n < 52 then char_of (71 + n)
      else if n < 62 then char_of (n - 4) else if n = 62 then CHR ''+'' else CHR ''/'')"

definition b64_val :: "char \<Rightarrow> nat option" where
  "b64_val c =
     (let b = byte c in
      if 65 \<le> b \<and> b \<le> 90 then Some (b - 65) else if 97 \<le> b \<and> b \<le> 122 then Some (b - 71)
      else if 48 \<le> b \<and> b \<le> 57 then Some (b + 4) else if b = 43 then Some 62
      else if b = 47 then Some 63 else None)"

fun b64_encode :: "string \<Rightarrow> string" where
  "b64_encode [] = []"
| "b64_encode [a] =
     [b64_char (byte a div 4), b64_char (byte a mod 4 * 16), CHR ''='', CHR ''='']"
| "b64_encode [a, b] =
     [b64_char (byte a div 4), b64_char (byte a mod 4 * 16 + byte b div 16),
      b64_char (byte b mod 16 * 4), CHR ''='']"
| "b64_encode (a # b # c # s) =
     b64_char (byte a div 4) # b64_char (byte a mod 4 * 16 + byte b div 16)
     # b64_char (byte b mod 16 * 4 + byte c div 64) # b64_char (byte c mod 64) # b64_encode s"

fun b64_quads :: "string \<Rightarrow> string option" where
  "b64_quads [] = Some []"
| "b64_quads (p # q # r # s # rest) =
     (case (b64_val p, b64_val q) of
        (Some x, Some y) \<Rightarrow>
          if r = CHR ''='' then
            (if s = CHR ''='' \<and> rest = [] then Some [char_of (x * 4 + y div 16)] else None)
          else
            (case b64_val r of
               None \<Rightarrow> None
             | Some z \<Rightarrow>
                 if s = CHR ''='' then
                   (if rest = []
                    then Some [char_of (x * 4 + y div 16), char_of (y mod 16 * 16 + z div 4)]
                    else None)
                 else
                   (case (b64_val s, b64_quads rest) of
                      (Some w, Some out) \<Rightarrow>
                        Some (char_of (x * 4 + y div 16) # char_of (y mod 16 * 16 + z div 4)
                              # char_of (z mod 4 * 64 + w) # out)
                    | _ \<Rightarrow> None))
      | _ \<Rightarrow> None)"
| "b64_quads _ = None"

definition b64_decode :: "string \<Rightarrow> string option" where
  "b64_decode s = b64_quads (filter (\<lambda>c. c \<noteq> CHR 0x0D \<and> c \<noteq> CHR 0x0A) s)"

section \<open>Facts\<close>

lemma b64_val_char [simp]: "n < 64 \<Longrightarrow> b64_val (b64_char n) = Some n"
  by (auto simp: b64_char_def b64_val_def Let_def)

lemma b64_char_visible: "n < 64 \<Longrightarrow> visible (b64_char n)"
  by (auto simp: b64_char_def visible_def)

lemma b64_char_not_pad [simp]: "n < 64 \<Longrightarrow> b64_char n \<noteq> CHR ''=''"
proof
  assume "n < 64" "b64_char n = CHR ''=''"
  then have "b64_val (CHR ''='') = Some n" by (metis b64_val_char)
  then show False by (simp add: b64_val_def)
qed

lemma byte_div_4 [simp]: "byte a div 4 < 64"
  using byte_less_256 [of a] by linarith

lemma byte_div_16 [simp]: "byte a mod 4 * 16 + byte b div 16 < 64"
proof -
  have "byte a mod 4 \<le> 3" by (simp add: less_Suc_eq_le [symmetric])
  moreover have "byte b div 16 < 16" using byte_less_256 [of b] by linarith
  ultimately show ?thesis by linarith
qed

lemma byte_div_64 [simp]: "byte b mod 16 * 4 + byte c div 64 < 64"
proof -
  have "byte b mod 16 \<le> 15" by (simp add: less_Suc_eq_le [symmetric])
  moreover have "byte c div 64 < 4" using byte_less_256 [of c] by linarith
  ultimately show ?thesis by linarith
qed

lemma byte_short [simp]: "byte a mod 4 * 16 < 64" "byte b mod 16 * 4 < 64"
proof -
  have "byte a mod 4 < 4" "byte b mod 16 < 16" by simp_all
  then show "byte a mod 4 * 16 < 64" "byte b mod 16 * 4 < 64" by linarith+
qed

lemma b64_first: "char_of (byte a div 4 * 4 + (byte a mod 4 * 16 + byte b div 16) div 16) = a"
proof -
  have "byte b div 16 < 16" using byte_less_256 [of b] by linarith
  then have "byte a div 4 * 4 + (byte a mod 4 * 16 + byte b div 16) div 16 = byte a" by simp
  then show ?thesis by (simp only: char_of_char)
qed

lemma b64_second:
  "char_of ((byte a mod 4 * 16 + byte b div 16) mod 16 * 16 + (byte b mod 16 * 4 + byte c div 64) div 4) = b"
proof -
  have "byte b div 16 < 16" "byte c div 64 < 4"
    using byte_less_256 [of b] byte_less_256 [of c] by linarith+
  then have "(byte a mod 4 * 16 + byte b div 16) mod 16 * 16 + (byte b mod 16 * 4 + byte c div 64) div 4
    = byte b" by simp
  then show ?thesis by (simp only: char_of_char)
qed

lemma b64_third:
  "char_of ((byte b mod 16 * 4 + byte c div 64) mod 4 * 64 + byte c mod 64) = c"
proof -
  have "byte c div 64 < 4" using byte_less_256 [of c] by linarith
  then have "(byte b mod 16 * 4 + byte c div 64) mod 4 = byte c div 64"
    by (metis mod_mult_self3 mod_less mult.commute mod_mult_self4)
  then have "(byte b mod 16 * 4 + byte c div 64) mod 4 * 64 + byte c mod 64 = byte c" by simp
  then show ?thesis by (simp only: char_of_char)
qed

lemma b64_quads_encode: "b64_quads (b64_encode s) = Some s"
proof (induction s rule: b64_encode.induct)
  case (2 a)
  have "char_of (byte a div 4 * 4 + byte a mod 4 * 16 div 16) = a" using b64_first [of a "CHR 0x00"] by simp
  then show ?case by simp
next
  case (3 a b)
  then show ?case using b64_first [of a b] b64_second [of a b "CHR 0x00"] by simp
next
  case (4 a b c s)
  then show ?case using b64_first [of a b] b64_second [of a b c] b64_third [of b c] by simp
qed simp

lemma b64_encode_visible: "\<forall>c \<in> set (b64_encode s). visible c"
proof -
  have "visible CHR ''=''" by (simp add: visible_def)
  then show ?thesis
    by (induction s rule: b64_encode.induct) (auto intro: b64_char_visible)
qed

lemma visible_not_newline: "visible c \<Longrightarrow> c \<noteq> CHR 0x0D \<and> c \<noteq> CHR 0x0A"
  by (auto simp: visible_def)

lemma b64_decode_encode [simp]: "b64_decode (b64_encode s) = Some s"
proof -
  have "filter (\<lambda>c. c \<noteq> CHR 0x0D \<and> c \<noteq> CHR 0x0A) (b64_encode s) = b64_encode s"
    using b64_encode_visible visible_not_newline by (intro filter_True) blast
  then show ?thesis by (simp add: b64_decode_def b64_quads_encode)
qed

lemma b64_encode_eq_Nil [simp]: "b64_encode s = [] \<longleftrightarrow> s = []"
  by (cases s rule: b64_encode.cases) auto

lemma length_b64_encode: "length (b64_encode s) = (length s + 2) div 3 * 4"
proof (induction s rule: b64_encode.induct)
  case (4 a b c s)
  have "(5 + length s) div 3 = Suc (Suc (Suc (length s)) div 3)" by presburger
  with 4 show ?case by simp
qed auto

lemma filter_newlines_b64_decode:
  "b64_decode (filter (\<lambda>c. c \<noteq> CHR 0x0D \<and> c \<noteq> CHR 0x0A) s) = b64_decode s"
  by (simp add: b64_decode_def)

section \<open>The contract of a text encoding\<close>

locale text_codec =
  fixes enc :: "string \<Rightarrow> string"
    and dec :: "string \<Rightarrow> string option"
  assumes dec_enc: "dec (enc s) = Some s"
    and enc_visible: "c \<in> set (enc s) \<Longrightarrow> visible c"
    and enc_Nil: "enc s = [] \<longleftrightarrow> s = []"
begin

lemma enc_inject: "enc s = enc t \<longleftrightarrow> s = t"
  by (metis dec_enc option.inject)

lemma trim_enc: "trim_space (enc s) = enc s"
  by (rule trim_space_all_visible) (auto intro: enc_visible)

lemma enc_ascii: "ascii (enc s)"
  by (auto simp: ascii_def dest: enc_visible visible_ascii)

lemma enc_no_blank: "CHR '' '' \<notin> set (enc s)"
  by (auto dest: enc_visible simp: visible_def)

text \<open>A line that carries an encoded token: what is left after the line end is trimmed.\<close>

lemma trim_enc_line: "s \<noteq> [] \<Longrightarrow> trim_space (enc s @ [CHR 0x0D, CHR 0x0A]) = enc s"
  using enc_visible [of "hd (enc s)" s] enc_visible [of "last (enc s)" s]
  by (intro trim_space_line) (simp_all add: enc_Nil)

end

interpretation base64: text_codec b64_encode b64_decode
  by unfold_locales (use b64_encode_visible in \<open>auto\<close>)

end
