(* ===== verification/Smtp_Syntax.thy ===== *)
theory Smtp_Syntax
  imports Base64
begin

text \<open>
  The regular expressions of \<open>internal/mhalesmtpd/smtpd.go\<close> as functions, with the
  leftmost-first meaning of Go's \<open>regexp\<close> (greedy operators take the longest text that
  still lets the rest match, and a dot does not match a line feed), and \<open>parseLine\<close>,
  which splits a command line into its verb and arguments.
\<close>

section \<open>Regular expressions\<close>

text \<open>The class \<open>\s\<close>.\<close>

definition re_space :: "char \<Rightarrow> bool" where
  "re_space c \<longleftrightarrow> byte c \<in> {9, 10, 12, 13, 32}"

text \<open>A literal written as \<open>[Ff][Rr]...\<close>: \<open>p\<close> is its lower-case form.\<close>

fun strip_ci :: "string \<Rightarrow> string \<Rightarrow> string option" where
  "strip_ci [] s = Some s"
| "strip_ci (p # ps) [] = None"
| "strip_ci (p # ps) (c # s) =
     (if c = p \<or> (97 \<le> byte p \<and> byte p \<le> 122 \<and> byte c + 32 = byte p)
      then strip_ci ps s else None)"

text \<open>The leftmost match: the first position where \<open>f\<close> matches.\<close>

fun leftmost :: "(string \<Rightarrow> 'a option) \<Rightarrow> string \<Rightarrow> 'a option" where
  "leftmost f [] = f []"
| "leftmost f (c # s) = (case f (c # s) of Some m \<Rightarrow> Some m | None \<Rightarrow> leftmost f s)"

definition this_line :: "string \<Rightarrow> string" where
  "this_line s = takeWhile (\<lambda>c. c \<noteq> CHR 0x0A) s"

definition opt_space :: "string \<Rightarrow> string" where
  "opt_space s = (case s of [] \<Rightarrow> [] | c # t \<Rightarrow> if re_space c then t else s)"

text \<open>\<open>[Ff][Rr][Oo][Mm]:\s?<(.*)>(\s(.*))?\<close>, groups 1, 2 and 3.\<close>

definition mailFrom_at :: "string \<Rightarrow> (string \<times> string \<times> string) option" where
  "mailFrom_at s =
     (case strip_ci ''from:'' s of
        None \<Rightarrow> None
      | Some r \<Rightarrow>
          (case opt_space r of
             [] \<Rightarrow> None
           | c # t \<Rightarrow>
               if c \<noteq> CHR ''<'' then None
               else case cut_last_char CHR ''>'' (this_line t) of
                 None \<Rightarrow> None
               | Some (m1, _) \<Rightarrow>
                   Some (m1,
                     (case drop (Suc (length m1)) t of
                        [] \<Rightarrow> ([], [])
                      | d # u \<Rightarrow> if re_space d then (d # this_line u, this_line u) else ([], [])))))"

definition mailFromRE :: "string \<Rightarrow> (string \<times> string \<times> string) option" where
  "mailFromRE s = leftmost mailFrom_at s"

text \<open>\<open>[Tt][Oo]:\s?<(.+)>\<close>, group 1.\<close>

definition rcptTo_at :: "string \<Rightarrow> string option" where
  "rcptTo_at s =
     (case strip_ci ''to:'' s of
        None \<Rightarrow> None
      | Some r \<Rightarrow>
          (case opt_space r of
             [] \<Rightarrow> None
           | c # t \<Rightarrow>
               if c \<noteq> CHR ''<'' then None
               else case this_line t of
                 [] \<Rightarrow> None
               | x # l \<Rightarrow>
                   (case cut_last_char CHR ''>'' l of
                      None \<Rightarrow> None
                    | Some (m1, _) \<Rightarrow> Some (x # m1))))"

definition rcptToRE :: "string \<Rightarrow> string option" where
  "rcptToRE s = leftmost rcptTo_at s"

text \<open>\<open>[Ss][Ii][Zz][Ee]=(\d+)\<close>, group 1.\<close>

definition mailSize_at :: "string \<Rightarrow> string option" where
  "mailSize_at s =
     (case strip_ci ''size='' s of
        None \<Rightarrow> None
      | Some r \<Rightarrow> if takeWhile is_digit r = [] then None else Some (takeWhile is_digit r))"

definition mailSizeRE :: "string \<Rightarrow> string option" where
  "mailSizeRE s = leftmost mailSize_at s"

text \<open>\<open>^([2-5][0-9]{2})[\s\-](.+)$\<close>: a reply the server passes through.\<close>

fun checkErrFormat :: "string \<Rightarrow> bool" where
  "checkErrFormat (a # b # c # d # e # rest) \<longleftrightarrow>
     50 \<le> byte a \<and> byte a \<le> 53 \<and> is_digit b \<and> is_digit c \<and> (re_space d \<or> d = CHR ''-'') \<and>
     CHR 0x0A \<notin> set (e # rest)"
| "checkErrFormat _ \<longleftrightarrow> False"

section \<open>Command lines\<close>

definition parseLine :: "string \<Rightarrow> string \<times> string" where
  "parseLine line =
     (case cut_char CHR '' '' line of
        Some (v, a) \<Rightarrow> (to_upper v, trim_space a)
      | None \<Rightarrow> (to_upper line, []))"

section \<open>Facts\<close>

lemma this_line_no_newline: "CHR 0x0A \<notin> set s \<Longrightarrow> this_line s = s"
  by (simp add: this_line_def takeWhile_eq_all_conv) blast

lemma strip_ci_self: "strip_ci p (p @ s) = Some s"
  by (induction p) auto

lemma strip_ci_Some_suffix: "strip_ci p s = Some r \<Longrightarrow> length s = length p + length r"
  by (induction p s rule: strip_ci.induct) (auto split: if_splits)

lemma leftmost_here: "f s = Some m \<Longrightarrow> leftmost f s = Some m"
  by (cases s) auto

lemma leftmost_None_iff: "leftmost f s = None \<longleftrightarrow> (\<forall>n \<le> length s. f (drop n s) = None)"
proof (induction s)
  case (Cons c s)
  have "(\<forall>n \<le> length (c # s). f (drop n (c # s)) = None) \<longleftrightarrow>
    f (c # s) = None \<and> (\<forall>n \<le> length s. f (drop n s) = None)"
    by (metis (no_types, lifting) Suc_le_mono drop_0 drop_Suc_Cons length_Cons not0_implies_Suc zero_le)
  with Cons show ?case by (simp split: option.split)
qed simp

lemma leftmost_Some: "leftmost f s = Some m \<Longrightarrow> \<exists>n \<le> length s. f (drop n s) = Some m"
proof (induction s)
  case (Cons c s)
  then show ?case
  proof (cases "f (c # s)")
    case None
    with Cons obtain n where "n \<le> length s" "f (drop n s) = Some m" by auto
    then have "Suc n \<le> length (c # s) \<and> f (drop (Suc n) (c # s)) = Some m" by simp
    then show ?thesis by blast
  next
    case (Some a)
    with Cons have "f (drop 0 (c # s)) = Some m" by simp
    then show ?thesis by blast
  qed
qed simp

text \<open>A well-formed MAIL or RCPT argument is matched where it starts, and the address is
  the text between the angle brackets.\<close>

lemma mailFromRE_plain:
  assumes "CHR ''>'' \<notin> set a" "CHR 0x0A \<notin> set a"
  shows "mailFromRE (''FROM:<'' @ a @ ''>'') = Some (a, [], [])"
proof -
  have "this_line (a @ ''>'') = a @ ''>''" using assms by (simp add: this_line_no_newline)
  then have "mailFrom_at (''FROM:<'' @ a @ ''>'') = Some (a, [], [])"
    by (simp add: mailFrom_at_def opt_space_def re_space_def)
  then show ?thesis unfolding mailFromRE_def by (rule leftmost_here)
qed

lemma rcptToRE_plain:
  assumes "a \<noteq> []" "CHR ''>'' \<notin> set a" "CHR 0x0A \<notin> set a"
  shows "rcptToRE (''TO:<'' @ a @ ''>'') = Some a"
proof -
  obtain x l where a: "a = x # l" using assms(1) by (cases a) auto
  have "this_line (a @ ''>'') = a @ ''>''" using assms by (simp add: this_line_no_newline)
  then have "rcptTo_at (''TO:<'' @ a @ ''>'') = Some a"
    using a by (simp add: rcptTo_at_def opt_space_def re_space_def)
  then show ?thesis unfolding rcptToRE_def by (rule leftmost_here)
qed

lemma parseLine_plain:
  "ascii v \<Longrightarrow> CHR '' '' \<notin> set v \<Longrightarrow> parseLine (v @ CHR '' '' # a) = (map upper_char v, trim_space a)"
  by (simp add: parseLine_def to_upper_ascii)

end
