(* ===== verification/Login_Limit.thy ===== *)
theory Login_Limit
  imports Go_Strings
begin

text \<open>
  \<open>internal/loginlimit\<close>: the in-memory counter of failed logins per client IP.  A
  \<open>*Tracker\<close> is a \<open>tracker option\<close> (\<open>None\<close> is the nil pointer), its two Go maps
  are HOL maps, and time is a number of nanoseconds that each operation is given
  (\<open>time.Now()\<close>).  Every method runs under the tracker's mutex, so a concurrent
  history is a sequence of these operations.  The locale \<open>attempt_gate\<close> is the contract
  the two login handlers rely on; the tracker interprets it.
\<close>

section \<open>State and operations\<close>

record tracker =
  failed :: "string \<rightharpoonup> nat"
  blockedUntil :: "string \<rightharpoonup> int"

definition MaxFailedAttempts :: nat where
  "MaxFailedAttempts = 5"

definition BlockDuration :: int where
  "BlockDuration = 5 * 60 * 1000000000"

definition New :: "tracker option" where
  "New = Some \<lparr>failed = Map.empty, blockedUntil = Map.empty\<rparr>"

text \<open>
  A \<open>net.Addr\<close>: the two concrete types the code tests for, with the text of the IP when
  it is not nil and the text of the whole address, and any other address.
\<close>

datatype net_addr =
    TCPAddr "string option" (addr_string: string)
  | UDPAddr "string option" (addr_string: string)
  | OtherAddr (addr_string: string)

definition host_or_all :: "string \<Rightarrow> string" where
  "host_or_all s = (case split_host s of None \<Rightarrow> s | Some h \<Rightarrow> h)"

fun ClientIP :: "net_addr option \<Rightarrow> string" where
  "ClientIP None = []"
| "ClientIP (Some (TCPAddr (Some ip) _)) = ip"
| "ClientIP (Some (UDPAddr (Some ip) _)) = ip"
| "ClientIP (Some a) = host_or_all (addr_string a)"

definition Allowed :: "int \<Rightarrow> string \<Rightarrow> tracker option \<Rightarrow> bool \<times> tracker option" where
  "Allowed now ip t =
     (case t of
        None \<Rightarrow> (True, t)
      | Some tr \<Rightarrow>
          if ip = [] then (True, t)
          else case blockedUntil tr ip of
            Some until \<Rightarrow>
              if now < until then (False, t)
              else (True, Some (tr\<lparr>blockedUntil := (blockedUntil tr)(ip := None),
                                   failed := (failed tr)(ip := None)\<rparr>))
          | None \<Rightarrow> (True, t))"

definition RecordFailure :: "int \<Rightarrow> string \<Rightarrow> tracker option \<Rightarrow> tracker option" where
  "RecordFailure now ip t =
     (case t of
        None \<Rightarrow> None
      | Some tr \<Rightarrow>
          if ip = [] then t
          else let n = (case failed tr ip of None \<Rightarrow> 0 | Some k \<Rightarrow> k) + 1;
                   tr1 = tr\<lparr>failed := (failed tr)(ip \<mapsto> n)\<rparr> in
               if MaxFailedAttempts \<le> n
               then Some (tr1\<lparr>blockedUntil := (blockedUntil tr1)(ip \<mapsto> now + BlockDuration),
                              failed := (failed tr1)(ip := None)\<rparr>)
               else Some tr1)"

definition RecordSuccess :: "string \<Rightarrow> tracker option \<Rightarrow> tracker option" where
  "RecordSuccess ip t =
     (case t of
        None \<Rightarrow> None
      | Some tr \<Rightarrow>
          if ip = [] then t
          else Some (tr\<lparr>failed := (failed tr)(ip := None),
                        blockedUntil := (blockedUntil tr)(ip := None)\<rparr>))"

section \<open>Histories\<close>

text \<open>An interleaving of calls by any number of clients.\<close>

datatype limit_op =
    OpAllowed int string
  | OpFailure int string
  | OpSuccess string

fun op_ip :: "limit_op \<Rightarrow> string" where
  "op_ip (OpAllowed _ ip) = ip"
| "op_ip (OpFailure _ ip) = ip"
| "op_ip (OpSuccess ip) = ip"

fun limit_step :: "tracker option \<Rightarrow> limit_op \<Rightarrow> tracker option" where
  "limit_step t (OpAllowed now ip) = snd (Allowed now ip t)"
| "limit_step t (OpFailure now ip) = RecordFailure now ip t"
| "limit_step t (OpSuccess ip) = RecordSuccess ip t"

definition limit_run :: "limit_op list \<Rightarrow> tracker option \<Rightarrow> tracker option" where
  "limit_run ops t = foldl limit_step t ops"

lemma limit_run_simps [simp]:
  "limit_run [] t = t"
  "limit_run (x # xs) t = limit_run xs (limit_step t x)"
  "limit_run (xs @ ys) t = limit_run ys (limit_run xs t)"
  by (simp_all add: limit_run_def)

section \<open>The state of one address\<close>

text \<open>
  What the tracker means for one address: open after so many failures, or shut until a
  time.  This is the abstract specification; the operations act on it address by address.
\<close>

datatype ip_view = Open nat | Shut int

definition ip_view :: "tracker option \<Rightarrow> string \<Rightarrow> ip_view" where
  "ip_view t ip =
     (case t of
        None \<Rightarrow> Open 0
      | Some tr \<Rightarrow>
          (case blockedUntil tr ip of
             Some until \<Rightarrow> Shut until
           | None \<Rightarrow> Open (case failed tr ip of None \<Rightarrow> 0 | Some n \<Rightarrow> n)))"

lemmas limit_defs = Allowed_def RecordFailure_def RecordSuccess_def ip_view_def

lemma ip_view_New [simp]: "ip_view New ip = Open 0"
  by (simp add: New_def ip_view_def)

lemma Allowed_Open: "ip_view t ip = Open n \<Longrightarrow> Allowed now ip t = (True, t)"
  by (auto simp: limit_defs split: option.splits)

lemma Allowed_Shut:
  "ip \<noteq> [] \<Longrightarrow> ip_view t ip = Shut u \<Longrightarrow> fst (Allowed now ip t) \<longleftrightarrow> u \<le> now"
  by (auto simp: limit_defs split: option.splits)

lemma ip_view_Allowed:
  "ip \<noteq> [] \<Longrightarrow> ip_view (snd (Allowed now ip t)) ip =
     (case ip_view t ip of Open n \<Rightarrow> Open n | Shut u \<Rightarrow> if now < u then Shut u else Open 0)"
  by (auto simp: limit_defs split: option.splits)

lemma ip_view_RecordFailure:
  "ip \<noteq> [] \<Longrightarrow> t \<noteq> None \<Longrightarrow> ip_view t ip = Open n \<Longrightarrow>
   ip_view (RecordFailure now ip t) ip =
     (if MaxFailedAttempts \<le> Suc n then Shut (now + BlockDuration) else Open (Suc n))"
  by (auto simp: limit_defs Let_def split: option.splits)

lemma ip_view_RecordSuccess: "ip \<noteq> [] \<Longrightarrow> ip_view (RecordSuccess ip t) ip = Open 0"
  by (auto simp: limit_defs split: option.splits)

lemma limit_step_other [unchanged]: "op_ip x \<noteq> ip \<Longrightarrow> ip_view (limit_step t x) ip = ip_view t ip"
  by (cases x) (auto simp: limit_defs Let_def split: option.splits)

lemma limit_step_None [simp]: "limit_step t x = None \<longleftrightarrow> t = None"
  by (cases x) (auto simp: limit_defs Let_def split: option.splits)

lemma limit_run_None [simp]: "limit_run xs t = None \<longleftrightarrow> t = None"
  by (induction xs arbitrary: t) auto

lemma New_not_None [simp]: "New \<noteq> None"
  by (simp add: New_def)

section \<open>Invariant\<close>

text \<open>
  A stored counter is at least one and below the threshold, and nothing is stored for the
  empty address: the maps never hold an entry the code would not clear.
\<close>

fun tracker_ok :: "tracker option \<Rightarrow> bool" where
  "tracker_ok None = True"
| "tracker_ok (Some tr) \<longleftrightarrow>
     (\<forall>ip n. failed tr ip = Some n \<longrightarrow> 1 \<le> n \<and> n < MaxFailedAttempts) \<and>
     failed tr [] = None \<and> blockedUntil tr [] = None"

lemma tracker_ok_New [simp]: "tracker_ok New"
  by (simp add: New_def)

lemma tracker_ok_Allowed: "tracker_ok t \<Longrightarrow> tracker_ok (snd (Allowed now ip t))"
  by (cases t) (auto simp: Allowed_def split: option.splits)

lemma tracker_ok_RecordFailure: "tracker_ok t \<Longrightarrow> tracker_ok (RecordFailure now ip t)"
  by (cases t) (auto simp: RecordFailure_def Let_def split: option.splits)

lemma tracker_ok_RecordSuccess: "tracker_ok t \<Longrightarrow> tracker_ok (RecordSuccess ip t)"
  by (cases t) (auto simp: RecordSuccess_def)

lemmas tracker_ok_intros = tracker_ok_Allowed tracker_ok_RecordFailure tracker_ok_RecordSuccess

lemma tracker_ok_step: "tracker_ok t \<Longrightarrow> tracker_ok (limit_step t x)"
  by (cases x) (auto intro: tracker_ok_intros)

lemma tracker_ok_run: "tracker_ok t \<Longrightarrow> tracker_ok (limit_run xs t)"
  by (induction xs arbitrary: t) (auto intro: tracker_ok_step)

lemma tracker_ok_Open: "tracker_ok t \<Longrightarrow> ip_view t ip = Open n \<Longrightarrow> n < MaxFailedAttempts"
  by (cases t) (auto simp: ip_view_def MaxFailedAttempts_def split: option.splits)

section \<open>The contract of a login gate\<close>

text \<open>
  What a login handler may rely on: it asks \<open>allowed\<close>, and reports the outcome with
  \<open>fail\<close> or \<open>succeed\<close>.  \<open>view\<close> is the state of one address.
\<close>

text \<open>
  How many passwords of one address are checked when every one is wrong and each attempt is
  over before the next begins: each is given by the time of the question and the time the
  failure is reported.
\<close>

fun guess_count :: "(int \<Rightarrow> string \<Rightarrow> 's \<Rightarrow> bool \<times> 's) \<Rightarrow> (int \<Rightarrow> string \<Rightarrow> 's \<Rightarrow> 's)
    \<Rightarrow> string \<Rightarrow> (int \<times> int) list \<Rightarrow> 's \<Rightarrow> nat" where
  "guess_count allowed fail ip [] s = 0"
| "guess_count allowed fail ip ((now, later) # ts) s =
     (case allowed now ip s of
        (True, s1) \<Rightarrow> Suc (guess_count allowed fail ip ts (fail later ip s1))
      | (False, s1) \<Rightarrow> guess_count allowed fail ip ts s1)"

locale attempt_gate =
  fixes view :: "'s \<Rightarrow> string \<Rightarrow> ip_view"
    and valid :: "'s \<Rightarrow> bool"
    and allowed :: "int \<Rightarrow> string \<Rightarrow> 's \<Rightarrow> bool \<times> 's"
    and fail :: "int \<Rightarrow> string \<Rightarrow> 's \<Rightarrow> 's"
    and succeed :: "string \<Rightarrow> 's \<Rightarrow> 's"
    and limit :: nat
    and duration :: int
  assumes allowed_valid: "valid s \<Longrightarrow> valid (snd (allowed now ip s))"
    and fail_valid: "valid s \<Longrightarrow> valid (fail now ip s)"
    and succeed_valid: "valid s \<Longrightarrow> valid (succeed ip s)"
    and open_below: "valid s \<Longrightarrow> view s ip = Open n \<Longrightarrow> n < limit"
    and allowed_iff: "ip \<noteq> [] \<Longrightarrow> valid s \<Longrightarrow>
      fst (allowed now ip s) \<longleftrightarrow> (case view s ip of Open n \<Rightarrow> True | Shut u \<Rightarrow> u \<le> now)"
    and allowed_view: "ip \<noteq> [] \<Longrightarrow> valid s \<Longrightarrow> view (snd (allowed now ip s)) ip =
      (case view s ip of Open n \<Rightarrow> Open n | Shut u \<Rightarrow> if now < u then Shut u else Open 0)"
    and fail_view: "ip \<noteq> [] \<Longrightarrow> valid s \<Longrightarrow> view s ip = Open n \<Longrightarrow> view (fail now ip s) ip =
      (if limit \<le> Suc n then Shut (now + duration) else Open (Suc n))"
    and succeed_view: "ip \<noteq> [] \<Longrightarrow> valid s \<Longrightarrow> view (succeed ip s) ip = Open 0"
begin

lemma allowed_shut:
  assumes "ip \<noteq> []" "valid s" "view s ip = Shut u" "now < u"
  obtains s1 where "allowed now ip s = (False, s1)" "valid s1" "view s1 ip = Shut u"
  using assms allowed_iff [of ip s now] allowed_view [of ip s now] allowed_valid [of s now ip]
  by (cases "allowed now ip s") auto

lemma allowed_passes:
  assumes "ip \<noteq> []" "valid s" "fst (allowed now ip s)"
  obtains s1 n where "allowed now ip s = (True, s1)" "valid s1" "view s1 ip = Open n"
    "view s ip = Open n \<or> (\<exists>u. view s ip = Shut u \<and> u \<le> now)"
  using assms allowed_iff [of ip s now] allowed_view [of ip s now] allowed_valid [of s now ip]
  by (cases "allowed now ip s"; cases "view s ip") auto

lemma guesses_shut:
  "ip \<noteq> [] \<Longrightarrow> valid s \<Longrightarrow> view s ip = Shut u \<Longrightarrow> \<forall>t \<in> set ts. fst t < u \<Longrightarrow>
   guess_count allowed fail ip ts s = 0"
proof (induction ts arbitrary: s)
  case (Cons p ts)
  obtain now later where p: "p = (now, later)" by (cases p)
  with Cons.prems obtain s1 where "allowed now ip s = (False, s1)" "valid s1" "view s1 ip = Shut u"
    using allowed_shut [of ip s u now] by auto
  with Cons p show ?case by simp
qed simp

lemma guesses_open:
  "ip \<noteq> [] \<Longrightarrow> valid s \<Longrightarrow> view s ip = Open n \<Longrightarrow>
   \<forall>t \<in> set ts. fst t < a + duration \<and> a \<le> snd t \<Longrightarrow>
   guess_count allowed fail ip ts s \<le> limit - n"
proof (induction ts arbitrary: s n)
  case (Cons p ts)
  obtain now later where p: "p = (now, later)" by (cases p)
  have "fst (allowed now ip s)" using Cons.prems by (simp add: allowed_iff)
  then obtain s1 where s1: "allowed now ip s = (True, s1)" "valid s1" "view s1 ip = Open n"
    using Cons.prems allowed_passes [of ip s now] by (metis ip_view.distinct(1))
  let ?t = "fail later ip s1"
  have n: "n < limit" using s1 open_below by blast
  have t: "valid ?t" using s1 by (simp add: fail_valid)
  have v: "view ?t ip = (if limit \<le> Suc n then Shut (later + duration) else Open (Suc n))"
    using Cons.prems(1) s1 by (simp add: fail_view)
  have "guess_count allowed fail ip ts ?t \<le> limit - Suc n"
  proof (cases "limit \<le> Suc n")
    case True
    with v t Cons.prems p have "guess_count allowed fail ip ts ?t = 0"
      by (intro guesses_shut [of ip ?t "later + duration"]) fastforce+
    then show ?thesis by simp
  next
    case False
    with v t Cons show ?thesis by auto
  qed
  with s1 n p show ?case by simp
qed simp

theorem guesses_bounded:
  assumes "ip \<noteq> []" "valid s" "\<forall>t \<in> set ts. fst t < a + duration \<and> a \<le> snd t"
  shows "guess_count allowed fail ip ts s \<le> limit"
  using assms
proof (induction ts arbitrary: s)
  case (Cons p ts)
  obtain now later where p: "p = (now, later)" by (cases p)
  show ?case
  proof (cases "fst (allowed now ip s)")
    case False
    then obtain s1 where "allowed now ip s = (False, s1)" "valid s1"
      using Cons.prems allowed_valid [of s now ip] by (cases "allowed now ip s") auto
    with Cons p show ?thesis by simp
  next
    case True
    then obtain s1 n where s1: "allowed now ip s = (True, s1)" "valid s1" "view s1 ip = Open n"
      using Cons.prems allowed_passes by metis
    let ?t = "fail later ip s1"
    have "valid ?t" "n < limit" using s1 fail_valid open_below by auto
    moreover have "view ?t ip = (if limit \<le> Suc n then Shut (later + duration) else Open (Suc n))"
      using Cons.prems(1) s1 by (simp add: fail_view)
    ultimately have "guess_count allowed fail ip ts ?t \<le> limit - Suc n"
      using Cons.prems p guesses_shut [of ip ?t "later + duration" ts] guesses_open [of ip ?t "Suc n" ts a]
      by (cases "limit \<le> Suc n") force+
    with s1 p \<open>n < limit\<close> show ?thesis by simp
  qed
qed simp

end

interpretation tracker_gate: attempt_gate ip_view "\<lambda>t. t \<noteq> None \<and> tracker_ok t"
  Allowed RecordFailure RecordSuccess MaxFailedAttempts BlockDuration
proof
  fix t :: "tracker option" and now ip n
  assume v: "t \<noteq> None \<and> tracker_ok t"
  have "limit_step t (OpAllowed now ip) \<noteq> None" "limit_step t (OpFailure now ip) \<noteq> None"
    "limit_step t (OpSuccess ip) \<noteq> None" using v by (auto simp del: limit_step.simps)
  with v show "snd (Allowed now ip t) \<noteq> None \<and> tracker_ok (snd (Allowed now ip t))"
    "RecordFailure now ip t \<noteq> None \<and> tracker_ok (RecordFailure now ip t)"
    "RecordSuccess ip t \<noteq> None \<and> tracker_ok (RecordSuccess ip t)"
    by (auto intro: tracker_ok_intros)
  show "n < MaxFailedAttempts" if "ip_view t ip = Open n"
    using v that by (auto intro: tracker_ok_Open)
next
  fix t :: "tracker option" and now ip n
  assume ip: "(ip :: string) \<noteq> []" and v: "t \<noteq> None \<and> tracker_ok t"
  show "fst (Allowed now ip t) \<longleftrightarrow> (case ip_view t ip of Open n \<Rightarrow> True | Shut u \<Rightarrow> u \<le> now)"
    using ip by (cases "ip_view t ip") (auto simp: Allowed_Open Allowed_Shut)
  show "ip_view (snd (Allowed now ip t)) ip =
      (case ip_view t ip of Open n \<Rightarrow> Open n | Shut u \<Rightarrow> if now < u then Shut u else Open 0)"
    using ip by (rule ip_view_Allowed)
  show "ip_view (RecordFailure now ip t) ip =
      (if MaxFailedAttempts \<le> Suc n then Shut (now + BlockDuration) else Open (Suc n))"
    if "ip_view t ip = Open n"
    using ip v that by (simp add: ip_view_RecordFailure)
  show "ip_view (RecordSuccess ip t) ip = Open 0"
    using ip by (rule ip_view_RecordSuccess)
qed

section \<open>Counting over interleaved histories\<close>

fun is_failure :: "string \<Rightarrow> limit_op \<Rightarrow> bool" where
  "is_failure ip (OpFailure _ j) = (j = ip)"
| "is_failure ip _ = False"

definition failures :: "string \<Rightarrow> limit_op list \<Rightarrow> nat" where
  "failures ip xs = length (filter (is_failure ip) xs)"

lemma failures_simps [simp]:
  "failures ip [] = 0"
  "failures ip (x # xs) = (if is_failure ip x then Suc (failures ip xs) else failures ip xs)"
  by (simp_all add: failures_def)

lemma is_failure_other: "op_ip x \<noteq> ip \<Longrightarrow> \<not> is_failure ip x"
  by (cases x) auto

lemma limit_step_open:
  assumes "ip \<noteq> []" "t \<noteq> None" "x \<noteq> OpSuccess ip" "ip_view t ip = Open n"
    and "is_failure ip x \<Longrightarrow> Suc n < MaxFailedAttempts"
  shows "ip_view (limit_step t x) ip = Open (if is_failure ip x then Suc n else n)"
proof (cases "op_ip x = ip")
  case True
  with assms show ?thesis by (cases x) (auto simp: Allowed_Open ip_view_RecordFailure)
next
  case False
  with assms show ?thesis by (simp add: unchanged is_failure_other)
qed

lemma limit_run_open:
  "ip \<noteq> [] \<Longrightarrow> t \<noteq> None \<Longrightarrow> OpSuccess ip \<notin> set xs \<Longrightarrow> ip_view t ip = Open n \<Longrightarrow>
   n + failures ip xs < MaxFailedAttempts \<Longrightarrow>
   ip_view (limit_run xs t) ip = Open (n + failures ip xs)"
proof (induction xs arbitrary: t n)
  case (Cons x xs)
  have "ip_view (limit_step t x) ip = Open (if is_failure ip x then Suc n else n)"
    using Cons.prems by (intro limit_step_open) (auto split: if_splits)
  with Cons.prems Cons.IH [of "limit_step t x" "if is_failure ip x then Suc n else n"]
  show ?case by (auto split: if_splits)
qed simp

lemma limit_run_shut:
  "ip \<noteq> [] \<Longrightarrow> OpSuccess ip \<notin> set xs \<Longrightarrow> failures ip xs = 0 \<Longrightarrow>
   \<forall>now. OpAllowed now ip \<in> set xs \<longrightarrow> now < u \<Longrightarrow> ip_view t ip = Shut u \<Longrightarrow>
   ip_view (limit_run xs t) ip = Shut u"
proof (induction xs arbitrary: t)
  case (Cons x xs)
  have "ip_view (limit_step t x) ip = Shut u"
  proof (cases "op_ip x = ip")
    case True
    with Cons.prems show ?thesis by (cases x) (auto simp: ip_view_Allowed split: if_splits)
  next
    case False
    with Cons.prems show ?thesis by (simp add: unchanged)
  qed
  with Cons show ?case by (auto split: if_splits)
qed simp

text \<open>What the tracker stores for one address, and that its steps act on nothing else.\<close>

definition entry :: "tracker option \<Rightarrow> string \<Rightarrow> (nat option \<times> int option) option" where
  "entry t ip = map_option (\<lambda>tr. (failed tr ip, blockedUntil tr ip)) t"

lemma entry_step_other: "op_ip x \<noteq> ip \<Longrightarrow> entry (limit_step t x) ip = entry t ip"
  by (cases x; cases t) (auto simp: entry_def limit_defs Let_def split: option.splits)

lemma entry_step_same:
  "op_ip x = ip \<Longrightarrow> entry t ip = entry t' ip \<Longrightarrow> entry (limit_step t x) ip = entry (limit_step t' x) ip"
  by (cases x; cases t; cases t')
    (auto simp: entry_def limit_defs Let_def split: option.splits)

lemma entry_run_filter:
  "entry t ip = entry t' ip \<Longrightarrow>
   entry (limit_run xs t) ip = entry (limit_run (filter (\<lambda>x. op_ip x = ip) xs) t') ip"
proof (induction xs arbitrary: t t')
  case (Cons x xs)
  let ?t' = "if op_ip x = ip then limit_step t' x else t'"
  have "entry (limit_step t x) ip = entry ?t' ip"
    using Cons.prems entry_step_same [of x ip t t'] by (simp add: entry_step_other)
  from Cons.IH [OF this] show ?case by simp
qed simp

lemma Allowed_entry: "entry t ip = entry t' ip \<Longrightarrow> fst (Allowed now ip t) = fst (Allowed now ip t')"
  by (cases t; cases t') (auto simp: entry_def Allowed_def split: option.splits)

section \<open>Properties\<close>

text \<open>
  After four failed logins from an address, in any interleaving with other clients and
  with no successful login from it, the fifth failure at time T blocks the address for
  exactly \<open>BlockDuration\<close>: until then every query is refused, from then on it is granted.
\<close>

theorem fifth_failure_blocks:
  assumes "ip \<noteq> []"
    and "OpSuccess ip \<notin> set xs" "failures ip xs = 4"
    and "OpSuccess ip \<notin> set ys" "failures ip ys = 0"
    and "\<forall>now. OpAllowed now ip \<in> set ys \<longrightarrow> now < T + BlockDuration"
  shows "fst (Allowed now ip (limit_run (xs @ [OpFailure T ip] @ ys) New)) \<longleftrightarrow> T + BlockDuration \<le> now"
proof -
  have "ip_view (limit_run xs New) ip = Open 4"
    using assms limit_run_open [of ip New xs 0] by (simp add: MaxFailedAttempts_def)
  then have "ip_view (RecordFailure T ip (limit_run xs New)) ip = Shut (T + BlockDuration)"
    using assms(1) by (simp add: ip_view_RecordFailure MaxFailedAttempts_def)
  then have "ip_view (limit_run (xs @ [OpFailure T ip] @ ys) New) ip = Shut (T + BlockDuration)"
    using assms by (simp add: limit_run_shut)
  with assms(1) show ?thesis by (rule Allowed_Shut)
qed

lemma fifth_failure_blocks_witness:
  "fst (Allowed 301000000000 ''10.0.0.1''
     (limit_run ([OpFailure 0 ''10.0.0.1'', OpFailure 1 ''10.0.0.1'', OpFailure 2 ''10.0.0.2'',
                  OpFailure 3 ''10.0.0.1'', OpSuccess ''10.0.0.2'', OpFailure 4 ''10.0.0.1'']
                 @ [OpFailure 1000000000 ''10.0.0.1'']
                 @ [OpAllowed 300000000000 ''10.0.0.1'', OpFailure 7 ''10.0.0.2'']) New))"
  by (subst fifth_failure_blocks) (simp_all add: BlockDuration_def)

text \<open>
  With fewer than five failures since the start and no success in between, an address
  is never refused, whatever other clients do.
\<close>

theorem few_failures_allowed:
  assumes "ip \<noteq> []" "OpSuccess ip \<notin> set xs" "failures ip xs < MaxFailedAttempts"
  shows "fst (Allowed now ip (limit_run xs New))"
proof -
  have "ip_view (limit_run xs New) ip = Open (failures ip xs)"
    using assms limit_run_open [of ip New xs 0] by simp
  then show ?thesis by (simp add: Allowed_Open)
qed

lemma few_failures_allowed_witness:
  "fst (Allowed 9 ''h'' (limit_run [OpFailure 0 ''h'', OpFailure 1 ''g'', OpAllowed 2 ''h''] New))"
  by (rule few_failures_allowed) (simp_all add: MaxFailedAttempts_def)

text \<open>
  C20: Of the attempts of one address that all fail, follow one another and fall into five
  minutes, at most five pass the check and reach the service, from every state that the tracker
  can reach through any calls before.  A success in between would start the count anew, and
  attempts that overlap may all pass the check before the first of them is recorded.
\<close>

theorem guesses_per_window:
  assumes "ip \<noteq> []" "\<forall>t \<in> set ts. fst t < a + BlockDuration \<and> a \<le> snd t"
  shows "guess_count Allowed RecordFailure ip ts (limit_run xs New) \<le> MaxFailedAttempts"
  using assms by (intro tracker_gate.guesses_bounded) (auto intro: tracker_ok_run)

lemma guesses_per_window_witness:
  "guess_count Allowed RecordFailure ''h'' [(0, 1), (1, 2), (2, 3), (3, 4), (4, 5), (5, 6)] (limit_run [OpSuccess ''g''] New)
     \<le> MaxFailedAttempts"
  by (rule guesses_per_window [where a = 0]) (simp_all add: BlockDuration_def)

text \<open>
  The verdict on an address depends only on the calls made for that address: removing
  every other client's calls from the history changes nothing.
\<close>

theorem verdict_isolated:
  "fst (Allowed now ip (limit_run xs New)) =
   fst (Allowed now ip (limit_run (filter (\<lambda>x. op_ip x = ip) xs) New))"
  by (rule Allowed_entry, rule entry_run_filter, rule refl)

text \<open>
  In every reachable state a stored counter lies between one and four, and nothing is
  stored under the empty address.
\<close>

theorem tracker_invariant: "tracker_ok (limit_run xs New)"
  by (rule tracker_ok_run) simp

end
