(* ===== verification/Smtp_Session.thy ===== *)
theory Smtp_Session
  imports Smtp_Syntax Login_Limit
begin

text \<open>
  One SMTP session of \<open>internal/mhalesmtpd/smtpd.go\<close>: the type \<open>session\<close> together with
  the local variables of \<open>serve\<close>, one definition per command, and the command loop.

  What the session reads is a list of read results (\<open>rd\<close>): a line with its terminator,
  or the error of the read; an exhausted list is end of file.  Replies and calls of the
  server's handlers are appended to \<open>out\<close>.  The handlers act on a world \<open>'w\<close> that the
  model leaves open.  What comes from the operating system or the network and is not a
  read (reverse DNS, the clock, what \<open>bufio\<close> has buffered, the order in which Go visits
  a map) is an argument, the record \<open>env\<close>; a value that changes over time is given as a
  function of the input that is still unread.
\<close>

section \<open>Server, environment and session\<close>

datatype rd = Line string | ReadFail go_error

record 'w server =
  Appname :: string
  AuthHandler :: "(net_addr \<Rightarrow> string \<Rightarrow> string \<Rightarrow> string \<Rightarrow> string option \<Rightarrow> 'w
                   \<Rightarrow> (bool \<times> go_error option) \<times> 'w) option"
  AuthMechs :: "string \<rightharpoonup> bool"
  AuthRequired :: bool
  DisableReverseDNS :: bool
  Handler :: "(net_addr \<Rightarrow> string \<Rightarrow> string list \<Rightarrow> string \<Rightarrow> 'w \<Rightarrow> go_error option \<times> 'w) option"
  HandlerRcpt :: "(net_addr \<Rightarrow> string \<Rightarrow> string \<Rightarrow> 'w \<Rightarrow> bool \<times> 'w) option"
  Hostname :: string
  MaxSize :: int
  MaxRecipients :: int
  MsgIDHandler :: "(net_addr \<Rightarrow> string \<Rightarrow> string list \<Rightarrow> string \<Rightarrow> 'w
                   \<Rightarrow> (string \<times> go_error option) \<times> 'w) option"
  TLSConfigured :: bool
  TLSRequired :: bool
  XClientAllowed :: "string list"

record env =
  LookupAddr :: "string \<Rightarrow> string list option"
  ParseIP :: "string \<Rightarrow> bool"
  NowText :: "rd list \<Rightarrow> string"
  PidNanos :: "rd list \<Rightarrow> string"
  DiscardBuffered :: "rd list \<Rightarrow> rd list"
  MechOrder :: "string list"

datatype event =
    Wrote string
  | AuthCall string string string bool
  | RcptCall string string bool
  | MailCall string "string list" string

record 'w session =
  srv :: "'w server"
  remoteAddr :: net_addr
  remoteIP :: string
  remoteHost :: string
  remoteName :: string
  xClient :: string
  xClientADDR :: string
  xClientNAME :: string
  xClientTrust :: bool
  tls :: bool
  authenticated :: bool
  from_addr :: string
  gotFrom :: bool
  to_addrs :: "string list"
  buffer :: string
  inp :: "rd list"
  tls_inp :: "rd list option"
  out :: "event list"
  world :: 'w

text \<open>\<open>tls_inp\<close> is what the client sends after a TLS handshake; \<open>None\<close>: the handshake fails.\<close>

definition lookup_host :: "env \<Rightarrow> string \<Rightarrow> string" where
  "lookup_host E ip =
     (case LookupAddr E ip of Some (n # _) \<Rightarrow> n | _ \<Rightarrow> ''unknown'')"

definition newSession ::
    "env \<Rightarrow> 'w server \<Rightarrow> net_addr \<Rightarrow> bool \<Rightarrow> rd list \<Rightarrow> rd list option \<Rightarrow> 'w \<Rightarrow> 'w session" where
  "newSession E sv addr isTLS lines tlsLines w =
     (let ip = (case split_host (addr_string addr) of None \<Rightarrow> [] | Some h \<Rightarrow> h) in
      \<lparr>srv = sv, remoteAddr = addr, remoteIP = ip,
       remoteHost = (if \<not> DisableReverseDNS sv then lookup_host E ip else ''unknown''),
       remoteName = [], xClient = [], xClientADDR = [], xClientNAME = [],
       xClientTrust = (ip \<in> set (XClientAllowed sv)), tls = isTLS, authenticated = False,
       from_addr = [], gotFrom = False, to_addrs = [], buffer = [],
       inp = lines, tls_inp = tlsLines, out = [], world = w\<rparr>)"

section \<open>Reading and writing\<close>

definition emit :: "event \<Rightarrow> 'w session \<Rightarrow> 'w session" where
  "emit e s = s\<lparr>out := out s @ [e]\<rparr>"

definition writef :: "string \<Rightarrow> 'w session \<Rightarrow> 'w session" where
  "writef line s = emit (Wrote line) s"

definition eof :: go_error where
  "eof = ErrText ''EOF''"

definition readLine :: "'w session \<Rightarrow> string result \<times> 'w session" where
  "readLine s =
     (case inp s of
        [] \<Rightarrow> (Inl eof, s)
      | ReadFail e # r \<Rightarrow> (Inl e, s\<lparr>inp := r\<rparr>)
      | Line l # r \<Rightarrow> (Inr (trim_space l), s\<lparr>inp := r\<rparr>))"

text \<open>\<open>readData\<close>: the errors of the loop are a read error or \<open>maxSizeExceededError\<close>.\<close>

datatype data_error = DataRead go_error | DataTooBig int

fun readData_loop ::
    "int \<Rightarrow> (rd list \<Rightarrow> rd list) \<Rightarrow> string \<Rightarrow> rd list \<Rightarrow> (data_error + string) \<times> rd list" where
  "readData_loop mx discard data [] = (Inl (DataRead eof), [])"
| "readData_loop mx discard data (ReadFail e # r) = (Inl (DataRead e), r)"
| "readData_loop mx discard data (Line l # r) =
     (if l = CHR ''.'' # crlf \<or> l = CHR ''.'' # nl then (Inr data, r)
      else let line = (case l of [] \<Rightarrow> [] | c # t \<Rightarrow> if c = CHR ''.'' then t else l) in
        if 0 < mx \<and> mx < int (length data + length line) then (Inl (DataTooBig mx), discard r)
        else readData_loop mx discard (data @ line) r)"

definition readData :: "env \<Rightarrow> 'w session \<Rightarrow> (data_error + string) \<times> 'w session" where
  "readData E s =
     (case readData_loop (MaxSize (srv s)) (DiscardBuffered E) [] (inp s) of
        (r, rest) \<Rightarrow> (r, s\<lparr>inp := rest\<rparr>))"

definition maxSizeExceeded_text :: "int \<Rightarrow> string" where
  "maxSizeExceeded_text n =
     ''552 5.3.4 Requested mail action aborted: exceeded storage allocation ('' @ itoa n @ '')''"

definition makeHeaders :: "env \<Rightarrow> 'w session \<Rightarrow> string list \<Rightarrow> string" where
  "makeHeaders E s to =
     ''Received: from '' @ remoteName s @ '' ('' @ remoteHost s @ '' ['' @ remoteIP s @ ''])'' @ crlf @
     ''        by '' @ Hostname (srv s) @ '' ('' @ Appname (srv s) @ '') with SMTP'' @ crlf @
     ''        for <'' @ hd to @ ''>; '' @ NowText E (inp s) @ crlf"

text \<open>The 421 reply after a read timeout.\<close>

definition timeout_text :: "'w session \<Rightarrow> string" where
  "timeout_text s = ''421 4.4.2 '' @ Hostname (srv s) @ '' '' @ Appname (srv s) @
     '' ESMTP Service closing transmission channel after timeout exceeded''"

section \<open>Authentication\<close>

definition authMechs :: "'w session \<Rightarrow> string \<rightharpoonup> bool" where
  "authMechs s mech =
     (if mech \<in> {''LOGIN'', ''PLAIN'', ''CRAM-MD5''} then
        (case AuthMechs (srv s) mech of
           Some allowed \<Rightarrow> Some allowed
         | None \<Rightarrow> Some (if mech = ''CRAM-MD5'' then True else tls s))
      else None)"

definition makeEHLOResponse :: "env \<Rightarrow> 'w session \<Rightarrow> string" where
  "makeEHLOResponse E s =
     ''250-'' @ Hostname (srv s) @ '' greets '' @ remoteName s @ crlf @
     ''250-SIZE '' @ itoa (MaxSize (srv s)) @ crlf @
     (if TLSConfigured (srv s) \<and> \<not> tls s then ''250-STARTTLS'' @ crlf else []) @
     (if AuthHandler (srv s) \<noteq> None then
        (let mechs = filter (\<lambda>m. authMechs s m = Some True) (MechOrder E) in
         if mechs \<noteq> [] then ''250-AUTH '' @ join_str '' '' mechs @ crlf else [])
      else []) @
     ''250 ENHANCEDSTATUSCODES''"

text \<open>The call of \<open>srv.AuthHandler\<close> at the end of each mechanism.\<close>

definition callAuth ::
    "string \<Rightarrow> string \<Rightarrow> string \<Rightarrow> string option \<Rightarrow> 'w session
     \<Rightarrow> (bool \<times> go_error option) \<times> 'w session" where
  "callAuth mech user pass shared s =
     (case AuthHandler (srv s) of
        None \<Rightarrow> ((False, None), s)
      | Some h \<Rightarrow>
          (case h (remoteAddr s) mech user pass shared (world s) of
             ((ok, err), w) \<Rightarrow> ((ok, err), emit (AuthCall mech user pass ok) (s\<lparr>world := w\<rparr>))))"

definition undecodable :: go_error where
  "undecodable = ErrText ''501 5.5.2 Syntax error (unable to decode)''"

definition unparsable :: go_error where
  "unparsable = ErrText ''501 5.5.2 Syntax error (unable to parse)''"

definition handleAuthLogin ::
    "string \<Rightarrow> 'w session \<Rightarrow> (bool \<times> go_error option) \<times> 'w session" where
  "handleAuthLogin arg s0 =
     (case (if arg = [] then readLine (writef (''334 '' @ b64_encode ''Username:'') s0)
            else (Inr arg, s0)) of
        (Inl e, s1) \<Rightarrow> ((False, Some e), s1)
      | (Inr a, s1) \<Rightarrow>
          (case b64_decode a of
             None \<Rightarrow> ((False, Some undecodable), s1)
           | Some username \<Rightarrow>
               (case readLine (writef (''334 '' @ b64_encode ''Password:'') s1) of
                  (Inl e, s2) \<Rightarrow> ((False, Some e), s2)
                | (Inr line, s2) \<Rightarrow>
                    (case b64_decode line of
                       None \<Rightarrow> ((False, Some undecodable), s2)
                     | Some password \<Rightarrow> callAuth ''LOGIN'' username password None s2))))"

definition handleAuthPlain ::
    "string \<Rightarrow> 'w session \<Rightarrow> (bool \<times> go_error option) \<times> 'w session" where
  "handleAuthPlain arg s0 =
     (case (if arg = [] then readLine (writef ''334 '' s0) else (Inr arg, s0)) of
        (Inl e, s1) \<Rightarrow> ((False, Some e), s1)
      | (Inr a, s1) \<Rightarrow>
          (case b64_decode a of
             None \<Rightarrow> ((False, Some undecodable), s1)
           | Some data \<Rightarrow>
               (case split_char CHR 0x00 data of
                  [_, user, pass] \<Rightarrow> callAuth ''PLAIN'' user pass None s1
                | _ \<Rightarrow> ((False, Some unparsable), s1))))"

definition handleAuthCramMD5 ::
    "env \<Rightarrow> 'w session \<Rightarrow> (bool \<times> go_error option) \<times> 'w session" where
  "handleAuthCramMD5 E s0 =
     (let shared = ''<'' @ PidNanos E (inp s0) @ ''@'' @ Hostname (srv s0) @ ''>'' in
      case readLine (writef (''334 '' @ b64_encode shared) s0) of
        (Inl e, s1) \<Rightarrow> ((False, Some e), s1)
      | (Inr data, s1) \<Rightarrow>
          if data = ''*'' then ((False, Some (ErrText ''501 5.7.0 Authentication cancelled'')), s1)
          else (case b64_decode data of
             None \<Rightarrow> ((False, Some undecodable), s1)
           | Some buf \<Rightarrow>
               (case split_char CHR '' '' buf of
                  f0 # f1 # _ \<Rightarrow> callAuth ''CRAM-MD5'' f0 f1 (Some shared) s1
                | _ \<Rightarrow> ((False, Some unparsable), s1))))"

section \<open>Commands\<close>

text \<open>Forgetting the mail transaction: the four assignments at the end of several commands.\<close>

definition resetTxn :: "'w session \<Rightarrow> 'w session" where
  "resetTxn s = s\<lparr>from_addr := [], gotFrom := False, to_addrs := [], buffer := []\<rparr>"

definition needTLS :: "'w session \<Rightarrow> bool" where
  "needTLS s \<longleftrightarrow> TLSConfigured (srv s) \<and> TLSRequired (srv s) \<and> \<not> tls s"

definition needAuth :: "'w session \<Rightarrow> bool" where
  "needAuth s \<longleftrightarrow> AuthHandler (srv s) \<noteq> None \<and> AuthRequired (srv s) \<and> \<not> authenticated s"

abbreviation starttls_first :: string where
  "starttls_first \<equiv> ''530 5.7.0 Must issue a STARTTLS command first''"

abbreviation auth_required :: string where
  "auth_required \<equiv> ''530 5.7.0 Authentication required''"

definition cmdHELO :: "string \<Rightarrow> 'w session \<Rightarrow> 'w session" where
  "cmdHELO args s =
     resetTxn (writef (''250 '' @ Hostname (srv s) @ '' greets '' @ args) (s\<lparr>remoteName := args\<rparr>))"

definition cmdEHLO :: "env \<Rightarrow> string \<Rightarrow> 'w session \<Rightarrow> 'w session" where
  "cmdEHLO E args s =
     (let s1 = s\<lparr>remoteName := args\<rparr> in resetTxn (writef (makeEHLOResponse E s1) s1))"

abbreviation bad_from :: string where
  "bad_from \<equiv> ''501 5.5.4 Syntax error in parameters or arguments (invalid FROM parameter)''"

abbreviation bad_size :: string where
  "bad_size \<equiv> ''501 5.5.4 Syntax error in parameters or arguments (invalid SIZE parameter)''"

abbreviation bad_to :: string where
  "bad_to \<equiv> ''501 5.5.4 Syntax error in parameters or arguments (invalid TO parameter)''"

definition acceptFrom :: "string \<Rightarrow> 'w session \<Rightarrow> 'w session" where
  "acceptFrom a s = writef ''250 2.1.0 Ok'' (s\<lparr>from_addr := a, gotFrom := True\<rparr>)"

definition cmdMAIL :: "string \<Rightarrow> 'w session \<Rightarrow> 'w session" where
  "cmdMAIL args s =
     (if needTLS s then writef starttls_first s
      else if needAuth s then writef auth_required s
      else
        (let s1 =
           (case mailFromRE args of
              None \<Rightarrow> writef bad_from s
            | Some (m1, m2, m3) \<Rightarrow>
                if 0 < length m2 then
                  (case mailSizeRE m3 of
                     None \<Rightarrow> writef bad_size s
                   | Some digits \<Rightarrow>
                       (case atoi digits of
                          (_, False) \<Rightarrow> writef bad_size s
                        | (sz, True) \<Rightarrow>
                            if 0 < MaxSize (srv s) \<and> MaxSize (srv s) < sz
                            then writef (maxSizeExceeded_text (MaxSize (srv s))) s
                            else acceptFrom m1 s))
                else acceptFrom m1 s)
         in s1\<lparr>to_addrs := [], buffer := []\<rparr>))"

text \<open>The RCPT handler sets the default of 100 recipients on the server itself.\<close>

definition defaultRecipients :: "'w session \<Rightarrow> 'w session" where
  "defaultRecipients s =
     (if MaxRecipients (srv s) = 0 then s\<lparr>srv := (srv s)\<lparr>MaxRecipients := 100\<rparr>\<rparr> else s)"

definition cmdRCPT :: "string \<Rightarrow> 'w session \<Rightarrow> 'w session" where
  "cmdRCPT args s =
     (if needTLS s then writef starttls_first s
      else if needAuth s then writef auth_required s
      else if \<not> gotFrom s then writef ''503 5.5.1 Bad sequence of commands (MAIL required before RCPT)'' s
      else case rcptToRE args of
        None \<Rightarrow> writef bad_to s
      | Some rcpt \<Rightarrow>
          (let s1 = defaultRecipients s in
           if int (length (to_addrs s1)) = MaxRecipients (srv s1)
           then writef ''452 4.5.3 Too many recipients'' s1
           else
             (case (case HandlerRcpt (srv s1) of
                      None \<Rightarrow> (True, s1)
                    | Some h \<Rightarrow>
                        (case h (remoteAddr s1) (from_addr s1) rcpt (world s1) of
                           (accept, w) \<Rightarrow>
                             (accept, emit (RcptCall (from_addr s1) rcpt accept) (s1\<lparr>world := w\<rparr>)))) of
                (accept, s2) \<Rightarrow>
                  if accept then writef ''250 2.1.5 Ok'' (s2\<lparr>to_addrs := to_addrs s2 @ [rcpt]\<rparr>)
                  else writef ''550 5.1.0 Requested action not taken: mailbox unavailable'' s2)))"

text \<open>The reply to an error of a mail handler.\<close>

definition handlerErrorText :: "go_error \<Rightarrow> string" where
  "handlerErrorText e =
     (if checkErrFormat (error_text e) then error_text e else ''451 4.3.5 Unable to process mail'')"

text \<open>Passing the message on: the two kinds of handler, then the reset for the next mail.\<close>

definition deliver :: "'w session \<Rightarrow> 'w session" where
  "deliver s =
     (case Handler (srv s) of
        Some h \<Rightarrow>
          (case h (remoteAddr s) (from_addr s) (to_addrs s) (buffer s) (world s) of
             (err, w) \<Rightarrow>
               let s1 = emit (MailCall (from_addr s) (to_addrs s) (buffer s)) (s\<lparr>world := w\<rparr>) in
               (case err of
                  Some e \<Rightarrow> writef (handlerErrorText e) s1
                | None \<Rightarrow> resetTxn (writef ''250 2.0.0 Ok'' s1)))
      | None \<Rightarrow>
          (case MsgIDHandler (srv s) of
             Some h \<Rightarrow>
               (case h (remoteAddr s) (from_addr s) (to_addrs s) (buffer s) (world s) of
                  ((msgID, err), w) \<Rightarrow>
                    let s1 = emit (MailCall (from_addr s) (to_addrs s) (buffer s)) (s\<lparr>world := w\<rparr>) in
                    (case err of
                       Some e \<Rightarrow> writef (handlerErrorText e) s1
                     | None \<Rightarrow>
                         resetTxn (writef (if msgID \<noteq> [] then ''250 2.0.0 Ok '' @ msgID
                                           else ''250 2.0.0 Ok'') s1)))
           | None \<Rightarrow> resetTxn (writef ''250 2.0.0 Ok'' s)))"

text \<open>A command that may end the session returns whether the loop goes on.\<close>

definition cmdDATA :: "env \<Rightarrow> 'w session \<Rightarrow> bool \<times> 'w session" where
  "cmdDATA E s =
     (if needTLS s then (True, writef starttls_first s)
      else if needAuth s then (True, writef auth_required s)
      else if \<not> gotFrom s \<or> to_addrs s = []
        then (True, writef ''503 5.5.1 Bad sequence of commands (MAIL & RCPT required before DATA)'' s)
      else case readData E (writef ''354 Start mail input; end with <CR><LF>.<CR><LF>'' s) of
        (Inl (DataRead e), s1) \<Rightarrow>
          if is_net_error e then
            (False, if is_net_timeout e then writef (timeout_text s1) s1 else s1)
          else (True, writef ''451 4.3.0 Requested action aborted: local error in processing'' s1)
      | (Inl (DataTooBig n), s1) \<Rightarrow> (True, writef (maxSizeExceeded_text n) s1)
      | (Inr data, s1) \<Rightarrow> (True, deliver (s1\<lparr>buffer := makeHeaders E s1 (to_addrs s1) @ data\<rparr>)))"

definition cmdQUIT :: "'w session \<Rightarrow> 'w session" where
  "cmdQUIT s = writef (''221 2.0.0 '' @ Hostname (srv s) @ '' '' @ Appname (srv s) @
     '' ESMTP Service closing transmission channel'') s"

definition cmdRSET :: "'w session \<Rightarrow> 'w session" where
  "cmdRSET s =
     (if needTLS s then writef starttls_first s else resetTxn (writef ''250 2.0.0 Ok'' s))"

text \<open>One \<open>KEY=value\<close> argument of XCLIENT.\<close>

definition xclientArg :: "env \<Rightarrow> string \<Rightarrow> 'w session \<Rightarrow> 'w session" where
  "xclientArg E a s =
     (let arg = trim_space a in
      if arg = [] then s
      else case cut_char CHR ''='' arg of
        None \<Rightarrow> s
      | Some (k, v) \<Rightarrow>
          (let key = to_upper (trim_space k); val = trim_space v;
               s1 = (if key = ''ADDR'' \<and> ParseIP E val then s\<lparr>xClientADDR := val\<rparr> else s)
           in if key = ''NAME'' \<and> 0 < length val \<and> val \<noteq> ''[UNAVAILABLE]''
              then s1\<lparr>xClientNAME := val\<rparr> else s1))"

definition cmdXCLIENT :: "env \<Rightarrow> string \<Rightarrow> 'w session \<Rightarrow> 'w session" where
  "cmdXCLIENT E args s =
     (let s0 = s\<lparr>xClient := args\<rparr>;
          s1 = (if xClientTrust s0 then
                  (let t = fold (xclientArg E) (split_char CHR '' '' args) s0 in
                   if 7 < length (xClientADDR t)
                   then t\<lparr>remoteIP := xClientADDR t,
                          remoteHost := (if 4 < length (xClientNAME t) then xClientNAME t
                                         else lookup_host E (xClientADDR t))\<rparr>
                   else t)
                else s0)
      in writef ''250 2.0.0 Ok'' s1)"

definition cmdSTARTTLS :: "string \<Rightarrow> 'w session \<Rightarrow> 'w session" where
  "cmdSTARTTLS args s =
     (if args \<noteq> [] then writef ''501 5.5.2 Syntax error (no parameters allowed)'' s
      else if \<not> TLSConfigured (srv s) then writef ''502 5.5.1 Command not implemented'' s
      else if tls s then writef ''503 5.5.1 Bad sequence of commands (TLS already in use)'' s
      else
        (let s1 = writef ''220 2.0.0 Ready to start TLS'' s in
         case tls_inp s1 of
           None \<Rightarrow> writef ''403 4.7.0 TLS handshake failed'' s1
         | Some lines \<Rightarrow>
             resetTxn (s1\<lparr>inp := lines, tls_inp := None, tls := True, remoteName := []\<rparr>)))"

text \<open>The end of the AUTH command, with the result of the mechanism.\<close>

definition finishAuth :: "(bool \<times> go_error option) \<times> 'w session \<Rightarrow> bool \<times> 'w session" where
  "finishAuth r =
     (case r of ((ok, err), s1) \<Rightarrow>
        let s2 = s1\<lparr>authenticated := ok\<rparr> in
        (case err of
           Some e \<Rightarrow>
             if is_net_timeout e then (False, writef (timeout_text s2) s2)
             else (True, writef (error_text e) s2)
         | None \<Rightarrow>
             (True, writef (if ok then ''235 2.7.0 Authentication successful''
                            else ''535 5.7.8 Authentication credentials invalid'') s2)))"

definition cmdAUTH :: "env \<Rightarrow> string \<Rightarrow> 'w session \<Rightarrow> bool \<times> 'w session" where
  "cmdAUTH E args s =
     (if needTLS s then (True, writef starttls_first s)
      else if AuthHandler (srv s) = None then (True, writef ''502 5.5.1 Command not implemented'' s)
      else if authenticated s
        then (True, writef ''503 5.5.1 Bad sequence of commands (already authenticated for this session)'' s)
      else if gotFrom s \<or> 0 < length (to_addrs s)
        then (True, writef ''503 5.5.1 Bad sequence of commands (AUTH not permitted during mail transaction)'' s)
      else case parseLine args of (authType, authArgs) \<Rightarrow>
        if authType = [] then (True, writef ''501 5.5.4 Malformed AUTH input (argument required)'' s)
        else if authMechs s authType \<noteq> Some True
          then (True, writef ''504 5.5.4 Unrecognized authentication type'' s)
        else finishAuth (if authType = ''PLAIN'' then handleAuthPlain authArgs s
                         else if authType = ''LOGIN'' then handleAuthLogin authArgs s
                         else handleAuthCramMD5 E s))"

section \<open>The command loop\<close>

definition dispatch :: "env \<Rightarrow> string \<Rightarrow> string \<Rightarrow> 'w session \<Rightarrow> bool \<times> 'w session" where
  "dispatch E verb args s =
     (if verb = ''HELO'' then (True, cmdHELO args s)
      else if verb = ''EHLO'' then (True, cmdEHLO E args s)
      else if verb = ''MAIL'' then (True, cmdMAIL args s)
      else if verb = ''RCPT'' then (True, cmdRCPT args s)
      else if verb = ''DATA'' then cmdDATA E s
      else if verb = ''QUIT'' then (False, cmdQUIT s)
      else if verb = ''RSET'' then (True, cmdRSET s)
      else if verb = ''NOOP'' then (True, writef ''250 2.0.0 Ok'' s)
      else if verb = ''XCLIENT'' then (True, cmdXCLIENT E args s)
      else if verb \<in> {''HELP'', ''VRFY'', ''EXPN''} then (True, writef ''502 5.5.1 Command not implemented'' s)
      else if verb = ''STARTTLS'' then (True, cmdSTARTTLS args s)
      else if verb = ''AUTH'' then cmdAUTH E args s
      else (True, writef ''500 5.5.2 Syntax error, command unrecognized'' s))"

text \<open>One turn of \<open>serve\<close>: read a line and carry the command out.\<close>

definition serveStep :: "env \<Rightarrow> 'w session \<Rightarrow> bool \<times> 'w session" where
  "serveStep E s =
     (case readLine s of
        (Inl e, s1) \<Rightarrow> (False, if is_net_timeout e then writef (timeout_text s1) s1 else s1)
      | (Inr line, s1) \<Rightarrow> (case parseLine line of (verb, args) \<Rightarrow> dispatch E verb args s1))"

definition banner :: "'w session \<Rightarrow> 'w session" where
  "banner s = writef (''220 '' @ Hostname (srv s) @ '' '' @ Appname (srv s) @ '' ESMTP Service ready'') s"

text \<open>The loop, with a bound on the number of turns; \<open>None\<close> when the bound is hit.\<close>

fun serveLoop :: "nat \<Rightarrow> env \<Rightarrow> 'w session \<Rightarrow> 'w session option" where
  "serveLoop 0 E s = None"
| "serveLoop (Suc n) E s =
     (case serveStep E s of (False, t) \<Rightarrow> Some t | (True, t) \<Rightarrow> serveLoop n E t)"

definition serve :: "nat \<Rightarrow> env \<Rightarrow> 'w session \<Rightarrow> 'w session option" where
  "serve n E s = serveLoop n E (banner s)"

text \<open>
  The states a session passes through, each with whether the loop is still running there.
\<close>

inductive session_reach :: "env \<Rightarrow> 'w session \<Rightarrow> bool \<Rightarrow> 'w session \<Rightarrow> bool" for E s where
  start: "session_reach E s True (banner s)"
| turn: "session_reach E s True t \<Longrightarrow> serveStep E t = (go, u) \<Longrightarrow> session_reach E s go u"

inductive_cases session_reach_stopE: "session_reach E s False u"

end
