(* ===== verification/Smtp_Invariants.thy ===== *)
theory Smtp_Invariants
  imports Smtp_Session
begin

text \<open>
  Frame facts of the session operations, the session invariant with its preservation by
  every command, and termination of the command loop.
\<close>

section \<open>What the elementary operations leave alone\<close>

lemma emit_fields [simp]:
  "srv (emit e s) = srv s" "tls (emit e s) = tls s" "authenticated (emit e s) = authenticated s"
  "gotFrom (emit e s) = gotFrom s" "from_addr (emit e s) = from_addr s"
  "to_addrs (emit e s) = to_addrs s" "buffer (emit e s) = buffer s" "inp (emit e s) = inp s"
  "tls_inp (emit e s) = tls_inp s" "world (emit e s) = world s" "out (emit e s) = out s @ [e]"
  "remoteAddr (emit e s) = remoteAddr s" "remoteName (emit e s) = remoteName s"
  "xClientADDR (emit e s) = xClientADDR s" "xClientNAME (emit e s) = xClientNAME s"
  "xClientTrust (emit e s) = xClientTrust s" "remoteIP (emit e s) = remoteIP s"
  "remoteHost (emit e s) = remoteHost s" "xClient (emit e s) = xClient s"
  by (simp_all add: emit_def)

lemma writef_fields [simp]:
  "srv (writef l s) = srv s" "tls (writef l s) = tls s" "authenticated (writef l s) = authenticated s"
  "gotFrom (writef l s) = gotFrom s" "from_addr (writef l s) = from_addr s"
  "to_addrs (writef l s) = to_addrs s" "buffer (writef l s) = buffer s" "inp (writef l s) = inp s"
  "tls_inp (writef l s) = tls_inp s" "world (writef l s) = world s"
  "out (writef l s) = out s @ [Wrote l]"
  "remoteAddr (writef l s) = remoteAddr s" "remoteName (writef l s) = remoteName s"
  "xClientADDR (writef l s) = xClientADDR s" "xClientNAME (writef l s) = xClientNAME s"
  "xClientTrust (writef l s) = xClientTrust s" "remoteIP (writef l s) = remoteIP s"
  "remoteHost (writef l s) = remoteHost s" "xClient (writef l s) = xClient s"
  by (simp_all add: writef_def)

lemma resetTxn_fields [simp]:
  "srv (resetTxn s) = srv s" "tls (resetTxn s) = tls s" "authenticated (resetTxn s) = authenticated s"
  "gotFrom (resetTxn s) = False" "from_addr (resetTxn s) = []" "to_addrs (resetTxn s) = []"
  "buffer (resetTxn s) = []" "inp (resetTxn s) = inp s" "tls_inp (resetTxn s) = tls_inp s"
  "world (resetTxn s) = world s" "out (resetTxn s) = out s" "remoteName (resetTxn s) = remoteName s"
  "remoteAddr (resetTxn s) = remoteAddr s"
  by (simp_all add: resetTxn_def)

section \<open>Events\<close>

fun is_auth_ok :: "event \<Rightarrow> bool" where
  "is_auth_ok (AuthCall _ _ _ ok) = ok"
| "is_auth_ok _ = False"

fun is_call :: "event \<Rightarrow> bool" where
  "is_call (Wrote _) = False"
| "is_call _ = True"

definition auth_seen :: "event list \<Rightarrow> bool" where
  "auth_seen es = list_ex is_auth_ok es"

text \<open>Every mail handed on comes after a successful call of the AuthHandler.\<close>

fun mail_guarded :: "bool \<Rightarrow> event list \<Rightarrow> bool" where
  "mail_guarded b [] = True"
| "mail_guarded b (Wrote _ # es) = mail_guarded b es"
| "mail_guarded b (AuthCall _ _ _ ok # es) = mail_guarded (b \<or> ok) es"
| "mail_guarded b (RcptCall _ _ _ # es) = mail_guarded b es"
| "mail_guarded b (MailCall _ _ _ # es) = (b \<and> mail_guarded b es)"

text \<open>Every mail handed on has between one and \<open>n\<close> recipients.\<close>

fun recipients_ok :: "int \<Rightarrow> event \<Rightarrow> bool" where
  "recipients_ok n (MailCall _ to _) = (to \<noteq> [] \<and> int (length to) \<le> n)"
| "recipients_ok n _ = True"

lemma auth_seen_simps [simp]:
  "auth_seen [] = False"
  "auth_seen (e # es) = (is_auth_ok e \<or> auth_seen es)"
  "auth_seen (es @ fs) = (auth_seen es \<or> auth_seen fs)"
  by (simp_all add: auth_seen_def)

lemma mail_guarded_append [simp]:
  "mail_guarded b (es @ fs) \<longleftrightarrow> mail_guarded b es \<and> mail_guarded (b \<or> auth_seen es) fs"
proof (induction es arbitrary: b)
  case (Cons e es)
  then show ?case by (cases e) (auto simp: disj_assoc)
qed simp

section \<open>The helpers that read\<close>

text \<open>
  \<open>extends s t\<close>: the session only read input, called the AuthHandler or wrote replies, and
  changed nothing else that the invariant or the commands look at.
\<close>

definition extends :: "'w session \<Rightarrow> 'w session \<Rightarrow> bool" where
  "extends s t \<longleftrightarrow>
     srv t = srv s \<and> tls t = tls s \<and> authenticated t = authenticated s \<and> gotFrom t = gotFrom s \<and>
     from_addr t = from_addr s \<and> to_addrs t = to_addrs s \<and> tls_inp t = tls_inp s \<and>
     length (inp t) \<le> length (inp s) \<and>
     (\<exists>es. out t = out s @ es \<and> (\<forall>f to d. MailCall f to d \<notin> set es))"

lemma extends_refl [simp, intro]: "extends s s"
  by (simp add: extends_def)

lemma extends_trans [trans]: "extends s t \<Longrightarrow> extends t u \<Longrightarrow> extends s u"
  unfolding extends_def by (elim conjE exE) (auto intro: order_trans)

lemma extends_writef [simp, intro]: "extends s (writef l s)"
  by (simp add: extends_def)

lemma extends_readLine: "readLine s = (r, t) \<Longrightarrow> extends s t"
  by (auto simp: readLine_def extends_def split: list.splits rd.splits)

lemma readLine_shrinks: "readLine s = (Inr l, t) \<Longrightarrow> length (inp t) < length (inp s)"
  by (auto simp: readLine_def split: list.splits rd.splits)

lemma readLine_out: "readLine s = (r, t) \<Longrightarrow> out t = out s"
  by (auto simp: readLine_def split: list.splits rd.splits)

lemma extends_ask: "readLine (writef l s) = (r, t) \<Longrightarrow> extends s t"
  by (rule extends_trans [OF extends_writef extends_readLine])

lemma callAuth_extends:
  "callAuth mech u p sh s = ((ok, err), t) \<Longrightarrow>
   extends s t \<and> (ok \<longrightarrow> (\<exists>es. out t = out s @ es \<and> auth_seen es))"
  by (auto simp: callAuth_def extends_def split: option.splits prod.splits)

definition auth_result :: "'w session \<Rightarrow> (bool \<times> go_error option) \<times> 'w session \<Rightarrow> bool" where
  "auth_result s r \<longleftrightarrow>
     (case r of ((ok, err), t) \<Rightarrow>
        extends s t \<and> (ok \<longrightarrow> AuthHandler (srv s) \<noteq> None \<and> (\<exists>es. out t = out s @ es \<and> auth_seen es)))"

lemma auth_result_fail [simp]: "auth_result s ((False, err), t) \<longleftrightarrow> extends s t"
  by (simp add: auth_result_def)

lemma auth_result_callAuth:
  assumes "extends s t"
  shows "auth_result s (callAuth mech u p sh t)"
proof -
  obtain ok err v where v: "callAuth mech u p sh t = ((ok, err), v)" by (metis surj_pair)
  have "extends s v" using assms callAuth_extends [OF v] extends_trans by blast
  moreover have "AuthHandler (srv s) \<noteq> None \<and> (\<exists>es. out v = out s @ es \<and> auth_seen es)" if ok: ok
  proof -
    obtain es where "out v = out t @ es" "auth_seen es" using callAuth_extends [OF v] ok by auto
    moreover have "\<exists>fs. out t = out s @ fs" using assms by (auto simp: extends_def)
    moreover have "AuthHandler (srv t) \<noteq> None" using v ok by (auto simp: callAuth_def split: option.splits)
    moreover have "srv t = srv s" using assms by (simp add: extends_def)
    ultimately show ?thesis by auto
  qed
  ultimately show ?thesis by (simp add: auth_result_def v)
qed

lemma handleAuthPlain_result: "auth_result s (handleAuthPlain arg s)"
  by (cases "readLine (writef ''334 '' s)")
    (auto simp: handleAuthPlain_def extends_ask intro!: auth_result_callAuth
      split: sum.splits option.splits list.splits)

lemma handleAuthCramMD5_result: "auth_result s (handleAuthCramMD5 E s)"
  by (auto simp: handleAuthCramMD5_def Let_def intro!: auth_result_callAuth
      split: prod.splits sum.splits option.splits list.splits dest: extends_ask)

lemma handleAuthLogin_password:
  assumes "extends s t"
  shows "auth_result s
    (case readLine (writef l t) of
       (Inl e, s2) \<Rightarrow> ((False, Some e), s2)
     | (Inr line, s2) \<Rightarrow>
         (case b64_decode line of
            None \<Rightarrow> ((False, Some undecodable), s2)
          | Some password \<Rightarrow> callAuth m u password sh s2))"
proof -
  obtain r v where v: "readLine (writef l t) = (r, v)" by (cases "readLine (writef l t)")
  have "extends s v" using assms extends_ask [OF v] extends_trans by blast
  then show ?thesis
    by (auto simp: v intro!: auth_result_callAuth split: sum.splits option.splits)
qed

lemma handleAuthLogin_result: "auth_result s (handleAuthLogin arg s)"
proof (cases "arg = []")
  case True
  obtain r v where v: "readLine (writef (''334 '' @ b64_encode ''Username:'') s) = (r, v)"
    by (metis surj_pair)
  have "extends s v" by (rule extends_ask [OF v])
  with True v show ?thesis
    by (cases r) (auto simp: handleAuthLogin_def intro!: handleAuthLogin_password split: option.split)
next
  case False
  then show ?thesis
    by (auto simp: handleAuthLogin_def intro!: handleAuthLogin_password split: option.split)
qed

lemmas auth_results = handleAuthPlain_result handleAuthLogin_result handleAuthCramMD5_result

section \<open>Reading the message\<close>

lemma readData_loop_length:
  "readData_loop mx discard data l = (r, l') \<Longrightarrow> (\<And>k. length (discard k) \<le> length k) \<Longrightarrow>
   length l' \<le> length l"
proof (induction mx discard data l rule: readData_loop.induct)
  case (3 mx discard data l r')
  then show ?case by (auto simp: Let_def le_SucI split: if_splits)
qed auto

lemma readData_extends:
  "readData E s = (r, t) \<Longrightarrow> (\<And>k. length (DiscardBuffered E k) \<le> length k) \<Longrightarrow> extends s t"
  by (auto simp: readData_def extends_def split: prod.splits dest: readData_loop_length)

lemma readData_frame:
  "readData E s = (r, t) \<Longrightarrow> t = s\<lparr>inp := inp t\<rparr>"
  by (auto simp: readData_def split: prod.splits)

section \<open>The session invariant\<close>

text \<open>
  In every state of a session: recipients are collected only after MAIL; where the server
  requires authentication, a transaction is open only in an authenticated session, and an
  authenticated session has seen its AuthHandler succeed; where it requires TLS, nothing
  of this happens before TLS; there are never more recipients than the limit; and every
  message handed on satisfied all of it.
\<close>

definition authNeeded :: "'w server \<Rightarrow> bool" where
  "authNeeded sv \<longleftrightarrow> AuthHandler sv \<noteq> None \<and> AuthRequired sv"

definition tlsNeeded :: "'w server \<Rightarrow> bool" where
  "tlsNeeded sv \<longleftrightarrow> TLSConfigured sv \<and> TLSRequired sv"

text \<open>The recipient limit in force: the server's, or 100 when it is 0.\<close>

definition recipientLimit :: "'w server \<Rightarrow> int" where
  "recipientLimit sv = (if MaxRecipients sv = 0 then 100 else MaxRecipients sv)"

definition state_ok ::
    "'w server \<Rightarrow> bool \<Rightarrow> bool \<Rightarrow> bool \<Rightarrow> string list \<Rightarrow> event list \<Rightarrow> bool" where
  "state_ok sv tn au gf to es \<longleftrightarrow>
     (to \<noteq> [] \<longrightarrow> gf) \<and>
     (au \<longrightarrow> auth_seen es) \<and>
     (authNeeded sv \<longrightarrow> (gf \<longrightarrow> au) \<and> mail_guarded False es) \<and>
     (tlsNeeded sv \<and> \<not> tn \<longrightarrow> \<not> gf \<and> \<not> au \<and> list_all (\<lambda>e. \<not> is_call e) es) \<and>
     (0 \<le> MaxRecipients sv \<longrightarrow>
        int (length to) \<le> recipientLimit sv \<and> list_all (recipients_ok (recipientLimit sv)) es)"

definition session_ok :: "'w session \<Rightarrow> bool" where
  "session_ok s \<longleftrightarrow>
     state_ok (srv s) (tls s) (authenticated s) (gotFrom s) (to_addrs s) (out s)"

text \<open>The invariant under each kind of change.\<close>

lemma state_ok_Wrote_mid [simp]:
  "state_ok sv tn au gf to (es @ Wrote l # fs) \<longleftrightarrow> state_ok sv tn au gf to (es @ fs)"
  by (simp add: state_ok_def)

lemma recipientLimit_nonneg [simp]: "0 \<le> MaxRecipients sv \<Longrightarrow> 0 \<le> recipientLimit sv"
  by (simp add: recipientLimit_def)

lemma state_ok_reset: "state_ok sv tn au gf to es \<Longrightarrow> state_ok sv tn au False [] es"
  by (simp add: state_ok_def)

lemma state_ok_clear: "state_ok sv tn au gf to es \<Longrightarrow> state_ok sv tn au gf [] es"
  by (simp add: state_ok_def)

lemma state_ok_from:
  "state_ok sv tn au gf to es \<Longrightarrow> tlsNeeded sv \<longrightarrow> tn \<Longrightarrow> authNeeded sv \<longrightarrow> au \<Longrightarrow>
   state_ok sv tn au True [] es"
  by (simp add: state_ok_def)

lemma state_ok_rcpt:
  "state_ok sv tn au True to es \<Longrightarrow> MaxRecipients sv \<noteq> 0 \<Longrightarrow>
   int (length to) \<noteq> MaxRecipients sv \<Longrightarrow> state_ok sv tn au True (to @ [a]) es"
  by (auto simp: state_ok_def recipientLimit_def)

lemma state_ok_limit:
  "state_ok sv tn au gf to es \<Longrightarrow> state_ok (sv\<lparr>MaxRecipients := recipientLimit sv\<rparr>) tn au gf to es"
  by (auto simp: state_ok_def recipientLimit_def authNeeded_def tlsNeeded_def)

lemma state_ok_mail:
  "state_ok sv tn au True to es \<Longrightarrow> tlsNeeded sv \<longrightarrow> tn \<Longrightarrow> authNeeded sv \<longrightarrow> au \<Longrightarrow> to \<noteq> [] \<Longrightarrow>
   state_ok sv tn au True to (es @ [MailCall f to d])"
  by (auto simp: state_ok_def)

lemma state_ok_rcpt_call:
  "state_ok sv tn au True to es \<Longrightarrow> tlsNeeded sv \<longrightarrow> tn \<Longrightarrow> state_ok sv tn au True to (es @ [RcptCall f a ok])"
  by (auto simp: state_ok_def)

lemma list_all_no_mail: "\<forall>f to d. MailCall f to d \<notin> set es \<Longrightarrow> list_all (recipients_ok n) es"
  unfolding list_all_iff by (metis recipients_ok.elims(3))

lemma mail_guarded_no_mail: "\<forall>f to d. MailCall f to d \<notin> set es \<Longrightarrow> mail_guarded b es"
  by (induction b es rule: mail_guarded.induct) auto

lemma state_ok_auth:
  "state_ok sv tn False False [] es \<Longrightarrow> tlsNeeded sv \<longrightarrow> tn \<Longrightarrow> \<forall>f to d. MailCall f to d \<notin> set fs \<Longrightarrow>
   ok \<longrightarrow> auth_seen fs \<Longrightarrow> state_ok sv tn ok False [] (es @ fs)"
  by (auto simp: state_ok_def list_all_no_mail mail_guarded_no_mail)

lemma state_ok_tls: "state_ok sv tn au gf to es \<Longrightarrow> state_ok sv True au False [] es"
  by (simp add: state_ok_def)

section \<open>Every command keeps the invariant\<close>

lemma needTLS_iff: "needTLS s \<longleftrightarrow> tlsNeeded (srv s) \<and> \<not> tls s"
  by (simp add: needTLS_def tlsNeeded_def)

lemma needAuth_iff: "needAuth s \<longleftrightarrow> authNeeded (srv s) \<and> \<not> authenticated s"
  by (auto simp: needAuth_def authNeeded_def)

lemma session_ok_writef [simp]: "session_ok (writef l s) \<longleftrightarrow> session_ok s"
  by (simp add: session_ok_def)

lemma session_ok_resetTxn [intro]: "session_ok s \<Longrightarrow> session_ok (resetTxn s)"
  by (auto simp: session_ok_def intro: state_ok_reset)

lemma session_ok_readLine: "readLine s = (r, t) \<Longrightarrow> session_ok s \<Longrightarrow> session_ok t"
  by (auto simp: readLine_def session_ok_def split: list.splits rd.splits)

lemma session_ok_cmdHELO: "session_ok s \<Longrightarrow> session_ok (cmdHELO args s)"
  by (auto simp: cmdHELO_def session_ok_def intro: state_ok_reset)

lemma session_ok_cmdEHLO: "session_ok s \<Longrightarrow> session_ok (cmdEHLO E args s)"
  by (auto simp: cmdEHLO_def Let_def session_ok_def intro: state_ok_reset)

lemma session_ok_acceptFrom:
  "session_ok s \<Longrightarrow> \<not> needTLS s \<Longrightarrow> \<not> needAuth s \<Longrightarrow>
   session_ok ((acceptFrom a s)\<lparr>to_addrs := [], buffer := b\<rparr>)"
  by (auto simp: session_ok_def acceptFrom_def needTLS_iff needAuth_iff intro: state_ok_from)

lemma session_ok_refuse: "session_ok s \<Longrightarrow> session_ok ((writef l s)\<lparr>to_addrs := [], buffer := b\<rparr>)"
  by (auto simp: session_ok_def intro: state_ok_clear)

lemma session_ok_cmdMAIL: "session_ok s \<Longrightarrow> session_ok (cmdMAIL args s)"
  by (simp add: cmdMAIL_def Let_def session_ok_acceptFrom session_ok_refuse
      split: option.split prod.split bool.split)

lemma defaultRecipients_fields [simp]:
  "srv (defaultRecipients s) = (srv s)\<lparr>MaxRecipients := recipientLimit (srv s)\<rparr>"
  "to_addrs (defaultRecipients s) = to_addrs s" "gotFrom (defaultRecipients s) = gotFrom s"
  "inp (defaultRecipients s) = inp s" "tls_inp (defaultRecipients s) = tls_inp s"
  "tls (defaultRecipients s) = tls s" "authenticated (defaultRecipients s) = authenticated s"
  "out (defaultRecipients s) = out s"
  by (simp_all add: defaultRecipients_def recipientLimit_def)

lemma session_ok_defaultRecipients: "session_ok s \<Longrightarrow> session_ok (defaultRecipients s)"
  by (simp add: session_ok_def state_ok_limit)

lemma recipientLimit_pos [simp]: "recipientLimit sv \<noteq> 0"
  by (simp add: recipientLimit_def)

lemma state_ok_addRcpt:
  assumes "session_ok s" "gotFrom s" "int (length (to_addrs s)) \<noteq> recipientLimit (srv s)"
  shows "state_ok ((srv s)\<lparr>MaxRecipients := recipientLimit (srv s)\<rparr>) (tls s) (authenticated s) True
      (to_addrs s @ [a]) (out s)"
  using assms state_ok_limit [of "srv s" "tls s" "authenticated s" True "to_addrs s" "out s"]
  by (intro state_ok_rcpt) (auto simp: session_ok_def)

lemma session_ok_world [simp]: "session_ok (s\<lparr>world := w\<rparr>) \<longleftrightarrow> session_ok s"
  by (simp add: session_ok_def)

lemma session_ok_addRcpt:
  assumes "session_ok s" "gotFrom s" "int (length (to_addrs s)) \<noteq> recipientLimit (srv s)"
  shows "session_ok ((defaultRecipients s)\<lparr>to_addrs := to_addrs s @ [a]\<rparr>)"
    "session_ok ((defaultRecipients s)\<lparr>world := w, to_addrs := to_addrs s @ [a]\<rparr>)"
  using state_ok_addRcpt [OF assms] assms(2) by (simp_all add: session_ok_def)

lemma session_ok_RcptCall:
  assumes "session_ok s" "gotFrom s" "\<not> needTLS s"
  shows "session_ok (emit (RcptCall f a ok) (s\<lparr>world := w\<rparr>))"
  using assms state_ok_rcpt_call [of "srv s" "tls s" "authenticated s" "to_addrs s" "out s"]
  by (simp add: session_ok_def needTLS_iff)

text \<open>What the RCPT handler leaves before the recipient is entered.\<close>

lemma session_ok_enter:
  assumes "session_ok s" "gotFrom s" "MaxRecipients (srv s) \<noteq> 0" "int (length (to_addrs s)) \<noteq> MaxRecipients (srv s)"
  shows "session_ok (s\<lparr>to_addrs := to_addrs s @ [a]\<rparr>)"
  using assms by (simp add: session_ok_def) (rule state_ok_rcpt)

lemma session_ok_cmdRCPT:
  assumes "session_ok s"
  shows "session_ok (cmdRCPT args s)"
proof (cases "needTLS s \<or> needAuth s \<or> \<not> gotFrom s \<or> rcptToRE args = None \<or>
    int (length (to_addrs s)) = recipientLimit (srv s)")
  case True
  then show ?thesis using assms
    by (auto simp: cmdRCPT_def Let_def session_ok_defaultRecipients split: option.split)
next
  case False
  then obtain a where a: "rcptToRE args = Some a" by auto
  let ?s = "defaultRecipients s"
  have s: "session_ok ?s" "gotFrom ?s" "\<not> needTLS ?s" "MaxRecipients (srv ?s) \<noteq> 0"
      "int (length (to_addrs ?s)) \<noteq> MaxRecipients (srv ?s)"
    using False assms session_ok_defaultRecipients by (simp_all add: needTLS_def)
  have e: "session_ok (emit (RcptCall f b ok) (?s\<lparr>world := w\<rparr>))" for f b ok w
    by (rule session_ok_RcptCall [OF s(1-3)])
  have "session_ok ((emit (RcptCall f b ok) (?s\<lparr>world := w\<rparr>))\<lparr>to_addrs := to_addrs ?s @ [a]\<rparr>)" for f b ok w
    using session_ok_enter [OF e [of f b ok w]] s by simp
  moreover have "session_ok (?s\<lparr>to_addrs := to_addrs ?s @ [a]\<rparr>)" using session_ok_enter s by blast
  ultimately show ?thesis
    using False s e by (auto simp: cmdRCPT_def a Let_def split: option.split prod.split)
qed

lemma session_ok_MailCall:
  assumes "session_ok s" "gotFrom s" "to_addrs s \<noteq> []" "\<not> needTLS s" "\<not> needAuth s"
  shows "session_ok (emit (MailCall f (to_addrs s) d) (s\<lparr>world := w\<rparr>))"
  using assms by (simp add: session_ok_def needTLS_iff needAuth_iff) (blast intro: state_ok_mail)

lemma session_ok_deliver:
  assumes "session_ok s" "gotFrom s" "to_addrs s \<noteq> []" "\<not> needTLS s" "\<not> needAuth s"
  shows "session_ok (deliver s)"
  using assms session_ok_MailCall [OF assms]
  by (simp add: deliver_def Let_def session_ok_resetTxn split: option.split prod.split)

lemma readData_state:
  assumes "readData E s = (r, t)"
  shows "session_ok t \<longleftrightarrow> session_ok s" "gotFrom t = gotFrom s" "to_addrs t = to_addrs s"
    "needTLS t = needTLS s" "needAuth t = needAuth s" "from_addr t = from_addr s" "out t = out s"
    "srv t = srv s" "tls_inp t = tls_inp s"
  using assms
  by (auto simp: readData_def session_ok_def needTLS_def needAuth_def split: prod.splits)

lemma session_ok_buffer [simp]: "session_ok (s\<lparr>buffer := b\<rparr>) \<longleftrightarrow> session_ok s"
  by (simp add: session_ok_def)

lemma need_buffer [simp]:
  "needTLS (s\<lparr>buffer := b\<rparr>) \<longleftrightarrow> needTLS s" "needAuth (s\<lparr>buffer := b\<rparr>) \<longleftrightarrow> needAuth s"
  by (simp_all add: needTLS_def needAuth_def)

lemma need_writef [simp]: "needTLS (writef l s) \<longleftrightarrow> needTLS s" "needAuth (writef l s) \<longleftrightarrow> needAuth s"
  by (simp_all add: needTLS_def needAuth_def)

lemma session_ok_cmdDATA:
  assumes "session_ok s"
  shows "session_ok (snd (cmdDATA E s))"
proof -
  obtain r u where r: "readData E (writef ''354 Start mail input; end with <CR><LF>.<CR><LF>'' s) = (r, u)"
    by (metis surj_pair)
  note u = readData_state [OF r]
  show ?thesis
  proof (cases "needTLS s \<or> needAuth s \<or> \<not> gotFrom s \<or> to_addrs s = []")
    case True
    with assms show ?thesis by (auto simp: cmdDATA_def)
  next
    case False
    with assms u have "session_ok (deliver (u\<lparr>buffer := b\<rparr>))" for b
      by (intro session_ok_deliver) simp_all
    with False assms u show ?thesis
      by (simp add: cmdDATA_def r split: sum.split data_error.split)
  qed
qed

lemma session_ok_cmdRSET: "session_ok s \<Longrightarrow> session_ok (cmdRSET s)"
  by (auto simp: cmdRSET_def)

text \<open>XCLIENT changes only what the session believes about the client.\<close>

lemma xclientArg_fields:
  "srv (xclientArg E a s) = srv s \<and> tls (xclientArg E a s) = tls s \<and>
   authenticated (xclientArg E a s) = authenticated s \<and> gotFrom (xclientArg E a s) = gotFrom s \<and>
   to_addrs (xclientArg E a s) = to_addrs s \<and> out (xclientArg E a s) = out s \<and>
   inp (xclientArg E a s) = inp s \<and> tls_inp (xclientArg E a s) = tls_inp s"
  by (simp add: xclientArg_def Let_def split: option.split)

lemma fold_xclientArg_fields:
  "srv (fold (xclientArg E) l s) = srv s \<and> tls (fold (xclientArg E) l s) = tls s \<and>
   authenticated (fold (xclientArg E) l s) = authenticated s \<and>
   gotFrom (fold (xclientArg E) l s) = gotFrom s \<and> to_addrs (fold (xclientArg E) l s) = to_addrs s \<and>
   out (fold (xclientArg E) l s) = out s \<and> inp (fold (xclientArg E) l s) = inp s \<and>
   tls_inp (fold (xclientArg E) l s) = tls_inp s"
  by (induction l arbitrary: s) (simp_all add: xclientArg_fields)

lemma cmdXCLIENT_fields:
  "srv (cmdXCLIENT E a s) = srv s" "tls (cmdXCLIENT E a s) = tls s"
  "authenticated (cmdXCLIENT E a s) = authenticated s" "gotFrom (cmdXCLIENT E a s) = gotFrom s"
  "to_addrs (cmdXCLIENT E a s) = to_addrs s" "inp (cmdXCLIENT E a s) = inp s"
  "tls_inp (cmdXCLIENT E a s) = tls_inp s" "out (cmdXCLIENT E a s) = out s @ [Wrote ''250 2.0.0 Ok'']"
  by (simp_all add: cmdXCLIENT_def Let_def fold_xclientArg_fields)

lemma session_ok_cmdXCLIENT: "session_ok s \<Longrightarrow> session_ok (cmdXCLIENT E a s)"
  by (simp add: session_ok_def cmdXCLIENT_fields)

lemma session_ok_cmdSTARTTLS: "session_ok s \<Longrightarrow> session_ok (cmdSTARTTLS args s)"
  by (auto simp: cmdSTARTTLS_def Let_def session_ok_def resetTxn_def intro: state_ok_tls split: option.split)

lemma session_ok_finishAuth:
  assumes "session_ok s" "auth_result s r" "\<not> needTLS s" "\<not> authenticated s"
    and "\<not> gotFrom s" "to_addrs s = []"
  shows "session_ok (snd (finishAuth r))"
proof -
  obtain ok err t where r: "r = ((ok, err), t)" by (metis surj_pair)
  obtain es where es: "out t = out s @ es" "\<forall>f to d. MailCall f to d \<notin> set es"
    using assms(2) by (auto simp: auth_result_def extends_def r)
  moreover have "ok \<longrightarrow> auth_seen es"
    using assms(2) es by (auto simp: auth_result_def r)
  ultimately have "session_ok (t\<lparr>authenticated := ok\<rparr>)"
    using assms state_ok_auth [of "srv s" "tls s" "out s" es ok]
    by (simp add: session_ok_def auth_result_def extends_def needTLS_iff r)
  then show ?thesis by (cases err; cases ok) (simp_all add: finishAuth_def r Let_def)
qed

lemma session_ok_cmdAUTH: "session_ok s \<Longrightarrow> session_ok (snd (cmdAUTH E args s))"
  by (simp add: cmdAUTH_def session_ok_finishAuth auth_results split: prod.split)

lemmas session_ok_cmds =
  session_ok_cmdHELO session_ok_cmdEHLO session_ok_cmdMAIL session_ok_cmdRCPT session_ok_cmdDATA
  session_ok_cmdRSET session_ok_cmdXCLIENT session_ok_cmdSTARTTLS session_ok_cmdAUTH

lemma session_ok_dispatch: "session_ok s \<Longrightarrow> session_ok (snd (dispatch E verb args s))"
  by (simp add: dispatch_def cmdQUIT_def session_ok_cmds)

lemma session_ok_serveStep: "session_ok s \<Longrightarrow> session_ok (snd (serveStep E s))"
  by (auto simp: serveStep_def intro!: session_ok_dispatch
      split: prod.split sum.split dest: session_ok_readLine)

lemma session_ok_newSession: "session_ok (newSession E sv a tn l tlsl w)"
  by (simp add: newSession_def Let_def session_ok_def state_ok_def)

lemma session_ok_reach:
  "session_reach E s go t \<Longrightarrow> session_ok s \<Longrightarrow> session_ok t"
proof (induction rule: session_reach.induct)
  case start
  then show ?case by (simp add: banner_def)
next
  case (turn t go u)
  then show ?case using session_ok_serveStep [of t E] by simp
qed

end
