(* ===== verification/Smtp_Props.thy ===== *)
theory Smtp_Props
  imports Smtp_Invariants
begin

text \<open>
  Properties of whole SMTP sessions: termination of \<open>serve\<close>, the safety properties that
  follow from the session invariant, the DATA phase, authentication, and the course of a
  mail transaction.
\<close>

section \<open>Termination\<close>

text \<open>What is left to read, over TLS too; every turn of the loop consumes some of it.\<close>

definition unread :: "'w session \<Rightarrow> nat" where
  "unread s = length (inp s) + (case tls_inp s of None \<Rightarrow> 0 | Some l \<Rightarrow> Suc (length l))"

definition discard_shrinks :: "env \<Rightarrow> bool" where
  "discard_shrinks E \<longleftrightarrow> (\<forall>k. length (DiscardBuffered E k) \<le> length k)"

lemma unread_writef [simp]: "unread (writef l s) = unread s"
  by (simp add: unread_def)

lemma unread_resetTxn [simp]: "unread (resetTxn s) = unread s"
  by (simp add: unread_def)

lemma unread_update [simp]:
  "unread (s\<lparr>remoteName := n\<rparr>) = unread s" "unread (s\<lparr>to_addrs := a\<rparr>) = unread s"
  "unread (s\<lparr>buffer := b\<rparr>) = unread s" "unread (s\<lparr>world := w\<rparr>) = unread s"
  "unread (s\<lparr>authenticated := b2\<rparr>) = unread s" "unread (s\<lparr>srv := sv\<rparr>) = unread s"
  "unread (emit e s) = unread s" "unread (acceptFrom x s) = unread s"
  "unread (defaultRecipients s) = unread s" "unread (cmdXCLIENT E y s) = unread s"
  by (simp_all add: unread_def acceptFrom_def cmdXCLIENT_fields)

lemma unread_extends: "extends s t \<Longrightarrow> unread t \<le> unread s"
  by (auto simp: extends_def unread_def)

lemma unread_readLine: "readLine s = (Inr l, t) \<Longrightarrow> unread t < unread s"
  by (auto simp: readLine_def unread_def split: list.splits rd.splits)

lemma unread_cmdMAIL [simp]: "unread (cmdMAIL args s) = unread s"
  by (simp add: cmdMAIL_def Let_def split: option.split prod.split bool.split)

lemma unread_cmdRCPT [simp]: "unread (cmdRCPT args s) = unread s"
  by (auto simp: cmdRCPT_def Let_def split: option.split prod.split)

lemma unread_deliver [simp]: "unread (deliver s) = unread s"
  by (simp add: deliver_def Let_def split: option.split prod.split)

lemma unread_cmdSTARTTLS: "unread (cmdSTARTTLS args s) \<le> unread s"
  by (auto simp: cmdSTARTTLS_def Let_def unread_def resetTxn_def split: option.splits)

lemma unread_cmdDATA:
  assumes "discard_shrinks E"
  shows "unread (snd (cmdDATA E s)) \<le> unread s"
proof -
  obtain r u where r: "readData E (writef ''354 Start mail input; end with <CR><LF>.<CR><LF>'' s) = (r, u)"
    by (metis surj_pair)
  have "unread u \<le> unread s"
    using unread_extends [OF readData_extends [OF r]] assms by (simp add: discard_shrinks_def)
  then show ?thesis
    by (auto simp: cmdDATA_def r split: sum.split data_error.split)
qed

lemma unread_finishAuth: "auth_result s r \<Longrightarrow> unread (snd (finishAuth r)) \<le> unread s"
  by (auto simp: auth_result_def finishAuth_def Let_def dest: unread_extends
      split: prod.splits option.splits)

lemma unread_cmdAUTH: "unread (snd (cmdAUTH E args s)) \<le> unread s"
  by (simp add: cmdAUTH_def unread_finishAuth auth_results split: prod.split)

lemma unread_dispatch:
  "discard_shrinks E \<Longrightarrow> unread (snd (dispatch E verb args s)) \<le> unread s"
  by (simp add: dispatch_def cmdHELO_def cmdEHLO_def cmdQUIT_def cmdRSET_def Let_def
      unread_cmdDATA unread_cmdAUTH unread_cmdSTARTTLS)

lemma unread_serveStep:
  assumes "discard_shrinks E" "serveStep E s = (True, t)"
  shows "unread t < unread s"
proof -
  obtain line u where l: "readLine s = (Inr line, u)"
    using assms(2) by (auto simp: serveStep_def split: prod.splits sum.splits)
  have "unread t \<le> unread u"
    using assms unread_dispatch [of E "fst (parseLine line)" "snd (parseLine line)" u]
    by (simp add: serveStep_def l split: prod.splits)
  with unread_readLine [OF l] show ?thesis by simp
qed

lemma serveLoop_enough:
  "discard_shrinks E \<Longrightarrow> unread s < n \<Longrightarrow> \<exists>t. serveLoop n E s = Some t"
proof (induction n arbitrary: s)
  case (Suc n)
  obtain go t where t: "serveStep E s = (go, t)" by (cases "serveStep E s")
  show ?case
  proof (cases go)
    case True
    with t Suc.prems have "unread t < n" using unread_serveStep [of E s t] by simp
    with True t Suc show ?thesis by simp
  qed (use t in simp)
qed simp

lemma serveLoop_more: "serveLoop n E s = Some t \<Longrightarrow> n \<le> m \<Longrightarrow> serveLoop m E s = Some t"
proof (induction n arbitrary: m s)
  case (Suc n)
  then obtain m' where "m = Suc m'" by (cases m) auto
  with Suc show ?case by (auto split: prod.splits bool.splits)
qed simp

lemma serveLoop_reach:
  "session_reach E s True t \<Longrightarrow> serveLoop n E t = Some u \<Longrightarrow> session_reach E s False u"
proof (induction n arbitrary: t)
  case (Suc n)
  then show ?case
    by (auto split: prod.splits bool.splits intro: session_reach.turn)
qed simp

lemma serve_reach: "serve n E s = Some u \<Longrightarrow> session_reach E s False u"
  unfolding serve_def by (rule serveLoop_reach [OF session_reach.start])

section \<open>A session to try the properties on\<close>

definition demo_env :: env where
  "demo_env = \<lparr>LookupAddr = (\<lambda>_. None), ParseIP = (\<lambda>_. False), NowText = (\<lambda>_. ''now''),
     PidNanos = (\<lambda>_. ''1.1''), DiscardBuffered = id, MechOrder = [''PLAIN'', ''LOGIN'', ''CRAM-MD5'']\<rparr>"

definition demo_server :: "bool \<Rightarrow> unit server" where
  "demo_server tlsReq =
     \<lparr>Appname = ''mailbridge'',
      AuthHandler = Some (\<lambda>_ _ u p _ w. ((u = ''u'' \<and> p = ''p'', None), w)),
      AuthMechs = [''PLAIN'' \<mapsto> True, ''LOGIN'' \<mapsto> True], AuthRequired = True, DisableReverseDNS = True,
      Handler = Some (\<lambda>_ _ _ _ w. (None, w)), HandlerRcpt = None, Hostname = ''mx'', MaxSize = 20,
      MaxRecipients = 2, MsgIDHandler = None, TLSConfigured = tlsReq, TLSRequired = tlsReq,
      XClientAllowed = []\<rparr>"

definition demo_lines :: "rd list" where
  "demo_lines = map (\<lambda>l. Line (l @ crlf))
     [''EHLO c'', ''AUTH PLAIN AHUAcA=='', ''MAIL FROM:<a@b>'', ''RCPT TO:<c@d>'', ''DATA'', ''hi'', ''.'', ''QUIT'']"

definition demo_session :: "bool \<Rightarrow> unit session" where
  "demo_session tlsReq =
     newSession demo_env (demo_server tlsReq) (TCPAddr (Some ''192.0.2.1'') ''192.0.2.1:25'') False demo_lines None ()"

lemma demo_discard: "discard_shrinks demo_env"
  by (simp add: discard_shrinks_def demo_env_def)

lemma demo_unread: "unread (demo_session b) = 8"
  by (simp add: unread_def demo_session_def newSession_def demo_lines_def Let_def)

definition demo_end :: "bool \<Rightarrow> unit session" where
  "demo_end b = the (serve 9 demo_env (demo_session b))"

lemma demo_reach: "session_reach demo_env (demo_session b) False (demo_end b)"
proof -
  have "unread (banner (demo_session b)) < 9" by (simp add: banner_def demo_unread)
  then obtain t where "serve 9 demo_env (demo_session b) = Some t"
    unfolding serve_def using serveLoop_enough [OF demo_discard] by blast
  then show ?thesis by (simp add: demo_end_def serve_reach)
qed

text \<open>
  C26: \<open>serve\<close> returns: on any finite input a session ends within one turn more than the
  lines the client sends before and after TLS, whatever the handlers answer, and a larger
  bound gives the same final state.
\<close>

theorem serve_terminates:
  assumes "discard_shrinks E"
  shows "\<exists>t. \<forall>n \<ge> Suc (unread s). serve n E s = Some t"
proof -
  have "unread (banner s) < Suc (unread s)" by (simp add: banner_def)
  then obtain t where "serveLoop (Suc (unread s)) E (banner s) = Some t"
    using serveLoop_enough [OF assms] by blast
  then show ?thesis unfolding serve_def using serveLoop_more by blast
qed

lemma serve_terminates_witness:
  "\<exists>t. \<forall>n \<ge> 9. serve n demo_env (demo_session False) = Some t"
  using serve_terminates [OF demo_discard, of "demo_session False"] by (simp add: demo_unread)

section \<open>The server's configuration\<close>

text \<open>A session changes nothing of its server but the default of the recipient limit.\<close>

definition same_server :: "'w server \<Rightarrow> 'w server \<Rightarrow> bool" where
  "same_server sv sv' \<longleftrightarrow>
     sv' = sv \<or> sv' = sv\<lparr>MaxRecipients := recipientLimit sv\<rparr>"

lemma same_server_refl [simp, intro]: "same_server sv sv"
  by (simp add: same_server_def)

lemma same_server_trans: "same_server a b \<Longrightarrow> same_server b c \<Longrightarrow> same_server a c"
  by (auto simp: same_server_def recipientLimit_def)

lemma srv_extends: "extends s t \<Longrightarrow> srv t = srv s"
  by (simp add: extends_def)

lemma srv_finishAuth: "auth_result s r \<Longrightarrow> srv (snd (finishAuth r)) = srv s"
  by (auto simp: auth_result_def finishAuth_def Let_def srv_extends split: prod.splits option.splits)

lemma srv_cmdMAIL: "srv (cmdMAIL args s) = srv s"
  by (simp add: cmdMAIL_def Let_def acceptFrom_def split: option.split prod.split bool.split)

lemma srv_cmdRCPT: "same_server (srv s) (srv (cmdRCPT args s))"
  by (auto simp: cmdRCPT_def Let_def same_server_def split: option.split prod.split)

lemma srv_deliver [simp]: "srv (deliver s) = srv s"
  by (simp add: deliver_def Let_def split: option.split prod.split)

lemma srv_cmdDATA: "srv (snd (cmdDATA E s)) = srv s"
  by (auto simp: cmdDATA_def dest: readData_state(8) split: prod.split sum.split data_error.split)

lemma srv_cmdSTARTTLS: "srv (cmdSTARTTLS args s) = srv s"
  by (simp add: cmdSTARTTLS_def Let_def split: option.split)

lemma srv_cmdAUTH: "srv (snd (cmdAUTH E args s)) = srv s"
  by (simp add: cmdAUTH_def srv_finishAuth auth_results split: prod.split)

lemma srv_dispatch: "same_server (srv s) (srv (snd (dispatch E verb args s)))"
  by (simp add: dispatch_def cmdHELO_def cmdEHLO_def cmdQUIT_def cmdRSET_def Let_def srv_cmdMAIL
      srv_cmdRCPT srv_cmdDATA srv_cmdSTARTTLS srv_cmdAUTH cmdXCLIENT_fields)

lemma srv_readLine: "readLine s = (r, t) \<Longrightarrow> srv t = srv s"
  by (auto simp: readLine_def split: list.splits rd.splits)

lemma srv_serveStep: "same_server (srv s) (srv (snd (serveStep E s)))"
proof (cases "readLine s")
  case (Pair r u)
  then have "srv u = srv s" by (rule srv_readLine)
  then show ?thesis using srv_dispatch [of u E]
    by (auto simp: serveStep_def Pair split: sum.split prod.split)
qed

lemma srv_reach: "session_reach E s go t \<Longrightarrow> same_server (srv s) (srv t)"
proof (induction rule: session_reach.induct)
  case start
  then show ?case by (simp add: banner_def)
next
  case (turn t go u)
  then show ?case using srv_serveStep [of t E] same_server_trans by fastforce
qed

lemma same_server_facts:
  assumes "same_server sv sv'"
  shows "authNeeded sv' \<longleftrightarrow> authNeeded sv" "tlsNeeded sv' \<longleftrightarrow> tlsNeeded sv"
    "recipientLimit sv' = recipientLimit sv" "0 \<le> MaxRecipients sv' \<longleftrightarrow> 0 \<le> MaxRecipients sv"
  using assms
  by (auto simp: same_server_def authNeeded_def tlsNeeded_def recipientLimit_def split: if_splits)

lemma newSession_srv [simp]: "srv (newSession E sv addr tn lines tlsLines w) = sv"
  by (simp add: newSession_def Let_def)

lemma newSession_reach:
  assumes "session_reach E (newSession E sv addr tn lines tlsLines w) go t"
  shows "session_ok t" "same_server sv (srv t)"
  using session_ok_reach [OF assms session_ok_newSession] srv_reach [OF assms] by simp_all

section \<open>Safety\<close>

text \<open>
  C19: On a server that requires authentication, no message reaches the mail handler before
  the AuthHandler has accepted credentials in the same session, in any state of any session.
\<close>

theorem mail_needs_auth:
  assumes "AuthHandler sv \<noteq> None" "AuthRequired sv"
    and "session_reach E (newSession E sv addr tn lines tlsLines w) go t"
  shows "mail_guarded False (out t)"
  using newSession_reach [OF assms(3)] assms(1,2) same_server_facts(1)
  by (auto simp: session_ok_def state_ok_def authNeeded_def)

lemma mail_needs_auth_witness: "mail_guarded False (out (demo_end False))"
  using mail_needs_auth [OF _ _ demo_reach [unfolded demo_session_def]] by (simp add: demo_server_def)

text \<open>
  C22: On a server that requires TLS none of its handlers, neither the AuthHandler nor the RCPT
  handler nor a mail handler, is called before TLS is in use, and until then the session is not
  authenticated and has no sender, whatever commands it reads.
\<close>

theorem nothing_before_tls:
  assumes "TLSConfigured sv" "TLSRequired sv"
    and "session_reach E (newSession E sv addr False lines tlsLines w) go t" "\<not> tls t"
  shows "list_all (\<lambda>e. \<not> is_call e) (out t) \<and> \<not> authenticated t \<and> \<not> gotFrom t"
  using newSession_reach [OF assms(3)] assms(1,2,4) same_server_facts(2)
  by (auto simp: session_ok_def state_ok_def tlsNeeded_def)

lemma serveStep_line:
  "inp s = Line l # r \<Longrightarrow> parseLine (trim_space l) = (verb, args) \<Longrightarrow>
   serveStep E s = dispatch E verb args (s\<lparr>inp := r\<rparr>)"
  by (simp add: serveStep_def readLine_def)

text \<open>After EHLO and AUTH with the right password: refused, and nobody was asked.\<close>

lemma nothing_before_tls_witness:
  "\<exists>t ehlo. session_reach demo_env (demo_session True) True t \<and>
     out t = [Wrote ''220 mx mailbridge ESMTP Service ready'', Wrote ehlo, Wrote starttls_first] \<and>
     list_all (\<lambda>e. \<not> is_call e) (out t)"
proof -
  define refused where "refused = starttls_first"
  let ?s = "banner (demo_session True)"
  have i: "inp ?s = Line (''EHLO c'' @ crlf) # Line (''AUTH PLAIN AHUAcA=='' @ crlf) # drop 2 demo_lines"
    by (simp add: banner_def demo_session_def newSession_def demo_lines_def Let_def)
  have o: "out ?s = [Wrote ''220 mx mailbridge ESMTP Service ready'']" "\<not> tls ?s" "srv ?s = demo_server True"
    by (simp_all add: banner_def demo_session_def newSession_def Let_def demo_server_def)
  have p: "parseLine (trim_space (''EHLO c'' @ crlf)) = (''EHLO'', ''c'')"
      "parseLine (trim_space (''AUTH PLAIN AHUAcA=='' @ crlf)) = (''AUTH'', ''PLAIN AHUAcA=='')"
    by code_simp+
  let ?r = "?s\<lparr>inp := Line (''AUTH PLAIN AHUAcA=='' @ crlf) # drop 2 demo_lines\<rparr>"
  let ?t = "cmdEHLO demo_env ''c'' ?r"
  have "serveStep demo_env ?s = (True, ?t)"
    using serveStep_line [OF i p(1)] by (simp add: dispatch_def)
  note reach1 = session_reach.turn [OF session_reach.start this]
  obtain ehlo where t: "out ?t = out ?s @ [Wrote ehlo]" "\<not> tls ?t" "srv ?t = demo_server True"
      "inp ?t = Line (''AUTH PLAIN AHUAcA=='' @ crlf) # drop 2 demo_lines"
    using o by (auto simp: cmdEHLO_def Let_def)
  let ?u = "writef refused (?t\<lparr>inp := drop 2 demo_lines\<rparr>)"
  have "needTLS (?t\<lparr>inp := drop 2 demo_lines\<rparr>)" using t by (simp add: needTLS_def demo_server_def)
  then have "dispatch demo_env ''AUTH'' ''PLAIN AHUAcA=='' (?t\<lparr>inp := drop 2 demo_lines\<rparr>) = (True, ?u)"
    unfolding refused_def by (simp add: dispatch_def cmdAUTH_def)
  then have "serveStep demo_env ?t = (True, ?u)" using serveStep_line [OF t(4) p(2)] by simp
  note reach2 = session_reach.turn [OF reach1 this]
  have "list_all (\<lambda>e. \<not> is_call e) (out ?u)"
    using nothing_before_tls [OF _ _ reach2 [unfolded demo_session_def]] t(2)
    by (simp add: demo_server_def demo_session_def)
  then show ?thesis using reach2 t(1) o(1) unfolding refused_def
    by (intro exI [of _ ?u] exI [of _ ehlo]) (simp add: refused_def)
qed

text \<open>
  C31: A message that reaches the mail handler has at least one recipient and at most
  \<open>MaxRecipients\<close> of them, 100 when the server leaves the limit at 0.
\<close>

theorem recipients_bounded:
  assumes "0 \<le> MaxRecipients sv"
    and "session_reach E (newSession E sv addr tn lines tlsLines w) go t"
  shows "list_all (recipients_ok (recipientLimit sv)) (out t)"
  using newSession_reach [OF assms(2)] assms(1) same_server_facts(3,4) [of sv "srv t"]
  by (auto simp: session_ok_def state_ok_def)

lemma recipients_bounded_witness: "list_all (recipients_ok 2) (out (demo_end False))"
  using recipients_bounded [OF _ demo_reach [unfolded demo_session_def]]
  by (simp add: demo_server_def recipientLimit_def)

section \<open>Message data\<close>

text \<open>What a client sends for a line of the message (RFC 5321, section 4.5.2).\<close>

definition dot_stuff :: "string \<Rightarrow> string" where
  "dot_stuff l = (case l of [] \<Rightarrow> [] | c # t \<Rightarrow> if c = CHR ''.'' then CHR ''.'' # l else l)"

definition data_end :: rd where
  "data_end = Line (CHR ''.'' # crlf)"

lemma dot_stuff_not_end: "dot_stuff l \<noteq> CHR ''.'' # crlf" "dot_stuff l \<noteq> CHR ''.'' # nl"
  by (auto simp: dot_stuff_def crlf_def nl_def split: list.splits)

lemma dot_unstuff: "(case dot_stuff l of [] \<Rightarrow> [] | c # t \<Rightarrow> if c = CHR ''.'' then t else dot_stuff l) = l"
  by (auto simp: dot_stuff_def split: list.splits)

lemma readData_loop_line:
  "readData_loop mx discard data (Line (dot_stuff l) # r) =
     (if 0 < mx \<and> mx < int (length data + length l) then (Inl (DataTooBig mx), discard r)
      else readData_loop mx discard (data @ l) r)"
  by (simp add: dot_stuff_not_end dot_unstuff Let_def)

lemma readData_loop_end [simp]:
  "readData_loop mx discard data (data_end # r) = (Inr data, r)"
  by (simp add: data_end_def)

lemma readData_loop_lines:
  "mx \<le> 0 \<or> int (length data + length (concat ls)) \<le> mx \<Longrightarrow>
   readData_loop mx discard data (map (\<lambda>l. Line (dot_stuff l)) ls @ data_end # r) =
     (Inr (data @ concat ls), r)"
proof (induction ls arbitrary: data)
  case (Cons l ls)
  from Cons.prems have "\<not> (0 < mx \<and> mx < int (length data + length l))" by auto
  moreover have "mx \<le> 0 \<or> int (length (data @ l) + length (concat ls)) \<le> mx" using Cons.prems by auto
  ultimately show ?case using Cons.IH [of "data @ l"] by (simp only: list.map append_Cons readData_loop_line if_False) simp
qed simp

lemma readData_loop_too_big:
  "0 < mx \<Longrightarrow> mx < int (length data + length (concat ls)) \<Longrightarrow>
   \<exists>rest. readData_loop mx discard data (map (\<lambda>l. Line (dot_stuff l)) ls @ data_end # r) =
     (Inl (DataTooBig mx), discard rest) \<or> mx < int (length data)"
proof (induction ls arbitrary: data)
  case (Cons l ls)
  show ?case
  proof (cases "mx < int (length data + length l)")
    case True
    with Cons.prems(1) have "readData_loop mx discard data (map (\<lambda>l. Line (dot_stuff l)) (l # ls) @ data_end # r)
      = (Inl (DataTooBig mx), discard (map (\<lambda>l. Line (dot_stuff l)) ls @ data_end # r))"
      by (simp only: list.map append_Cons readData_loop_line) simp
    then show ?thesis by blast
  next
    case False
    moreover from Cons.IH [of "data @ l"] Cons.prems obtain rest where
      "readData_loop mx discard (data @ l) (map (\<lambda>l. Line (dot_stuff l)) ls @ data_end # r) =
        (Inl (DataTooBig mx), discard rest) \<or> mx < int (length (data @ l))" by auto
    moreover have "readData_loop mx discard data (map (\<lambda>l. Line (dot_stuff l)) (l # ls) @ data_end # r)
      = readData_loop mx discard (data @ l) (map (\<lambda>l. Line (dot_stuff l)) ls @ data_end # r)"
      using False by (simp only: list.map append_Cons readData_loop_line) simp
    ultimately show ?thesis by auto
  qed
qed simp

text \<open>
  C21: Reading the message undoes the client's dot-stuffing: sent as RFC 5321 says, the lines
  of a message arrive unchanged exactly when they fit \<open>MaxSize\<close> (or no limit is set), and
  are refused with the size error otherwise; nothing after the final dot is consumed.
\<close>

theorem readData_roundtrip:
  "fst (readData_loop mx discard [] (map (\<lambda>l. Line (dot_stuff l)) ls @ data_end # r)) =
     (if 0 < mx \<and> mx < int (length (concat ls)) then Inl (DataTooBig mx) else Inr (concat ls)) \<and>
   (mx \<le> 0 \<or> int (length (concat ls)) \<le> mx \<longrightarrow>
     snd (readData_loop mx discard [] (map (\<lambda>l. Line (dot_stuff l)) ls @ data_end # r)) = r)"
proof (cases "0 < mx \<and> mx < int (length (concat ls))")
  case True
  then obtain rest where
    "readData_loop mx discard [] (map (\<lambda>l. Line (dot_stuff l)) ls @ data_end # r) =
      (Inl (DataTooBig mx), discard rest)"
    using readData_loop_too_big [of mx "[]" ls discard r] by auto
  with True show ?thesis by auto
next
  case False
  then have "readData_loop mx discard [] (map (\<lambda>l. Line (dot_stuff l)) ls @ data_end # r) =
      (Inr (concat ls), r)"
    using readData_loop_lines [of mx "[]" ls discard r] by auto
  with False show ?thesis by simp
qed

lemma readData_roundtrip_witness:
  "snd (readData_loop 100 id [] (map (\<lambda>l. Line (dot_stuff l)) [''.a'' @ crlf, ''b'' @ crlf]
     @ data_end # [Line ''QUIT''])) = [Line ''QUIT'']"
  using readData_roundtrip [of 100 id "[''.a'' @ crlf, ''b'' @ crlf]" "[Line ''QUIT'']"]
  by (simp add: crlf_def)

lemma readData_loop_bound:
  "readData_loop mx discard data l = (Inr d, r) \<Longrightarrow> 0 < mx \<Longrightarrow> int (length data) \<le> mx \<Longrightarrow>
   int (length d) \<le> mx"
  by (induction mx discard data l rule: readData_loop.induct) (auto simp: Let_def split: if_splits)

text \<open>
  Whatever the client sends, the message data that \<open>readData\<close> returns is never longer
  than a positive \<open>MaxSize\<close>.
\<close>

theorem readData_bounded:
  assumes "0 < MaxSize (srv s)" "readData E s = (Inr d, t)"
  shows "int (length d) \<le> MaxSize (srv s)"
  using assms readData_loop_bound [of "MaxSize (srv s)" "DiscardBuffered E" "[]" "inp s" d]
  by (auto simp: readData_def split: prod.splits)

lemma readData_bounded_witness:
  "int (length (''a'' @ crlf)) \<le> MaxSize (srv ((demo_session False)\<lparr>inp := [Line (''a'' @ crlf), data_end]\<rparr>))"
  by (rule readData_bounded [of _ demo_env _ "(demo_session False)\<lparr>inp := []\<rparr>"])
    (simp_all add: demo_session_def newSession_def demo_server_def readData_def crlf_def data_end_def Let_def)

section \<open>Refusals\<close>

text \<open>
  Without the TLS or the authentication that the server requires, MAIL, RCPT and DATA
  answer 530 and do nothing else.
\<close>

theorem refused_commands:
  assumes "needTLS s \<or> needAuth s" "verb \<in> {''MAIL'', ''RCPT'', ''DATA''}"
  shows "dispatch E verb args s = (True, writef (if needTLS s then starttls_first else auth_required) s)"
proof -
  have "cmdMAIL args s = writef (if needTLS s then starttls_first else auth_required) s"
    "cmdRCPT args s = writef (if needTLS s then starttls_first else auth_required) s"
    "cmdDATA E s = (True, writef (if needTLS s then starttls_first else auth_required) s)"
    using assms(1)
    by (cases "needTLS s", simp_all only: cmdMAIL_def cmdRCPT_def cmdDATA_def if_True if_False simp_thms)+
  then show ?thesis using assms(2) by (elim insertE emptyE) (simp_all add: dispatch_def)
qed

lemma refused_commands_witness:
  "dispatch demo_env ''DATA'' [] (demo_session False) = (True, writef auth_required (demo_session False))"
  using refused_commands [of "demo_session False" "''DATA''" demo_env "[]"]
  by (simp add: needAuth_def needTLS_def demo_session_def newSession_def demo_server_def Let_def)

lemma unable_reply_format: "checkErrFormat ''451 4.3.5 Unable to process mail''"
  by (simp only: checkErrFormat.simps) (simp add: is_digit_def re_space_def)

text \<open>
  Whatever error a mail handler returns, the client gets a reply of the SMTP form: a
  code between 200 and 599, a separator and a text on one line.
\<close>

theorem handler_error_reply: "checkErrFormat (handlerErrorText e)"
  by (simp add: handlerErrorText_def unable_reply_format del: checkErrFormat.simps)

section \<open>STARTTLS\<close>

text \<open>
  After a successful handshake nothing that was sent before it is read, and the mail
  transaction and the EHLO name are forgotten; the result of an earlier AUTH is kept.
\<close>

theorem starttls_switches:
  assumes "TLSConfigured (srv s)" "\<not> tls s" "tls_inp s = Some lines"
  shows "cmdSTARTTLS [] s =
     s\<lparr>inp := lines, tls_inp := None, tls := True, remoteName := [], from_addr := [], gotFrom := False,
       to_addrs := [], buffer := [], out := out s @ [Wrote ''220 2.0.0 Ready to start TLS'']\<rparr>"
  using assms by (simp add: cmdSTARTTLS_def Let_def resetTxn_def writef_def emit_def)

lemma starttls_switches_witness:
  "tls (cmdSTARTTLS [] ((demo_session True)\<lparr>tls_inp := Some []\<rparr>))"
  using starttls_switches [of "(demo_session True)\<lparr>tls_inp := Some []\<rparr>" "[]"]
  by (simp add: demo_session_def newSession_def demo_server_def Let_def)

end
