(* ===== verification/Smtp_Transactions.thy ===== *)
theory Smtp_Transactions
  imports Smtp_Props
begin

text \<open>
  What an SMTP session does for a client that follows the protocol: the course of AUTH
  PLAIN and AUTH LOGIN and of a mail transaction, from the lines the client sends to the
  call of the server's handler; and what happens to the rest of a message that exceeds the
  size limit.
\<close>

section \<open>Command lines\<close>

text \<open>A number of turns of the loop in a row.\<close>

fun serveSteps :: "nat \<Rightarrow> env \<Rightarrow> 'w session \<Rightarrow> bool \<times> 'w session" where
  "serveSteps 0 E s = (True, s)"
| "serveSteps (Suc n) E s =
     (case serveStep E s of (False, t) \<Rightarrow> (False, t) | (True, t) \<Rightarrow> serveSteps n E t)"

lemma serveSteps_add:
  "serveSteps m E s = (True, t) \<Longrightarrow> serveSteps (m + n) E s = serveSteps n E t"
  by (induction m arbitrary: s) (auto split: prod.splits bool.splits)

lemma serveSteps_loop:
  "serveSteps m E s = (True, t) \<Longrightarrow> serveLoop (m + n) E s = serveLoop n E t"
  by (induction m arbitrary: s) (auto split: prod.splits bool.splits)

definition cmd_line :: "string \<Rightarrow> string \<Rightarrow> rd" where
  "cmd_line v a = Line (v @ CHR '' '' # a @ crlf)"

definition verb_line :: "string \<Rightarrow> rd" where
  "verb_line v = Line (v @ crlf)"

definition is_verb :: "string \<Rightarrow> bool" where
  "is_verb v \<longleftrightarrow> v \<noteq> [] \<and> list_all visible v"

lemma is_verbD: "is_verb v \<Longrightarrow> v \<noteq> [] \<and> (\<forall>c \<in> set v. visible c) \<and> ascii v \<and> CHR '' '' \<notin> set v"
  by (auto simp: is_verb_def list_all_iff ascii_def visible_def)

lemma is_verb_hd: "is_verb v \<Longrightarrow> visible (hd v)" "is_verb v \<Longrightarrow> visible (last v)"
  by (auto dest: is_verbD)

lemma serveStep_cmd:
  assumes "inp s = cmd_line v a # r" "is_verb v" "a \<noteq> []" "visible (hd a)" "visible (last a)"
  shows "serveStep E s = dispatch E (map upper_char v) a (s\<lparr>inp := r\<rparr>)"
proof -
  have "trim_space ((v @ CHR '' '' # a) @ [CHR 0x0D, CHR 0x0A]) = v @ CHR '' '' # a"
    using assms is_verb_hd [OF assms(2)] is_verbD [OF assms(2)] by (intro trim_space_line) simp_all
  moreover have "trim_space a = a" using assms by (intro trim_space_visible)
  ultimately show ?thesis using assms(1) is_verbD [OF assms(2)]
    by (simp add: serveStep_def readLine_def cmd_line_def crlf_def parseLine_plain)
qed

lemma serveStep_verb:
  assumes "inp s = verb_line v # r" "is_verb v"
  shows "serveStep E s = dispatch E (map upper_char v) [] (s\<lparr>inp := r\<rparr>)"
proof -
  have "trim_space (v @ [CHR 0x0D, CHR 0x0A]) = v"
    using is_verb_hd [OF assms(2)] is_verbD [OF assms(2)] by (intro trim_space_line) simp_all
  moreover have "parseLine v = (map upper_char v, [])"
    using is_verbD [OF assms(2)] cut_char_None_iff [of "CHR '' ''" v]
    by (simp add: parseLine_def to_upper_ascii)
  ultimately show ?thesis using assms(1)
    by (simp add: serveStep_def readLine_def verb_line_def crlf_def)
qed

lemma smtp_verbs [simp]:
  "is_verb ''MAIL''" "is_verb ''RCPT''" "is_verb ''DATA''" "is_verb ''AUTH''" "is_verb ''RSET''"
  "is_verb ''QUIT''" "is_verb ''PLAIN''" "is_verb ''LOGIN''"
  by (simp_all add: is_verb_def visible_def)

declare upper_char_letters [simp] upper_char_other [simp]

lemma dispatch_verbs:
  "dispatch E ''MAIL'' a s = (True, cmdMAIL a s)" "dispatch E ''RCPT'' a s = (True, cmdRCPT a s)"
  "dispatch E ''DATA'' a s = cmdDATA E s" "dispatch E ''QUIT'' a s = (False, cmdQUIT s)"
  "dispatch E ''AUTH'' a s = cmdAUTH E a s" "dispatch E ''RSET'' a s = (True, cmdRSET s)"
  by (simp_all add: dispatch_def)

text \<open>The session of the witnesses, with other input and perhaps already authenticated.\<close>

definition demo_at :: "bool \<Rightarrow> rd list \<Rightarrow> unit session" where
  "demo_at au l = (demo_session False)\<lparr>authenticated := au, inp := l\<rparr>"

lemma demo_at_fields [simp]:
  "inp (demo_at au l) = l" "authenticated (demo_at au l) = au" "out (demo_at au l) = []"
  "gotFrom (demo_at au l) = False" "to_addrs (demo_at au l) = []" "srv (demo_at au l) = demo_server False"
  by (simp_all add: demo_at_def demo_session_def newSession_def Let_def)

lemma demo_server_fields [simp]:
  "MaxSize (demo_server b) = 20" "HandlerRcpt (demo_server b) = None" "recipientLimit (demo_server b) = 2"
  "Handler (demo_server b) = Some (\<lambda>_ _ _ _ w. (None, w))" "TLSRequired (demo_server b) = b"
  "AuthHandler (demo_server b) = Some (\<lambda>_ _ u p _ w. ((u = ''u'' \<and> p = ''p'', None), w))"
  "AuthMechs (demo_server b) = [''PLAIN'' \<mapsto> True, ''LOGIN'' \<mapsto> True]"
  by (simp_all add: demo_server_def recipientLimit_def)

lemma demo_at_needs [simp]: "\<not> needTLS (demo_at au l)" "needAuth (demo_at True l) = False"
  by (simp_all add: needTLS_def needAuth_def)

section \<open>A mail transaction\<close>

definition plain_path :: "string \<Rightarrow> bool" where
  "plain_path a \<longleftrightarrow> CHR ''>'' \<notin> set a \<and> CHR 0x0A \<notin> set a"

definition mail_line :: "string \<Rightarrow> rd" where
  "mail_line a = cmd_line ''MAIL'' (''FROM:<'' @ a @ ''>'')"

definition rcpt_line :: "string \<Rightarrow> rd" where
  "rcpt_line a = cmd_line ''RCPT'' (''TO:<'' @ a @ ''>'')"

lemma cmdMAIL_plain:
  assumes "mailFromRE args = Some (a, [], [])" "\<not> needTLS s" "\<not> needAuth s"
  shows "cmdMAIL args s = s\<lparr>from_addr := a, gotFrom := True, to_addrs := [],
    buffer := [], out := out s @ [Wrote ''250 2.1.0 Ok'']\<rparr>"
  using assms by (simp add: cmdMAIL_def acceptFrom_def writef_def emit_def)

lemma cmdRCPT_plain:
  assumes "rcptToRE args = Some a" "\<not> needTLS s" "\<not> needAuth s" "gotFrom s"
    and "HandlerRcpt (srv s) = None" "int (length (to_addrs s)) \<noteq> recipientLimit (srv s)"
  shows "cmdRCPT args s = s\<lparr>srv := (srv s)\<lparr>MaxRecipients := recipientLimit (srv s)\<rparr>,
    to_addrs := to_addrs s @ [a], out := out s @ [Wrote ''250 2.1.5 Ok'']\<rparr>"
  using assms
  by (simp add: cmdRCPT_def writef_def emit_def defaultRecipients_def recipientLimit_def Let_def
      split: if_splits)

lemma needs_inp [simp]: "needTLS (s\<lparr>inp := r\<rparr>) = needTLS s" "needAuth (s\<lparr>inp := r\<rparr>) = needAuth s"
  by (simp_all add: needTLS_def needAuth_def)

lemma makeHeaders_reply [simp]:
  "makeHeaders E ((writef m s)\<lparr>inp := r\<rparr>) to = makeHeaders E (s\<lparr>inp := r\<rparr>) to"
  by (simp add: makeHeaders_def)

lemma serveStep_MAIL:
  assumes "inp s = mail_line a # r" "plain_path a" "\<not> needTLS s" "\<not> needAuth s"
  shows "serveStep E s = (True, s\<lparr>inp := r, from_addr := a, gotFrom := True, to_addrs := [],
    buffer := [], out := out s @ [Wrote ''250 2.1.0 Ok'']\<rparr>)"
proof -
  have "serveStep E s = (True, cmdMAIL (''FROM:<'' @ a @ ''>'') (s\<lparr>inp := r\<rparr>))"
    using serveStep_cmd [of s "''MAIL''" "''FROM:<'' @ a @ ''>''" r E] assms(1)
    by (simp add: mail_line_def dispatch_verbs visible_def)
  moreover have "mailFromRE (''FROM:<'' @ a @ ''>'') = Some (a, [], [])"
    using assms(2) by (intro mailFromRE_plain) (simp_all add: plain_path_def)
  ultimately show ?thesis using cmdMAIL_plain [of _ a "s\<lparr>inp := r\<rparr>"] assms(3,4) by simp
qed

lemma serveStep_RCPT:
  assumes "inp s = rcpt_line a # r" "plain_path a" "a \<noteq> []" "\<not> needTLS s" "\<not> needAuth s" "gotFrom s"
    and "HandlerRcpt (srv s) = None" "int (length (to_addrs s)) \<noteq> recipientLimit (srv s)"
  shows "serveStep E s = (True, s\<lparr>inp := r, srv := (srv s)\<lparr>MaxRecipients := recipientLimit (srv s)\<rparr>,
    to_addrs := to_addrs s @ [a], out := out s @ [Wrote ''250 2.1.5 Ok'']\<rparr>)"
proof -
  have "serveStep E s = (True, cmdRCPT (''TO:<'' @ a @ ''>'') (s\<lparr>inp := r\<rparr>))"
    using serveStep_cmd [of s "''RCPT''" "''TO:<'' @ a @ ''>''" r E] assms(1)
    by (simp add: rcpt_line_def dispatch_verbs visible_def)
  moreover have "rcptToRE (''TO:<'' @ a @ ''>'') = Some a"
    using assms(2,3) by (intro rcptToRE_plain) (simp_all add: plain_path_def)
  ultimately show ?thesis using cmdRCPT_plain [of _ a "s\<lparr>inp := r\<rparr>"] assms(4-) by simp
qed

lemma needs_frame [simp]:
  "needTLS (s\<lparr>inp := r, srv := (srv s)\<lparr>MaxRecipients := n\<rparr>, to_addrs := t, out := es\<rparr>) = needTLS s"
  "needAuth (s\<lparr>inp := r, srv := (srv s)\<lparr>MaxRecipients := n\<rparr>, to_addrs := t, out := es\<rparr>) = needAuth s"
  by (simp_all add: needTLS_def needAuth_def)

lemma recipientLimit_again [simp]:
  "recipientLimit (sv\<lparr>MaxRecipients := recipientLimit sv\<rparr>) = recipientLimit sv"
  by (simp add: recipientLimit_def)

lemma serveSteps_RCPTs:
  assumes "rs \<noteq> []" "list_all (\<lambda>a. plain_path a \<and> a \<noteq> []) rs"
    and "inp s = map rcpt_line rs @ r" "\<not> needTLS s" "\<not> needAuth s" "gotFrom s"
    and "HandlerRcpt (srv s) = None"
    and "int (length (to_addrs s) + length rs) \<le> recipientLimit (srv s)"
  shows "serveSteps (length rs) E s =
    (True, s\<lparr>inp := r, srv := (srv s)\<lparr>MaxRecipients := recipientLimit (srv s)\<rparr>,
      to_addrs := to_addrs s @ rs, out := out s @ replicate (length rs) (Wrote ''250 2.1.5 Ok'')\<rparr>)"
  using assms
proof (induction rs arbitrary: s)
  case (Cons a rs)
  let ?t = "s\<lparr>inp := map rcpt_line rs @ r, srv := (srv s)\<lparr>MaxRecipients := recipientLimit (srv s)\<rparr>,
    to_addrs := to_addrs s @ [a], out := out s @ [Wrote ''250 2.1.5 Ok'']\<rparr>"
  have step: "serveStep E s = (True, ?t)"
    using Cons.prems by (intro serveStep_RCPT) simp_all
  show ?case
  proof (cases "rs = []")
    case False
    then have "serveSteps (length rs) E ?t =
      (True, ?t\<lparr>inp := r, srv := (srv ?t)\<lparr>MaxRecipients := recipientLimit (srv ?t)\<rparr>,
        to_addrs := to_addrs ?t @ rs, out := out ?t @ replicate (length rs) (Wrote ''250 2.1.5 Ok'')\<rparr>)"
      using Cons.prems by (intro Cons.IH) simp_all
    with step show ?thesis by simp
  qed (use step in simp)
qed simp

lemma serveStep_DATA:
  assumes "inp s = verb_line ''DATA'' # map (\<lambda>l. Line (dot_stuff l)) ls @ data_end # r"
    and "\<not> needTLS s" "\<not> needAuth s" "gotFrom s" "to_addrs s \<noteq> []"
    and "MaxSize (srv s) \<le> 0 \<or> int (length (concat ls)) \<le> MaxSize (srv s)"
  shows "serveStep E s =
    (True, deliver ((writef ''354 Start mail input; end with <CR><LF>.<CR><LF>'' s)
       \<lparr>inp := r, buffer := makeHeaders E (s\<lparr>inp := r\<rparr>) (to_addrs s) @ concat ls\<rparr>))"
proof -
  let ?s = "s\<lparr>inp := map (\<lambda>l. Line (dot_stuff l)) ls @ data_end # r\<rparr>"
  have "serveStep E s = cmdDATA E ?s"
    using serveStep_verb [of s "''DATA''"] assms(1) by (simp add: dispatch_verbs)
  moreover have "readData E (writef m ?s) = (Inr (concat ls), (writef m s)\<lparr>inp := r\<rparr>)" for m
    using readData_loop_lines [of "MaxSize (srv s)" "[]" ls] assms(6)
    by (simp add: readData_def writef_def emit_def)
  ultimately show ?thesis using assms(2-5)
    by (simp add: cmdDATA_def)
qed

text \<open>The lines of a whole transaction, and the message the handler gets.\<close>

definition transaction :: "string \<Rightarrow> string list \<Rightarrow> string list \<Rightarrow> rd list" where
  "transaction f rs ls =
     mail_line f # map rcpt_line rs @ verb_line ''DATA'' # map (\<lambda>l. Line (dot_stuff l)) ls @ [data_end]"

definition acceptable :: "string \<Rightarrow> string list \<Rightarrow> string list \<Rightarrow> 'w session \<Rightarrow> bool" where
  "acceptable f rs ls s \<longleftrightarrow>
     plain_path f \<and> rs \<noteq> [] \<and> list_all (\<lambda>a. plain_path a \<and> a \<noteq> []) rs \<and>
     \<not> needTLS s \<and> \<not> needAuth s \<and> HandlerRcpt (srv s) = None \<and>
     int (length rs) \<le> recipientLimit (srv s) \<and>
     (MaxSize (srv s) \<le> 0 \<or> int (length (concat ls)) \<le> MaxSize (srv s))"

definition delivered :: "env \<Rightarrow> rd list \<Rightarrow> string list \<Rightarrow> string list \<Rightarrow> 'w session \<Rightarrow> string" where
  "delivered E r rs ls s = makeHeaders E (s\<lparr>inp := r\<rparr>) rs @ concat ls"

lemma transaction_to_DATA:
  assumes "inp s = transaction f rs ls @ r" "acceptable f rs ls s"
  shows "serveSteps (Suc (length rs)) E s =
    (True, s\<lparr>inp := verb_line ''DATA'' # map (\<lambda>l. Line (dot_stuff l)) ls @ data_end # r,
       srv := (srv s)\<lparr>MaxRecipients := recipientLimit (srv s)\<rparr>, from_addr := f, gotFrom := True,
       to_addrs := rs, buffer := [],
       out := out s @ Wrote ''250 2.1.0 Ok'' # replicate (length rs) (Wrote ''250 2.1.5 Ok'')\<rparr>)"
proof -
  let ?d = "verb_line ''DATA'' # map (\<lambda>l. Line (dot_stuff l)) ls @ data_end # r"
  let ?m = "s\<lparr>inp := map rcpt_line rs @ ?d, from_addr := f, gotFrom := True, to_addrs := [],
    buffer := [], out := out s @ [Wrote ''250 2.1.0 Ok'']\<rparr>"
  have "serveStep E s = (True, ?m)"
    using assms by (intro serveStep_MAIL) (simp_all add: transaction_def acceptable_def)
  moreover have "serveSteps (length rs) E ?m =
    (True, ?m\<lparr>inp := ?d, srv := (srv ?m)\<lparr>MaxRecipients := recipientLimit (srv ?m)\<rparr>,
      to_addrs := to_addrs ?m @ rs,
      out := out ?m @ replicate (length rs) (Wrote ''250 2.1.5 Ok'')\<rparr>)"
    using assms(2)
    by (intro serveSteps_RCPTs) (simp_all add: acceptable_def needTLS_def needAuth_def)
  ultimately show ?thesis by simp
qed

lemma makeHeaders_frame [simp]:
  "makeHeaders E (s\<lparr>inp := r, srv := (srv s)\<lparr>MaxRecipients := n\<rparr>, from_addr := f, gotFrom := b,
     to_addrs := t, buffer := d, out := es\<rparr>) to = makeHeaders E (s\<lparr>inp := r\<rparr>) to"
  by (simp add: makeHeaders_def)

lemma transaction_steps:
  assumes "inp s = transaction f rs ls @ r" "acceptable f rs ls s"
  shows "serveSteps (length rs + 2) E s =
    (True, deliver (s\<lparr>srv := (srv s)\<lparr>MaxRecipients := recipientLimit (srv s)\<rparr>,
       from_addr := f, gotFrom := True, to_addrs := rs,
       out := out s @ Wrote ''250 2.1.0 Ok'' # replicate (length rs) (Wrote ''250 2.1.5 Ok'') @
         [Wrote ''354 Start mail input; end with <CR><LF>.<CR><LF>''],
       inp := r, buffer := delivered E r rs ls s\<rparr>))"
proof -
  let ?d = "s\<lparr>inp := verb_line ''DATA'' # map (\<lambda>l. Line (dot_stuff l)) ls @ data_end # r,
       srv := (srv s)\<lparr>MaxRecipients := recipientLimit (srv s)\<rparr>, from_addr := f, gotFrom := True,
       to_addrs := rs, buffer := [],
       out := out s @ Wrote ''250 2.1.0 Ok'' # replicate (length rs) (Wrote ''250 2.1.5 Ok'')\<rparr>"
  have "serveStep E ?d = (True, deliver ((writef ''354 Start mail input; end with <CR><LF>.<CR><LF>'' ?d)
       \<lparr>inp := r, buffer := makeHeaders E (?d\<lparr>inp := r\<rparr>) (to_addrs ?d) @ concat ls\<rparr>))"
    using assms(2) by (intro serveStep_DATA) (simp_all add: acceptable_def needTLS_def needAuth_def)
  moreover have "makeHeaders E (?d\<lparr>inp := r\<rparr>) rs @ concat ls = delivered E r rs ls s"
    by (simp add: delivered_def makeHeaders_def)
  ultimately have "serveSteps 1 E ?d = (True, deliver (s\<lparr>srv := (srv s)\<lparr>MaxRecipients := recipientLimit (srv s)\<rparr>,
       from_addr := f, gotFrom := True, to_addrs := rs,
       out := out s @ Wrote ''250 2.1.0 Ok'' # replicate (length rs) (Wrote ''250 2.1.5 Ok'') @
         [Wrote ''354 Start mail input; end with <CR><LF>.<CR><LF>''],
       inp := r, buffer := delivered E r rs ls s\<rparr>))"
    by (simp add: writef_def emit_def)
  then show ?thesis using serveSteps_add [OF transaction_to_DATA [OF assms], of 1 E] by simp
qed

text \<open>
  C18: A complete mail transaction: the lines MAIL, RCPT, DATA, the dot-stuffed message and
  the final dot make the server call its handler exactly once, with the envelope sender,
  all recipients in order and the trace headers followed by the message as it was written,
  answer each command, report the handler's verdict, and go on reading after the dot; an
  accepted message leaves no transaction open, a refused one leaves it as it was.
\<close>

theorem mail_transaction:
  assumes "inp s = transaction f rs ls @ r" "acceptable f rs ls s" "Handler (srv s) = Some h"
    and "h (remoteAddr s) f rs (delivered E r rs ls s) (world s) = (err, w)"
  shows "\<exists>t. serveSteps (length rs + 2) E s = (True, t) \<and> inp t = r \<and> world t = w \<and>
    out t = out s @ Wrote ''250 2.1.0 Ok'' # replicate (length rs) (Wrote ''250 2.1.5 Ok'') @
      [Wrote ''354 Start mail input; end with <CR><LF>.<CR><LF>'',
       MailCall f rs (delivered E r rs ls s),
       Wrote (case err of None \<Rightarrow> ''250 2.0.0 Ok'' | Some e \<Rightarrow> handlerErrorText e)] \<and>
    gotFrom t = (err \<noteq> None) \<and> to_addrs t = (if err = None then [] else rs)"
  using transaction_steps [OF assms(1,2), of E] assms(3,4)
  by (simp add: deliver_def split: option.split)

lemma mail_transaction_witness:
  "\<exists>t. serveSteps 3 demo_env (demo_at True (transaction ''a'' [''b''] [''.h'' @ crlf] @ [verb_line ''QUIT''])) = (True, t) \<and>
     inp t = [verb_line ''QUIT''] \<and> \<not> gotFrom t"
proof -
  let ?s = "demo_at True (transaction ''a'' [''b''] [''.h'' @ crlf] @ [verb_line ''QUIT''])"
  have "acceptable ''a'' [''b''] [''.h'' @ crlf] ?s"
    by (simp add: acceptable_def plain_path_def crlf_def)
  then show ?thesis
    using mail_transaction [of ?s "''a''" "[''b'']" "[''.h'' @ crlf]" "[verb_line ''QUIT'']"
        "\<lambda>_ _ _ _ w. (None, w)" demo_env None "world ?s"]
    by (auto simp: numeral_3_eq_3)
qed

section \<open>AUTH\<close>

text \<open>A session in which AUTH may be tried.\<close>

definition auth_open :: "string \<Rightarrow> 'w session \<Rightarrow> bool" where
  "auth_open mech s \<longleftrightarrow>
     \<not> needTLS s \<and> \<not> authenticated s \<and> \<not> gotFrom s \<and> to_addrs s = [] \<and> authMechs s mech = Some True"

definition auth_verdict :: "bool \<Rightarrow> string" where
  "auth_verdict ok = (if ok then ''235 2.7.0 Authentication successful''
     else ''535 5.7.8 Authentication credentials invalid'')"

lemma authMechs_inp [simp]: "authMechs (s\<lparr>inp := r\<rparr>) = authMechs s"
  by (rule ext) (simp add: authMechs_def split: option.split)

lemma cmdAUTH_open:
  assumes "auth_open mech s" "AuthHandler (srv s) \<noteq> None" "parseLine args = (mech, a)" "mech \<noteq> []"
  shows "cmdAUTH E args s =
    finishAuth (if mech = ''PLAIN'' then handleAuthPlain a s
      else if mech = ''LOGIN'' then handleAuthLogin a s else handleAuthCramMD5 E s)"
  using assms by (auto simp: cmdAUTH_def auth_open_def)

lemma auth_open_inp [simp]: "auth_open mech (s\<lparr>inp := r\<rparr>) = auth_open mech s"
  by (simp add: auth_open_def)

text \<open>
  C30: AUTH PLAIN: the identity and the password that the client encodes are the ones the
  AuthHandler is asked about, in one call; the session is authenticated exactly if the
  handler accepts, the client is told so, and nothing else changes.
\<close>

theorem auth_plain:
  assumes "inp s = cmd_line ''AUTH'' (''PLAIN '' @ b64_encode (z @ CHR 0x00 # u @ CHR 0x00 # p)) # r"
    and "CHR 0x00 \<notin> set z \<union> set u \<union> set p" "auth_open ''PLAIN'' s" "AuthHandler (srv s) = Some h"
    and "h (remoteAddr s) ''PLAIN'' u p None (world s) = ((ok, None), w)"
  shows "serveStep E s =
    (True, s\<lparr>inp := r, world := w, authenticated := ok,
      out := out s @ [AuthCall ''PLAIN'' u p ok, Wrote (auth_verdict ok)]\<rparr>)"
proof -
  let ?d = "z @ CHR 0x00 # u @ CHR 0x00 # p" and ?t = "s\<lparr>inp := r\<rparr>"
  have vis: "\<forall>c \<in> set (b64_encode ?d). visible c" by (rule b64_encode_visible)
  have "serveStep E s = cmdAUTH E (''PLAIN '' @ b64_encode ?d) ?t"
    using serveStep_cmd [OF assms(1)] vis by (simp add: dispatch_verbs visible_def)
  moreover have "parseLine (''PLAIN '' @ b64_encode ?d) = (''PLAIN'', b64_encode ?d)"
    using parseLine_plain [of "''PLAIN''" "b64_encode ?d"] base64.trim_enc by (simp add: ascii_def)
  ultimately have "serveStep E s = finishAuth (handleAuthPlain (b64_encode ?d) ?t)"
    using cmdAUTH_open [of "''PLAIN''" ?t] assms(3,4) by simp
  moreover have "split_char CHR 0x00 ?d = [z, u, p]"
    using assms(2) by (simp add: split_char_cut split_char_no_sep)
  ultimately show ?thesis using assms(4,5)
    by (simp add: handleAuthPlain_def callAuth_def finishAuth_def auth_verdict_def writef_def emit_def)
qed

lemma demo_open: "auth_open ''PLAIN'' (demo_at False l)" "auth_open ''LOGIN'' (demo_at False l)"
  by (simp_all add: auth_open_def authMechs_def)

lemma auth_plain_witness:
  "authenticated (snd (serveStep demo_env
     (demo_at False [cmd_line ''AUTH'' (''PLAIN '' @ b64_encode ([] @ CHR 0x00 # ''u'' @ CHR 0x00 # ''p''))])))"
  using auth_plain [of "demo_at False [cmd_line ''AUTH''
      (''PLAIN '' @ b64_encode ([] @ CHR 0x00 # ''u'' @ CHR 0x00 # ''p''))]" "[]" "''u''" "''p''" "[]" _ True "()" demo_env]
    demo_open(1)
  by (simp del: b64_encode.simps)

lemma readLine_encoded:
  "x \<noteq> [] \<Longrightarrow> inp s = Line (b64_encode x @ crlf) # r \<Longrightarrow> readLine s = (Inr (b64_encode x), s\<lparr>inp := r\<rparr>)"
  by (simp add: readLine_def crlf_def base64.trim_enc_line)

text \<open>
  AUTH LOGIN: the server asks for the user name and the password in turn, and asks the
  AuthHandler about what the two following lines encode, with the same outcome as PLAIN.
\<close>

theorem auth_login:
  assumes "inp s = cmd_line ''AUTH'' ''LOGIN'' # Line (b64_encode u @ crlf) # Line (b64_encode p @ crlf) # r"
    and "u \<noteq> []" "p \<noteq> []" "auth_open ''LOGIN'' s" "AuthHandler (srv s) = Some h"
    and "h (remoteAddr s) ''LOGIN'' u p None (world s) = ((ok, None), w)"
  shows "serveStep E s =
    (True, s\<lparr>inp := r, world := w, authenticated := ok,
      out := out s @ [Wrote (''334 '' @ b64_encode ''Username:''), Wrote (''334 '' @ b64_encode ''Password:''),
        AuthCall ''LOGIN'' u p ok, Wrote (auth_verdict ok)]\<rparr>)"
proof -
  define up where "up = ''334 '' @ b64_encode ''Username:''"
  define pp where "pp = ''334 '' @ b64_encode ''Password:''"
  let ?t = "s\<lparr>inp := Line (b64_encode u @ crlf) # Line (b64_encode p @ crlf) # r\<rparr>"
  let ?t1 = "s\<lparr>inp := Line (b64_encode p @ crlf) # r, out := out s @ [Wrote up]\<rparr>"
  let ?t2 = "s\<lparr>inp := r, out := out s @ [Wrote up, Wrote pp]\<rparr>"
  have "serveStep E s = cmdAUTH E ''LOGIN'' ?t"
    using serveStep_cmd [OF assms(1)] by (simp add: dispatch_verbs visible_def)
  moreover have "parseLine ''LOGIN'' = (''LOGIN'', [])"
    by (simp add: parseLine_def to_upper_Cons)
  ultimately have "serveStep E s = finishAuth (handleAuthLogin [] ?t)"
    using cmdAUTH_open [of "''LOGIN''" ?t] assms(4,5) by simp
  moreover have "readLine (writef up ?t) = (Inr (b64_encode u), ?t1)"
    using readLine_encoded [OF assms(2), of "writef up ?t"] by (simp add: writef_def emit_def)
  moreover have "readLine (writef pp ?t1) = (Inr (b64_encode p), ?t2)"
    using readLine_encoded [OF assms(3), of "writef pp ?t1"] by (simp add: writef_def emit_def)
  ultimately show ?thesis using assms(5,6)
    unfolding handleAuthLogin_def up_def [symmetric] pp_def [symmetric]
    by (simp add: callAuth_def finishAuth_def auth_verdict_def writef_def emit_def)
qed

lemma auth_login_witness:
  "\<not> authenticated (snd (serveStep demo_env
     (demo_at False [cmd_line ''AUTH'' ''LOGIN'', Line (b64_encode ''u'' @ crlf), Line (b64_encode ''x'' @ crlf)])))"
  using auth_login [of "demo_at False [cmd_line ''AUTH'' ''LOGIN'', Line (b64_encode ''u'' @ crlf),
      Line (b64_encode ''x'' @ crlf)]" "''u''" "''x''" "[]" _ False "()" demo_env] demo_open(2)
  by (simp del: b64_encode.simps)

section \<open>A message over the limit\<close>

lemma readData_loop_prefix:
  "int (length data + length (concat ls)) \<le> mx \<Longrightarrow>
   readData_loop mx discard data (map (\<lambda>l. Line (dot_stuff l)) ls @ r) =
   readData_loop mx discard (data @ concat ls) r"
proof (induction ls arbitrary: data)
  case (Cons l ls)
  from Cons.prems have "\<not> (0 < mx \<and> mx < int (length data + length l))" by auto
  moreover have "int (length (data @ l) + length (concat ls)) \<le> mx" using Cons.prems by auto
  ultimately show ?case using Cons.IH [of "data @ l"]
    by (simp only: list.map append_Cons readData_loop_line if_False) simp
qed simp

text \<open>
  C32: When a line of the message takes it over \<open>MaxSize\<close>, the reply is 552 and the
  transaction stays open; what \<open>bufio\<close> has already buffered is dropped, and the rest of
  the message, which the client has still to send, is what the next turns of the loop read
  as commands.
\<close>

theorem oversize_rest_is_commands:
  assumes "inp s = verb_line ''DATA'' # map (\<lambda>l. Line (dot_stuff l)) ls @ Line (dot_stuff x) # rest"
    and "\<not> needTLS s" "\<not> needAuth s" "gotFrom s" "to_addrs s \<noteq> []" "0 < MaxSize (srv s)"
    and "int (length (concat ls)) \<le> MaxSize (srv s)"
    and "MaxSize (srv s) < int (length (concat ls) + length x)"
  shows "serveStep E s =
    (True, s\<lparr>inp := DiscardBuffered E rest,
      out := out s @ [Wrote ''354 Start mail input; end with <CR><LF>.<CR><LF>'',
        Wrote (maxSizeExceeded_text (MaxSize (srv s)))]\<rparr>)"
proof -
  let ?s = "s\<lparr>inp := map (\<lambda>l. Line (dot_stuff l)) ls @ Line (dot_stuff x) # rest\<rparr>"
  have "serveStep E s = cmdDATA E ?s"
    using serveStep_verb [OF assms(1)] by (simp add: dispatch_verbs)
  moreover have "readData E (writef m ?s) =
      (Inl (DataTooBig (MaxSize (srv s))), (writef m s)\<lparr>inp := DiscardBuffered E rest\<rparr>)" for m
    using readData_loop_prefix [of "[]" ls] readData_loop_line [of _ _ _ x] assms(6-8)
    by (simp add: readData_def writef_def emit_def del: readData_loop.simps)
  ultimately show ?thesis using assms(2-5)
    by (simp add: cmdDATA_def writef_def emit_def)
qed

lemma oversize_rest_is_commands_witness:
  "inp (snd (serveStep demo_env ((demo_at True (verb_line ''DATA'' #
     map (\<lambda>l. Line (dot_stuff l)) [''0123456789''] @ Line (dot_stuff ''0123456789a'') # [verb_line ''RSET'']))
       \<lparr>gotFrom := True, to_addrs := [''b'']\<rparr>))) = [verb_line ''RSET'']"
proof -
  let ?s = "(demo_at True (verb_line ''DATA'' #
     map (\<lambda>l. Line (dot_stuff l)) [''0123456789''] @ Line (dot_stuff ''0123456789a'') # [verb_line ''RSET'']))
       \<lparr>gotFrom := True, to_addrs := [''b'']\<rparr>"
  have "\<not> needTLS ?s" "\<not> needAuth ?s" by (simp_all add: needTLS_def needAuth_def)
  then show ?thesis
    using oversize_rest_is_commands [of ?s "[''0123456789'']" "''0123456789a''" "[verb_line ''RSET'']" demo_env]
    by (simp add: demo_env_def)
qed

end
