(* ===== verification/Smtp_Replies.thy ===== *)
theory Smtp_Replies
  imports Smtp_Props
begin

text \<open>
  How an SMTP session answers: every command that the session survives gets exactly one final
  reply, after the intermediate replies 334 and 354 that ask for more; so client and server
  stay in step.
\<close>

section \<open>Intermediate and final replies\<close>

text \<open>
  A reply whose code begins with 3 asks for more, every other one is final; calls of handlers
  are no replies.  The reply that opens a TLS handshake is followed by another one when the
  handshake fails.
\<close>

definition tls_ready :: string where
  "tls_ready = ''220 2.0.0 Ready to start TLS''"

definition data_start :: string where
  "data_start = ''354 Start mail input; end with <CR><LF>.<CR><LF>''"

fun interim :: "event \<Rightarrow> bool" where
  "interim (Wrote l) = has_prefix l ''3''"
| "interim _ = True"

definition asks :: "'w session \<Rightarrow> 'w session \<Rightarrow> bool" where
  "asks s t \<longleftrightarrow> (\<exists>es. out t = out s @ es \<and> list_all interim es)"

definition answered :: "'w session \<Rightarrow> 'w session \<Rightarrow> bool" where
  "answered s t \<longleftrightarrow> (\<exists>es l. out t = out s @ es @ [Wrote l] \<and> list_all interim es \<and> \<not> has_prefix l ''3'')"

text \<open>
  Some replies are the texts of errors: of the handlers of the server, or of the connection.
  They are no intermediate replies.
\<close>

definition plain_error :: "go_error \<Rightarrow> bool" where
  "plain_error e \<longleftrightarrow> \<not> has_prefix (error_text e) ''3''"

definition plain_handlers :: "'w server \<Rightarrow> bool" where
  "plain_handlers sv \<longleftrightarrow>
     pred_option (\<lambda>h. \<forall>addr mech u p sh w e. snd (fst (h addr mech u p sh w)) = Some e \<longrightarrow> plain_error e) (AuthHandler sv) \<and>
     pred_option (\<lambda>h. \<forall>addr from to d w e. fst (h addr from to d w) = Some e \<longrightarrow> plain_error e) (Handler sv) \<and>
     pred_option (\<lambda>h. \<forall>addr from to d w e. snd (fst (h addr from to d w)) = Some e \<longrightarrow> plain_error e) (MsgIDHandler sv)"

definition plain_texts :: "'w session \<Rightarrow> bool" where
  "plain_texts s \<longleftrightarrow> plain_handlers (srv s) \<and> (\<forall>e. ReadFail e \<in> set (inp s) \<longrightarrow> plain_error e)"

definition ready :: "'w session \<Rightarrow> 'w session \<Rightarrow> bool" where
  "ready s t \<longleftrightarrow> asks s t \<and> plain_texts t"

lemma asks_refl [simp, intro]: "asks s s"
  by (simp add: asks_def)

lemma asks_writef: "has_prefix l ''3'' \<Longrightarrow> asks s t \<Longrightarrow> asks s (writef l t)"
  unfolding asks_def by (elim exE conjE, rule_tac x = "es @ [Wrote l]" in exI) simp

lemma asks_emit: "interim e \<Longrightarrow> asks s t \<Longrightarrow> asks s (emit e t)"
  unfolding asks_def by (elim exE conjE, rule_tac x = "es @ [e]" in exI) simp

lemma answered_writef: "asks s t \<Longrightarrow> \<not> has_prefix l ''3'' \<Longrightarrow> answered s (writef l t)"
  unfolding asks_def answered_def by auto

lemma answered_now [simp]: "\<not> has_prefix l ''3'' \<Longrightarrow> answered s (writef l s)"
  by (rule answered_writef) simp_all

lemma asks_update [simp]:
  "asks s (t\<lparr>world := w\<rparr>) = asks s t" "asks s (t\<lparr>inp := i\<rparr>) = asks s t"
  "asks s (t\<lparr>authenticated := b\<rparr>) = asks s t" "asks s (t\<lparr>buffer := d\<rparr>) = asks s t"
  "asks s (t\<lparr>remoteName := n\<rparr>) = asks s t" "asks s (t\<lparr>to_addrs := ts\<rparr>) = asks s t"
  "asks s (t\<lparr>srv := sv\<rparr>) = asks s t"
  by (simp_all add: asks_def)

lemma answered_update [simp]:
  "answered s (resetTxn t) = answered s t" "answered s (t\<lparr>to_addrs := ts, buffer := d\<rparr>) = answered s t"
  by (simp_all add: answered_def)

lemma plain_update [simp]:
  "plain_texts (writef l t) = plain_texts t" "plain_texts (emit e t) = plain_texts t"
  "plain_texts (t\<lparr>world := w\<rparr>) = plain_texts t" "plain_texts (t\<lparr>buffer := d\<rparr>) = plain_texts t"
  by (simp_all add: plain_texts_def)

lemma plain_constants [simp]: "plain_error eof" "plain_error undecodable" "plain_error unparsable"
  "plain_error (ErrText ''501 5.7.0 Authentication cancelled'')"
  by (simp_all add: plain_error_def eof_def undecodable_def unparsable_def)

lemma ready_readLine: "readLine t = (r, u) \<Longrightarrow> ready s t \<Longrightarrow> ready s u \<and> (\<forall>e. r = Inl e \<longrightarrow> plain_error e)"
  by (auto simp: readLine_def ready_def plain_texts_def split: list.splits rd.splits)

lemma ready_prompt:
  assumes "readLine (writef l t) = (r, u)" "has_prefix l ''3''" "ready s t"
  shows "ready s u" "r = Inl e \<Longrightarrow> plain_error e"
proof -
  have "ready s (writef l t)" using assms(2,3) by (simp add: ready_def asks_writef)
  from ready_readLine [OF assms(1) this] show "ready s u" "r = Inl e \<Longrightarrow> plain_error e" by simp_all
qed

section \<open>Authentication\<close>

text \<open>The result of a mechanism: what was asked for, and an error that is a final reply.\<close>

definition outcome :: "'w session \<Rightarrow> (bool \<times> go_error option) \<times> 'w session \<Rightarrow> bool" where
  "outcome s r \<longleftrightarrow> asks s (snd r) \<and> (\<forall>e. snd (fst r) = Some e \<longrightarrow> plain_error e)"

lemma outcome_fail: "ready s t \<Longrightarrow> plain_error e \<Longrightarrow> outcome s ((b, Some e), t)"
  by (simp add: outcome_def ready_def)

lemma outcome_callAuth:
  assumes "ready s t"
  shows "outcome s (callAuth mech a p sh t)"
proof (cases "AuthHandler (srv t)")
  case None
  then show ?thesis using assms by (simp add: callAuth_def outcome_def ready_def)
next
  case (Some h)
  obtain ok err w where h: "h (remoteAddr t) mech a p sh (world t) = ((ok, err), w)" by (metis surj_pair)
  have "asks s (emit (AuthCall mech a p ok) (t\<lparr>world := w\<rparr>))"
    using assms by (intro asks_emit) (simp_all add: ready_def)
  moreover have "\<forall>addr mech u p sh w e. snd (fst (h addr mech u p sh w)) = Some e \<longrightarrow> plain_error e"
    using assms Some by (simp add: ready_def plain_texts_def plain_handlers_def)
  then have "plain_error e" if "err = Some e" for e using h that by (metis fst_conv snd_conv)
  ultimately show ?thesis by (simp add: callAuth_def Some h outcome_def)
qed

lemma outcome_password:
  assumes "ready s t" "has_prefix l ''3''"
  shows "outcome s (case readLine (writef l t) of
       (Inl e, s2) \<Rightarrow> ((False, Some e), s2)
     | (Inr line, s2) \<Rightarrow>
         (case b64_decode line of
            None \<Rightarrow> ((False, Some undecodable), s2)
          | Some password \<Rightarrow> callAuth m u password sh s2))"
proof -
  obtain r v where v: "readLine (writef l t) = (r, v)" by (cases "readLine (writef l t)")
  show ?thesis using ready_prompt [OF v assms(2,1)]
    by (auto simp: v intro: outcome_fail outcome_callAuth split: sum.split option.split)
qed

lemma prefix_334: "has_prefix (''334 '' @ x) ''3''"
  by simp

lemma optional_prompt:
  assumes "(if a = [] then readLine (writef l s) else (Inr a, s)) = (r, v)" "has_prefix l ''3''" "ready s s"
  shows "ready s v" "r = Inl e \<Longrightarrow> plain_error e"
  using assms ready_prompt [OF _ assms(2,3), of r v] by (auto split: if_split_asm)

lemma outcome_Plain:
  assumes "ready s s"
  shows "outcome s (handleAuthPlain a s)"
proof -
  obtain r v where v: "(if a = [] then readLine (writef ''334 '' s) else (Inr a, s)) = (r, v)" by (metis surj_pair)
  have pre: "has_prefix ''334 '' ''3''" by simp
  show ?thesis unfolding handleAuthPlain_def v
    using optional_prompt [OF v pre assms]
    by (auto intro: outcome_fail outcome_callAuth split: sum.split option.split list.split)
qed

lemma outcome_CramMD5:
  assumes "ready s s"
  shows "outcome s (handleAuthCramMD5 E s)"
proof -
  define l where "l = ''334 '' @ b64_encode (''<'' @ PidNanos E (inp s) @ ''@'' @ Hostname (srv s) @ ''>'')"
  have pre: "has_prefix l ''3''" unfolding l_def by (rule prefix_334)
  obtain r v where v: "readLine (writef l s) = (r, v)" by (cases "readLine (writef l s)")
  show ?thesis unfolding handleAuthCramMD5_def Let_def l_def [symmetric] v
    using ready_prompt [OF v pre assms]
    by (auto intro: outcome_fail outcome_callAuth split: sum.split option.split list.split)
qed

lemma outcome_Login:
  assumes "ready s s"
  shows "outcome s (handleAuthLogin a s)"
proof -
  define q where "q = ''334 '' @ b64_encode ''Username:''"
  define p where "p = ''334 '' @ b64_encode ''Password:''"
  have pre: "has_prefix q ''3''" "has_prefix p ''3''" unfolding q_def p_def by (rule prefix_334)+
  obtain r v where v: "(if a = [] then readLine (writef q s) else (Inr a, s)) = (r, v)" by (metis surj_pair)
  note v_ready = optional_prompt [OF v pre(1) assms]
  note pass = outcome_password [OF v_ready(1) pre(2)]
  show ?thesis unfolding handleAuthLogin_def q_def [symmetric] p_def [symmetric] v
    using v_ready pass by (auto intro: outcome_fail split: sum.split option.split)
qed

lemma timeout_final [simp]: "\<not> has_prefix (timeout_text s) ''3''"
  by (simp add: timeout_text_def)

lemma answered_finishAuth:
  assumes "outcome s r"
  shows "answered s (snd (finishAuth r))"
proof -
  obtain ok err t where r: "r = ((ok, err), t)" by (metis surj_pair)
  define u where "u = t\<lparr>authenticated := ok\<rparr>"
  have u: "asks s u" using assms by (simp add: u_def outcome_def r)
  have "\<not> has_prefix (error_text e) ''3''" if "err = Some e" for e
    using assms that by (simp add: outcome_def r plain_error_def)
  then show ?thesis unfolding finishAuth_def r Let_def prod.case u_def [symmetric]
    using u by (auto intro!: answered_writef split: option.split)
qed

section \<open>Commands\<close>

lemma answered_acceptFrom [simp]: "answered s (acceptFrom a s)"
proof -
  have "asks s (s\<lparr>from_addr := a, gotFrom := True\<rparr>)" by (simp add: asks_def)
  then show ?thesis by (simp add: acceptFrom_def answered_writef)
qed

lemma answered_cmdMAIL: "answered s (cmdMAIL args s)"
  by (simp add: cmdMAIL_def Let_def maxSizeExceeded_text_def split: option.split prod.split bool.split)

lemma asks_defaultRecipients [simp]: "asks s (defaultRecipients t) = asks s t"
  by (simp add: asks_def)

lemma answered_cmdRCPT: "answered s (cmdRCPT args s)"
  by (auto simp: cmdRCPT_def Let_def intro!: answered_writef asks_emit split: option.split prod.split)

lemma handlerErrorText_final: "plain_error e \<Longrightarrow> \<not> has_prefix (handlerErrorText e) ''3''"
  by (simp add: handlerErrorText_def plain_error_def)

lemma answered_deliver:
  assumes "asks s t" "plain_handlers (srv t)"
  shows "answered s (deliver t)"
proof -
  have h: "\<not> has_prefix (handlerErrorText e) ''3''"
    if "Handler (srv t) = Some f" "f a b c d w = (Some e, w')" for f a b c d w e w'
    using that assms(2) unfolding plain_handlers_def
    by (intro handlerErrorText_final) (simp, metis fst_conv)
  have g: "\<not> has_prefix (handlerErrorText e) ''3''"
    if "MsgIDHandler (srv t) = Some f" "f a b c d w = ((i, Some e), w')" for f a b c d w i e w'
    using that assms(2) unfolding plain_handlers_def
    by (intro handlerErrorText_final) (simp, metis fst_conv snd_conv)
  show ?thesis using assms(1)
    by (auto simp: deliver_def Let_def intro!: answered_writef asks_emit dest: h g split: option.split prod.split)
qed

lemma data_start_interim: "has_prefix data_start ''3''"
  by (simp add: data_start_def)

lemma readData_state_plain:
  assumes "readData E (writef l s) = (r, t)" "has_prefix l ''3''" "plain_texts s"
  shows "asks s t \<and> plain_handlers (srv t) \<and> out t = out s @ [Wrote l]"
  using assms asks_writef [OF assms(2) asks_refl, of s] by (auto simp: readData_def plain_texts_def split: prod.splits)

lemma readData_loop_failed:
  "readData_loop mx d data ls = (Inl (DataRead e), rest) \<Longrightarrow> e = eof \<or> ReadFail e \<in> set ls"
  by (induction mx d data ls rule: readData_loop.induct) (auto simp: Let_def split: if_split_asm)

lemma readData_failed:
  assumes "readData E s = (Inl (DataRead e), t)" "is_net_error e"
  shows "ReadFail e \<in> set (inp s)"
proof -
  obtain rest where "readData_loop (MaxSize (srv s)) (DiscardBuffered E) [] (inp s) = (Inl (DataRead e), rest)"
    using assms(1) by (auto simp: readData_def split: prod.splits)
  from readData_loop_failed [OF this] assms(2) show ?thesis by (auto simp: eof_def)
qed

text \<open>DATA is answered, unless the connection breaks while the message is read.\<close>

definition cut_off :: "'w session \<Rightarrow> bool \<Rightarrow> 'w session \<Rightarrow> bool" where
  "cut_off s go t \<longleftrightarrow> \<not> go \<and> out t = out s @ [Wrote data_start] \<and>
     (\<exists>e. ReadFail e \<in> set (inp s) \<and> is_net_error e \<and> \<not> is_net_timeout e)"

lemma answered_cmdDATA:
  assumes "cmdDATA E s = (go, t)" "plain_texts s"
  shows "answered s t \<or> cut_off s go t"
proof -
  obtain r u where r: "readData E (writef data_start s) = (r, u)" by (cases "readData E (writef data_start s)")
  note u = readData_state_plain [OF r data_start_interim assms(2)]
  consider "needTLS s \<or> needAuth s \<or> \<not> gotFrom s \<or> to_addrs s = []"
    | (failed) e where "r = Inl (DataRead e)" "\<not> (needTLS s \<or> needAuth s \<or> \<not> gotFrom s \<or> to_addrs s = [])"
    | (big) n where "r = Inl (DataTooBig n)" "\<not> (needTLS s \<or> needAuth s \<or> \<not> gotFrom s \<or> to_addrs s = [])"
    | (ok) d where "r = Inr d" "\<not> (needTLS s \<or> needAuth s \<or> \<not> gotFrom s \<or> to_addrs s = [])"
    by (metis data_error.exhaust sum.exhaust)
  then show ?thesis
  proof cases
    case 1
    then show ?thesis using assms(1) by (auto simp: cmdDATA_def split: if_split_asm)
  next
    case (failed e)
    then have t: "(go, t) = (if is_net_error e then (False, if is_net_timeout e then writef (timeout_text u) u else u)
        else (True, writef ''451 4.3.0 Requested action aborted: local error in processing'' u))"
      using assms(1) r by (simp add: cmdDATA_def data_start_def)
    show ?thesis
    proof (cases "is_net_error e \<and> \<not> is_net_timeout e")
      case True
      then have "ReadFail e \<in> set (inp s)" using readData_failed [of E _ e u] r failed(1) by fastforce
      with True t u show ?thesis by (auto simp: cut_off_def)
    qed (use t u in \<open>auto intro!: answered_writef split: if_split_asm\<close>)
  next
    case (big n)
    then have "t = writef (maxSizeExceeded_text n) u" using assms(1) r by (simp add: cmdDATA_def data_start_def)
    then show ?thesis using u by (auto simp: maxSizeExceeded_text_def intro!: answered_writef)
  next
    case (ok d)
    then have "t = deliver (u\<lparr>buffer := makeHeaders E u (to_addrs u) @ d\<rparr>)"
      using assms(1) r by (simp add: cmdDATA_def data_start_def)
    then show ?thesis using u by (simp add: answered_deliver)
  qed
qed

lemma asks_xclientArg: "asks s t \<Longrightarrow> asks s (xclientArg E a t)"
  by (simp add: xclientArg_def Let_def asks_def split: option.split prod.split)

lemma asks_fold_xclientArg: "asks s t \<Longrightarrow> asks s (fold (xclientArg E) as t)"
  by (induction as arbitrary: t) (simp_all add: asks_xclientArg)

lemma answered_cmdXCLIENT: "answered s (cmdXCLIENT E args s)"
proof -
  have "asks s (s\<lparr>xClient := args\<rparr>)" by (simp add: asks_def)
  note this asks_fold_xclientArg [OF this]
  moreover have "asks s (t\<lparr>remoteIP := a, remoteHost := h\<rparr>) = asks s t" for t :: "'a session" and a h
    by (simp add: asks_def)
  ultimately show ?thesis by (simp add: cmdXCLIENT_def Let_def answered_writef)
qed

text \<open>STARTTLS: one reply, or the reply that opens the handshake and one more when it fails.\<close>

lemma answered_cmdSTARTTLS:
  "answered s (cmdSTARTTLS args s) \<or>
   out (cmdSTARTTLS args s) = out s @ [Wrote tls_ready, Wrote ''403 4.7.0 TLS handshake failed'']"
proof -
  have "\<not> has_prefix tls_ready ''3''" by (simp add: tls_ready_def)
  then have "answered s (writef tls_ready s)" by simp
  moreover have "answered s (t\<lparr>inp := i, tls_inp := j, tls := b, remoteName := n\<rparr>) = answered s t" for t :: "'a session" and i j b n
    by (simp add: answered_def)
  ultimately show ?thesis
    unfolding cmdSTARTTLS_def tls_ready_def [symmetric] by (auto simp: Let_def split: option.split)
qed

lemma answered_cmdAUTH:
  assumes "plain_texts s"
  shows "answered s (snd (cmdAUTH E args s))"
proof -
  have "ready s s" using assms by (simp add: ready_def)
  then show ?thesis
    by (auto simp: cmdAUTH_def intro!: answered_finishAuth outcome_Plain outcome_CramMD5 outcome_Login split: prod.split)
qed

lemma answered_dispatch:
  assumes "dispatch E verb args s = (go, t)" "plain_texts s"
  shows "answered s t \<or>
    verb = ''STARTTLS'' \<and> out t = out s @ [Wrote tls_ready, Wrote ''403 4.7.0 TLS handshake failed''] \<or>
    verb = ''DATA'' \<and> cut_off s go t"
proof (cases "verb = ''DATA'' \<or> verb = ''STARTTLS''")
  case True
  then show ?thesis using assms answered_cmdDATA [of E s go t] answered_cmdSTARTTLS [of s args]
    by (auto simp: dispatch_def)
next
  case False
  have "answered s (cmdEHLO E args s)" "answered s (cmdHELO args s)" "answered s (cmdRSET s)" "answered s (cmdQUIT s)"
    by (simp_all add: cmdHELO_def cmdEHLO_def makeEHLOResponse_def cmdRSET_def cmdQUIT_def Let_def answered_writef)
  then have "answered s (snd (dispatch E verb args s))"
    using False by (simp add: dispatch_def answered_cmdMAIL answered_cmdRCPT answered_cmdXCLIENT
        answered_cmdAUTH [OF assms(2)])
  then show ?thesis using assms(1) by simp
qed

text \<open>
  C23: Every command line that a session reads gets exactly one final reply: the command writes
  intermediate replies, whose code begins with 3, and then one reply that is none, as its last.
  There are two exceptions.  A STARTTLS whose handshake fails is answered by the 220 that opens
  the handshake and by a 403.  And a DATA in the middle of which the connection breaks, other than
  by a timeout, ends the session after the 354.  The texts of the errors that the handlers and
  the connection give, and that are sent as replies, must not begin with 3 themselves.
\<close>

theorem every_command_answered:
  assumes "inp s = Line line # rest" "serveStep E s = (go, t)" "plain_texts s"
  shows "(\<exists>es l. out t = out s @ es @ [Wrote l] \<and> list_all interim es \<and> \<not> has_prefix l ''3'') \<or>
    fst (parseLine (trim_space line)) = ''STARTTLS'' \<and>
      out t = out s @ [Wrote tls_ready, Wrote ''403 4.7.0 TLS handshake failed''] \<or>
    fst (parseLine (trim_space line)) = ''DATA'' \<and> \<not> go \<and> out t = out s @ [Wrote data_start] \<and>
      (\<exists>e. ReadFail e \<in> set rest \<and> is_net_error e \<and> \<not> is_net_timeout e)"
proof -
  let ?s = "s\<lparr>inp := rest\<rparr>"
  obtain verb args where p: "parseLine (trim_space line) = (verb, args)" by (cases "parseLine (trim_space line)")
  have "dispatch E verb args ?s = (go, t)" using assms(1,2) p by (simp add: serveStep_line)
  moreover have "plain_texts ?s" using assms(1,3) by (simp add: plain_texts_def)
  ultimately have "answered ?s t \<or>
      verb = ''STARTTLS'' \<and> out t = out ?s @ [Wrote tls_ready, Wrote ''403 4.7.0 TLS handshake failed''] \<or>
      verb = ''DATA'' \<and> cut_off ?s go t"
    by (rule answered_dispatch)
  then show ?thesis using p by (simp add: answered_def cut_off_def)
qed

lemma every_command_answered_witness:
  "\<exists>es l. out (snd (serveStep demo_env ((demo_session False)\<lparr>inp := [Line (''NOOP'' @ crlf)]\<rparr>))) = es @ [Wrote l] \<and>
     list_all interim es \<and> \<not> has_prefix l ''3''"
proof -
  let ?s = "(demo_session False)\<lparr>inp := [Line (''NOOP'' @ crlf)]\<rparr>"
  have p: "parseLine (trim_space (''NOOP'' @ crlf)) = (''NOOP'', [])" by code_simp
  have "plain_texts ?s"
    by (auto simp: plain_texts_def plain_handlers_def demo_session_def newSession_def demo_server_def Let_def)
  then have "\<exists>es l. out (snd (serveStep demo_env ?s)) = out ?s @ es @ [Wrote l] \<and> list_all interim es \<and> \<not> has_prefix l ''3''"
    using every_command_answered [of ?s "''NOOP'' @ crlf" "[]" demo_env "fst (serveStep demo_env ?s)"] p by simp
  then show ?thesis by (auto simp: demo_session_def newSession_def Let_def)
qed

end
