(* ===== verification/Identity.thy ===== *)
theory Identity
  imports Go_Strings
begin

text \<open>
  The login names of \<open>internal/identity/email.go\<close>: \<open>ExpandLocalPart\<close> completes what the
  user typed to an address, \<open>RemoteAuthEmail\<close> turns a login into what the remote API's
  \<open>account/authorization\<close> expects.  The two are used one after the other on every login.
\<close>

section \<open>Operations\<close>

definition ExpandLocalPart :: "string \<Rightarrow> string \<Rightarrow> string" where
  "ExpandLocalPart login0 defaultDomain0 =
     (let login = trim_space login0;
          defaultDomain = trim_prefix (trim_space defaultDomain0) ''@'' in
      if defaultDomain = [] \<or> CHR ''@'' \<in> set login then login
      else login @ ''@'' @ defaultDomain)"

definition RemoteAuthEmail :: "string \<Rightarrow> bool \<Rightarrow> string" where
  "RemoteAuthEmail login0 localPartOnly =
     (let login = trim_space login0 in
      if \<not> localPartOnly \<or> login = [] then login
      else case cut_char CHR ''@'' login of
        Some (l, _) \<Rightarrow> if 0 < length l then l else login
      | None \<Rightarrow> login)"

section \<open>White space and a visible separator\<close>

lemma visible_mid_space3: "visible d \<Longrightarrow> \<not> space3 c d e"
  by (auto simp: visible_def space3_def)

lemma space_len_sep:
  "visible c \<Longrightarrow> space_len l = 0 \<Longrightarrow> space_len (l @ c # d) = 0"
proof (cases l rule: space_len.cases)
  case (2 a)
  assume "visible c" "space_len l = 0"
  with 2 show ?thesis
    by (cases d) (simp_all add: visible_not_space2 visible_mid_space3 split: if_splits)
qed (auto simp: visible_space_len visible_not_space3 split: if_splits)

lemma space_len_rev_sep:
  "visible c \<Longrightarrow> space_len_rev l = 0 \<Longrightarrow> space_len_rev (l @ c # d) = 0"
proof (cases l rule: space_len_rev.cases)
  case (2 a)
  assume "visible c" "space_len_rev l = 0"
  with 2 show ?thesis
    by (cases d) (simp_all add: visible_not_space2 visible_mid_space3 split: if_splits)
qed (auto simp: visible_space_len_rev visible_not_space3 split: if_splits)

lemma trim_space_sep:
  assumes "visible c" "space_len l = 0" "space_len_rev (rev d) = 0"
  shows "trim_space (l @ c # d) = l @ c # d"
  using assms by (intro trim_space_eq_self) (simp_all add: space_len_sep space_len_rev_sep)

lemma visible_at [simp]: "visible CHR ''@''"
  by (simp add: visible_def)

lemma space_len_rev_butfirst: "space_len_rev (l @ [m]) = 0 \<Longrightarrow> space_len_rev l = 0"
  by (cases l rule: space_len_rev.cases) (auto split: if_splits)

text \<open>The domain that is appended carries no white space at its end.\<close>

lemma domain_end: "space_len_rev (rev (trim_prefix (trim_space d) ''@'')) = 0"
proof (cases "trim_space d")
  case (Cons c t)
  then have "space_len_rev (rev t @ [c]) = 0" using space_len_rev_trim_space [of d] by simp
  then show ?thesis using Cons space_len_rev_butfirst [of "rev t" c]
    by (auto simp: trim_prefix_def)
qed (simp add: trim_prefix_def)

lemma trim_ExpandLocalPart [simp]: "trim_space (ExpandLocalPart l d) = ExpandLocalPart l d"
  using trim_space_sep [of "CHR ''@''" "trim_space l"] domain_end
  by (simp add: ExpandLocalPart_def Let_def)

section \<open>Properties\<close>

text \<open>
  Completing a login is idempotent, never leaves white space around it, and whenever a
  domain is configured the result is an address with an at sign.
\<close>

theorem ExpandLocalPart_idempotent:
  "ExpandLocalPart (ExpandLocalPart l d) d = ExpandLocalPart l d \<and>
   trim_space (ExpandLocalPart l d) = ExpandLocalPart l d \<and>
   (CHR ''@'' \<in> set (ExpandLocalPart l d) \<or> trim_prefix (trim_space d) ''@'' = [])"
proof -
  have at: "trim_prefix (trim_space d) ''@'' = [] \<or> CHR ''@'' \<in> set (ExpandLocalPart l d)"
    by (simp add: ExpandLocalPart_def Let_def)
  then have "ExpandLocalPart (ExpandLocalPart l d) d = trim_space (ExpandLocalPart l d)"
    unfolding ExpandLocalPart_def [of "ExpandLocalPart l d"] trim_ExpandLocalPart Let_def by simp
  with at show ?thesis by auto
qed

lemma ExpandLocalPart_idempotent_witness:
  "ExpandLocalPart (ExpandLocalPart ''bob'' ''@x.org'') ''@x.org'' = ExpandLocalPart ''bob'' ''@x.org''"
  using ExpandLocalPart_idempotent [of "''bob''" "''@x.org''"] by simp

text \<open>What a login has before its first at sign, blanks around it aside.\<close>

definition local_part :: "string \<Rightarrow> string" where
  "local_part l = takeWhile (\<lambda>c. c \<noteq> CHR ''@'') (trim_space l)"

lemma cut_char_takeWhile:
  "cut_char c s = (if c \<in> set s then Some (takeWhile (\<lambda>x. x \<noteq> c) s, tl (dropWhile (\<lambda>x. x \<noteq> c) s)) else None)"
  by (induction s) auto

lemma RemoteAuthEmail_local:
  "RemoteAuthEmail l b = (if b \<and> local_part l \<noteq> [] then local_part l else trim_space l)"
proof (cases "CHR ''@'' \<in> set (trim_space l)")
  case True
  then show ?thesis by (auto simp: RemoteAuthEmail_def local_part_def cut_char_takeWhile Let_def)
next
  case False
  then have "local_part l = trim_space l" unfolding local_part_def by (intro takeWhile_eq_all_conv [THEN iffD2]) auto
  then show ?thesis using False by (simp add: RemoteAuthEmail_def cut_char_takeWhile Let_def)
qed

lemma local_part_expanded:
  assumes "local_part l \<noteq> []"
  shows "local_part (ExpandLocalPart l d) = local_part l"
proof (cases "trim_prefix (trim_space d) ''@'' = [] \<or> CHR ''@'' \<in> set (trim_space l)")
  case True
  then have "ExpandLocalPart l d = trim_space l" by (auto simp: ExpandLocalPart_def Let_def)
  then show ?thesis by (simp add: local_part_def)
next
  case False
  then have expand: "ExpandLocalPart l d = trim_space l @ CHR ''@'' # trim_prefix (trim_space d) ''@''"
    by (simp add: ExpandLocalPart_def Let_def)
  have all: "\<And>c. c \<in> set (trim_space l) \<Longrightarrow> c \<noteq> CHR ''@''" using False by blast
  then have keep: "takeWhile (\<lambda>c. c \<noteq> CHR ''@'') (trim_space l) = trim_space l"
    unfolding takeWhile_eq_all_conv by blast
  have "local_part (ExpandLocalPart l d) = takeWhile (\<lambda>c. c \<noteq> CHR ''@'') (ExpandLocalPart l d)"
    by (simp only: local_part_def trim_ExpandLocalPart)
  also have "\<dots> = trim_space l" unfolding expand using all by (subst takeWhile_append2) auto
  also have "\<dots> = local_part l" by (simp only: local_part_def keep)
  finally show ?thesis .
qed

lemma local_part_blank: "local_part l = [] \<Longrightarrow> local_part (ExpandLocalPart l d) = []"
  unfolding local_part_def trim_ExpandLocalPart
  by (cases "trim_space l") (auto simp: ExpandLocalPart_def Let_def split: if_split_asm)

text \<open>
  C34: When only local parts are sent, and the login has one, the API is asked about this local
  part, whether the user typed it alone or with a domain, and whether or not the bridge completed
  the login with the default domain first.  In all other cases, when whole addresses are sent or
  the login has nothing before its first at sign, it is asked about the login as it is, without
  the blanks around it; then a login that was completed is asked about with its domain.
\<close>

theorem RemoteAuthEmail_expanded:
  "RemoteAuthEmail l b = (if b \<and> local_part l \<noteq> [] then local_part l else trim_space l) \<and>
   RemoteAuthEmail (ExpandLocalPart l d) b =
     (if b \<and> local_part l \<noteq> [] then local_part l else ExpandLocalPart l d)"
  using RemoteAuthEmail_local [of l b] RemoteAuthEmail_local [of "ExpandLocalPart l d" b]
    local_part_expanded [of l d] local_part_blank [of l d] by auto

lemma RemoteAuthEmail_expanded_witness:
  "RemoteAuthEmail (ExpandLocalPart '' bob'' ''x.org'') True = ''bob'' \<and>
   RemoteAuthEmail (ExpandLocalPart '' bob'' ''x.org'') False = ''bob@x.org''"
proof -
  have "trim_space '' bob'' = ''bob''" "trim_space ''x.org'' = ''x.org''" by code_simp+
  then have "local_part '' bob'' = ''bob''" "ExpandLocalPart '' bob'' ''x.org'' = ''bob@x.org''"
    by (simp_all add: local_part_def ExpandLocalPart_def trim_prefix_def)
  then show ?thesis
    using RemoteAuthEmail_expanded [of "'' bob''" True "''x.org''"]
      RemoteAuthEmail_expanded [of "'' bob''" False "''x.org''"] by simp
qed

end
