(* ===== verification/Config.thy ===== *)
theory Config
  imports Go_Strings
begin

text \<open>
  The settings of \<open>internal/config/config.go\<close>.  The environment is a function from names
  to values; a variable that is not set has the empty value, as \<open>os.Getenv\<close> returns it.
  A duration is an \<open>int64\<close> number of nanoseconds, and its arithmetic wraps.
\<close>

section \<open>The record and its sources\<close>

record config =
  RemoteHTTPBase :: string
  RemoteAssetBase :: string
  Lang :: string
  MailDefaultActionCurrentLang :: string
  MailViewCurrentLang :: string
  MailComposeCurrentLang :: string
  DefaultMailDomain :: string
  RemoteAuthEmailLocalPartOnly :: bool
  IMAPAddr :: string
  SMTPAddr :: string
  IMAPAllowInsecureAuth :: bool
  HTTPTimeout :: int
  MaxMailList :: int
  TrustProxyHeader :: bool
  RemoteHTTPTrace :: bool
  ProtocolLog :: bool
  TagDefaultColor :: string

type_synonym environment = "string \<Rightarrow> string"

definition getenv :: "environment \<Rightarrow> string \<Rightarrow> string \<Rightarrow> string" where
  "getenv env key def = (if env key \<noteq> [] then env key else def)"

definition getenvBool :: "environment \<Rightarrow> string \<Rightarrow> bool \<Rightarrow> bool" where
  "getenvBool env key def =
     (let v = to_lower (trim_space (env key)) in
      if v = [] then def else v = ''1'' \<or> v = ''true'' \<or> v = ''yes'')"

definition defaultMailDomain :: "environment \<Rightarrow> string" where
  "defaultMailDomain env =
     (let v = trim_space (env ''MAIL_DEFAULT_DOMAIN'') in
      if equal_fold v ''off'' \<or> v = ''-'' then [] else v)"

text \<open>The product of two \<open>int64\<close> values.\<close>

definition wrap64 :: "int \<Rightarrow> int" where
  "wrap64 i = (i + 9223372036854775808) mod 18446744073709551616 - 9223372036854775808"

definition second :: int where
  "second = 1000000000"

text \<open>A variable that holds a positive number, or else what to do without it.\<close>

definition env_positive :: "environment \<Rightarrow> string \<Rightarrow> (int \<Rightarrow> int) \<Rightarrow> int \<Rightarrow> int" where
  "env_positive env key f def =
     (if env key \<noteq> [] then
        (case atoi (env key) of (n, ok) \<Rightarrow> if ok \<and> 0 < n then f n else def)
      else def)"

definition assetBase :: "environment \<Rightarrow> string \<Rightarrow> string" where
  "assetBase env httpBase =
     (let a = trim_space (env ''REMOTE_ASSET_BASE'') in
      if a = [] then
        (if contains_str (to_lower httpBase) ''api.xyecoc.com'' then ''https://cdn.xyecoc.com'' else a)
      else a)"

definition Load :: "environment \<Rightarrow> config" where
  "Load env =
     (let timeout = env_positive env ''HTTP_TIMEOUT_SEC'' (\<lambda>n. wrap64 (n * second)) (60 * second);
          maxList = env_positive env ''MAX_MAIL_LIST'' (\<lambda>n. n) 5000;
          defHTTPTrace = equal_fold (trim_space (env ''LOG_LEVEL'')) ''debug'';
          httpBase = getenv env ''REMOTE_HTTP_BASE'' ''https://api.xyecoc.com'' in
      \<lparr>RemoteHTTPBase = httpBase,
       RemoteAssetBase = assetBase env httpBase,
       Lang = getenv env ''MAILBRIDGE_LANG'' ''ru'',
       MailDefaultActionCurrentLang = getenv env ''MAILBRIDGE_MAIL_CURRENT_LANG'' ''inbox'',
       MailViewCurrentLang = getenv env ''MAILBRIDGE_MAIL_VIEW_LANG'' ''mail'',
       MailComposeCurrentLang = getenv env ''MAILBRIDGE_MAIL_COMPOSE_LANG'' ''mail'',
       DefaultMailDomain = defaultMailDomain env,
       RemoteAuthEmailLocalPartOnly = getenvBool env ''REMOTE_AUTH_EMAIL_LOCAL_PART_ONLY'' True,
       IMAPAddr = getenv env ''IMAP_ADDR'' '':143'',
       SMTPAddr = getenv env ''SMTP_ADDR'' '':587'',
       IMAPAllowInsecureAuth = getenvBool env ''IMAP_ALLOW_INSECURE_AUTH'' True,
       HTTPTimeout = timeout,
       MaxMailList = maxList,
       TrustProxyHeader = getenv env ''TRUST_PROXY'' [] = ''1'',
       RemoteHTTPTrace = getenvBool env ''REMOTE_HTTP_TRACE'' defHTTPTrace,
       ProtocolLog = getenvBool env ''MAILBRIDGE_PROTOCOL_LOG'' False,
       TagDefaultColor =
         trim_prefix (trim_space (getenv env ''MAILBRIDGE_TAG_DEFAULT_COLOR'' ''ADACF1'')) ''#''\<rparr>)"

section \<open>Facts\<close>

lemma getenv_not_Nil: "def \<noteq> [] \<Longrightarrow> getenv env key def \<noteq> []"
  by (simp add: getenv_def)

lemma wrap64_range: "- 9223372036854775808 \<le> wrap64 i" "wrap64 i \<le> max_int"
  using pos_mod_bound [of 18446744073709551616 "i + 9223372036854775808"]
    pos_mod_sign [of 18446744073709551616 "i + 9223372036854775808"]
  by (simp_all add: wrap64_def max_int_def)

lemma wrap64_id: "- max_int - 1 \<le> i \<Longrightarrow> i \<le> max_int \<Longrightarrow> wrap64 i = i"
  by (simp add: wrap64_def max_int_def)

lemma env_positive_pos: "0 < def \<Longrightarrow> (\<And>n. 0 < n \<Longrightarrow> 0 < f n) \<Longrightarrow> 0 < env_positive env key f def"
  by (auto simp: env_positive_def split: prod.split)

lemma Load_fields [simp]:
  "MaxMailList (Load env) = env_positive env ''MAX_MAIL_LIST'' (\<lambda>n. n) 5000"
  "HTTPTimeout (Load env) = env_positive env ''HTTP_TIMEOUT_SEC'' (\<lambda>n. wrap64 (n * second)) (60 * second)"
  "RemoteHTTPBase (Load env) = getenv env ''REMOTE_HTTP_BASE'' ''https://api.xyecoc.com''"
  "IMAPAddr (Load env) = getenv env ''IMAP_ADDR'' '':143''"
  "SMTPAddr (Load env) = getenv env ''SMTP_ADDR'' '':587''"
  "DefaultMailDomain (Load env) = defaultMailDomain env"
  "RemoteAssetBase (Load env) = assetBase env (getenv env ''REMOTE_HTTP_BASE'' ''https://api.xyecoc.com'')"
  by (simp_all add: Load_def Let_def)

section \<open>Properties\<close>

text \<open>
  With an empty environment the settings are the defaults that the README lists.
\<close>

theorem Load_defaults:
  "Load (\<lambda>_. []) =
     \<lparr>RemoteHTTPBase = ''https://api.xyecoc.com'', RemoteAssetBase = ''https://cdn.xyecoc.com'',
      Lang = ''ru'', MailDefaultActionCurrentLang = ''inbox'', MailViewCurrentLang = ''mail'',
      MailComposeCurrentLang = ''mail'', DefaultMailDomain = [], RemoteAuthEmailLocalPartOnly = True,
      IMAPAddr = '':143'', SMTPAddr = '':587'', IMAPAllowInsecureAuth = True,
      HTTPTimeout = 60000000000, MaxMailList = 5000, TrustProxyHeader = False,
      RemoteHTTPTrace = False, ProtocolLog = False, TagDefaultColor = ''ADACF1''\<rparr>"
proof -
  have asset: "assetBase (\<lambda>_. []) ''https://api.xyecoc.com'' = ''https://cdn.xyecoc.com''"
    by (simp add: assetBase_def Let_def go_str)
  have domain: "defaultMailDomain (\<lambda>_. []) = []"
    by (simp add: defaultMailDomain_def Let_def)
  have debug: "equal_fold [] ''debug'' = False" by (simp add: go_str)
  have color: "trim_prefix (trim_space ''ADACF1'') ''#'' = ''ADACF1''"
    by (simp add: trim_space_all_visible visible_def trim_prefix_def)
  show ?thesis
    by (simp add: Load_def Let_def getenv_def getenvBool_def env_positive_def second_def asset domain
        debug color)
qed

text \<open>
  Whatever the environment, the list limit is positive, no address to serve or to call
  is empty, and the default domain is trimmed and is never the word that turns it off.
\<close>

theorem Load_usable:
  "0 < MaxMailList (Load env) \<and> RemoteHTTPBase (Load env) \<noteq> [] \<and> IMAPAddr (Load env) \<noteq> [] \<and>
   SMTPAddr (Load env) \<noteq> [] \<and> trim_space (DefaultMailDomain (Load env)) = DefaultMailDomain (Load env) \<and>
   \<not> equal_fold (DefaultMailDomain (Load env)) ''off''"
proof -
  have "\<not> equal_fold [] ''off''" by (simp add: go_str)
  then have "trim_space (defaultMailDomain env) = defaultMailDomain env \<and>
      \<not> equal_fold (defaultMailDomain env) ''off''"
    by (simp add: defaultMailDomain_def Let_def)
  then show ?thesis by (simp add: env_positive_pos getenv_not_Nil)
qed

text \<open>
  A timeout of up to 9223372036 seconds is taken as it is written.
\<close>

theorem Load_timeout:
  assumes "0 < n" "n \<le> 9223372036" "env ''HTTP_TIMEOUT_SEC'' = nat_str n"
  shows "HTTPTimeout (Load env) = int n * 1000000000"
proof -
  have "atoi (nat_str n) = (int n, True)" using assms by (intro atoi_nat_str) (simp add: max_int_def)
  moreover have "wrap64 (int n * second) = int n * 1000000000"
    using assms by (subst wrap64_id) (simp_all add: max_int_def second_def)
  ultimately show ?thesis using assms by (simp add: env_positive_def)
qed

lemma Load_timeout_witness:
  "HTTPTimeout (Load ((\<lambda>_. [])(''HTTP_TIMEOUT_SEC'' := nat_str 5))) = 5000000000"
  using Load_timeout [of 5 "(\<lambda>_. [])(''HTTP_TIMEOUT_SEC'' := nat_str 5)"] by simp

text \<open>
  One second more overflows the duration: the timeout becomes negative although the
  number that was written is positive and passes the check.
\<close>

theorem Load_timeout_overflow:
  "HTTPTimeout (Load ((\<lambda>_. [])(''HTTP_TIMEOUT_SEC'' := nat_str 9223372037))) = - 9223372036709551616"
proof -
  have "atoi (nat_str 9223372037) = (int 9223372037, True)"
    by (rule atoi_nat_str) (simp add: max_int_def)
  then show ?thesis by (simp add: env_positive_def second_def wrap64_def)
qed

end
