(* ===== verification/Mailbox_Names.thy ===== *)
theory Mailbox_Names
  imports Go_Strings
begin

text \<open>
  Mailbox names, \<open>internal/imapbackend/names.go\<close>: which IMAP name stands for which mailbox
  of the remote service (\<open>MailboxSpec\<close>), which names are reserved, how the label a user gave
  a folder or tag becomes a name for LIST that nothing else uses, and the parameters and
  page identifiers that the remote API expects.
\<close>

section \<open>Mailboxes of the service\<close>

record MailboxSpec =
  Param1 :: string
  Param2 :: string

definition specCacheKey :: "MailboxSpec \<Rightarrow> string" where
  "specCacheKey s = (if Param2 s \<noteq> [] then Param1 s @ ''/'' @ Param2 s else Param1 s)"

definition paramsFromSpec :: "MailboxSpec \<Rightarrow> string \<rightharpoonup> string" where
  "paramsFromSpec s =
     (let m = (if Param1 s \<noteq> [] then [''param_1'' \<mapsto> Param1 s] else Map.empty) in
      if Param2 s \<noteq> [] then m(''param_2'' \<mapsto> Param2 s) else m)"

text \<open>\<open>ParseMailboxName\<close>: the standard names, then \<open>folder-<id>\<close> and \<open>tag-<id>\<close>.\<close>

definition standard_spec :: "string \<Rightarrow> MailboxSpec option" where
  "standard_spec low =
     (if low = ''inbox'' then Some \<lparr>Param1 = ''inbox'', Param2 = []\<rparr>
      else if low = ''sent'' then Some \<lparr>Param1 = ''sent'', Param2 = []\<rparr>
      else if low = ''drafts'' then Some \<lparr>Param1 = ''draft'', Param2 = []\<rparr>
      else if low = ''trash'' then Some \<lparr>Param1 = ''trash'', Param2 = []\<rparr>
      else if low = ''junk'' \<or> low = ''spam'' then Some \<lparr>Param1 = ''spam'', Param2 = []\<rparr>
      else if low = ''important'' then Some \<lparr>Param1 = ''important'', Param2 = []\<rparr>
      else None)"

definition ParseMailboxName :: "string \<Rightarrow> MailboxSpec result" where
  "ParseMailboxName name =
     (let n = trim_space name; low = to_lower n in
      case standard_spec low of
        Some spec \<Rightarrow> Inr spec
      | None \<Rightarrow>
          if has_prefix low ''folder-'' then
            (let i = trim_prefix low ''folder-'' in
             if snd (atoi i) then Inr \<lparr>Param1 = ''folders'', Param2 = i\<rparr>
             else Inl (ErrText ''bad folder id''))
          else if has_prefix low ''tag-'' then
            (let i = trim_prefix low ''tag-'' in
             if snd (atoi i) then Inr \<lparr>Param1 = ''tags'', Param2 = i\<rparr>
             else Inl (ErrText ''bad tag id''))
          else Inl (ErrText (''unknown mailbox: '' @ name)))"

definition CanonicalName :: "MailboxSpec \<Rightarrow> string" where
  "CanonicalName spec =
     (let p = Param1 spec in
      if p = ''inbox'' then ''INBOX''
      else if p = ''sent'' then ''Sent''
      else if p = ''draft'' then ''Drafts''
      else if p = ''trash'' then ''Trash''
      else if p = ''spam'' then ''Junk''
      else if p = ''important'' then ''Important''
      else if p = ''folders'' then ''Folder-'' @ Param2 spec
      else if p = ''tags'' then ''Tag-'' @ Param2 spec
      else ''INBOX'')"

definition PageIDForMailboxSpec :: "MailboxSpec \<Rightarrow> string" where
  "PageIDForMailboxSpec spec =
     (let p = Param1 spec in
      if p = ''inbox'' then ''/inbox/''
      else if p = ''sent'' then ''/sent/''
      else if p = ''draft'' then ''/draft/''
      else if p = ''trash'' then ''/trash/''
      else if p = ''spam'' then ''/spam/''
      else if p = ''important'' then ''/important/''
      else if p = ''folders'' then
        (if Param2 spec \<noteq> [] then ''/inbox/folders/'' @ Param2 spec @ ''/'' else ''/inbox/'')
      else if p = ''tags'' then
        (if Param2 spec \<noteq> [] then ''/inbox/tags/'' @ Param2 spec @ ''/'' else ''/inbox/'')
      else ''/inbox/'')"

section \<open>Names from the user\<close>

definition sanitize_rune :: "rune \<Rightarrow> string" where
  "sanitize_rune r =
     (if r = 47 \<or> r = 92 then ''-''
      else if r = 0 \<or> r = 13 \<or> r = 10 then []
      else if is_control r then []
      else encode_rune r)"

definition sanitizeIMAPMailboxName :: "string \<Rightarrow> string" where
  "sanitizeIMAPMailboxName s0 =
     (let s = trim_space s0 in
      if s = [] then []
      else let res = trim_space (concat (map sanitize_rune (runes s))) in
        if 200 < length res then take 200 res else res)"

text \<open>The trimmed segments of a path, both kinds of slash separating them.\<close>

definition path_segments :: "string \<Rightarrow> string list" where
  "path_segments s = map trim_space (split_char CHR ''/'' (replace_char (CHR 0x5C) ''/'' s))"

definition imapMailboxLeaf :: "string \<Rightarrow> string" where
  "imapMailboxLeaf name =
     (let s = trim_space name in
      if s = [] then []
      else case find (\<lambda>t. t \<noteq> []) (rev (path_segments s)) of
        Some t \<Rightarrow> t
      | None \<Rightarrow> replace_char (CHR 0x5C) ''/'' s)"

definition isReservedStandardName :: "string \<Rightarrow> bool" where
  "isReservedStandardName lower \<longleftrightarrow>
     lower \<in> {''inbox'', ''sent'', ''drafts'', ''junk'', ''spam'', ''trash'', ''important''}"

definition tagCreateDisplayName :: "string \<Rightarrow> string option" where
  "tagCreateDisplayName imapName =
     (let s = trim_space imapName in
      if s = [] then None
      else case filter (\<lambda>t. t \<noteq> []) (path_segments s) of
        seg # segs \<Rightarrow>
          if segs = [] then None
          else if to_lower seg = ''tag'' \<or> to_lower seg = ''labels'' then
            (let rest = sanitizeIMAPMailboxName (join_str ''/'' segs) in
             if rest = [] then None
             else if isReservedStandardName (to_lower rest) then None
             else Some rest)
          else None
      | [] \<Rightarrow> None)"

definition reserved_name :: go_error where
  "reserved_name = ErrText ''reserved mailbox name''"

definition folderNameForAPI :: "string \<Rightarrow> string result" where
  "folderNameForAPI imapName =
     (let s = trim_space imapName in
      if s = [] then Inl (ErrText ''empty mailbox name'')
      else case find (\<lambda>t. t \<noteq> []) (rev (path_segments s)) of
        None \<Rightarrow> Inl (ErrText ''invalid mailbox name'')
      | Some leaf0 \<Rightarrow>
          (let leaf = sanitizeIMAPMailboxName leaf0 in
           if leaf = [] then Inl (ErrText ''invalid mailbox name'')
           else if isReservedStandardName (to_lower leaf) then Inl reserved_name
           else case ParseMailboxName leaf of
             Inr spec \<Rightarrow>
               if Param1 spec \<noteq> ''folders'' \<and> Param1 spec \<noteq> ''tags'' then Inl reserved_name
               else Inr leaf
           | Inl _ \<Rightarrow> Inr leaf))"

section \<open>Names for LIST\<close>

text \<open>
  The candidates of \<open>uniqueDisplayName\<close> in the order they are tried: the name itself, the
  name with the mailbox in brackets, then \<open>name~2\<close>, \<open>name~3\<close> and so on.
\<close>

definition name_candidate :: "string \<Rightarrow> MailboxSpec \<Rightarrow> nat \<Rightarrow> string" where
  "name_candidate base spec i =
     (if i = 0 then base
      else if i = 1 then base @ '' ['' @ Param1 spec @ '' '' @ Param2 spec @ '']''
      else base @ ''~'' @ nat_str i)"

lemma name_candidate_inject: "name_candidate b s i = name_candidate b s j \<longleftrightarrow> i = j"
  by (auto simp: name_candidate_def nat_str_inject)

lemma finite_taken: "finite {j. i \<le> j \<and> name_candidate b s j \<in> set occ}"
proof -
  have "inj (name_candidate b s)" by (rule injI) (simp add: name_candidate_inject)
  then have "finite (name_candidate b s -` set occ)" by (intro finite_vimageI) simp
  then show ?thesis by (rule rev_finite_subset) auto
qed

text \<open>The loop; it ends because only finitely many names are occupied.\<close>

function pickName :: "string \<Rightarrow> MailboxSpec \<Rightarrow> string list \<Rightarrow> nat \<Rightarrow> string" where
  "pickName base spec occupied i =
     (let candidate = name_candidate base spec i in
      if candidate \<notin> set occupied then candidate
      else pickName base spec occupied (Suc i))"
  by pat_completeness auto
termination
proof (relation "measure (\<lambda>(b, s, occ, i). card {j. i \<le> j \<and> name_candidate b s j \<in> set occ})")
  fix b s occ i c
  assume "c = name_candidate b s i" "\<not> c \<notin> set occ"
  then have "name_candidate b s i \<in> set occ" by simp
  then have "{j. Suc i \<le> j \<and> name_candidate b s j \<in> set occ} \<subset> {j. i \<le> j \<and> name_candidate b s j \<in> set occ}"
    by (auto simp: psubset_eq dest: Suc_leD intro: le_refl) (metis (mono_tags, lifting) le_refl mem_Collect_eq not_less_eq_eq)
  then show "((b, s, occ, Suc i), (b, s, occ, i)) \<in>
      measure (\<lambda>(b, s, occ, i). card {j. i \<le> j \<and> name_candidate b s j \<in> set occ})"
    by (simp add: psubset_card_mono finite_taken)
qed simp

declare pickName.simps [simp del]

text \<open>Both functions return the name and what is occupied afterwards.\<close>

definition uniqueDisplayName :: "string \<Rightarrow> MailboxSpec \<Rightarrow> string list \<Rightarrow> string \<times> string list" where
  "uniqueDisplayName apiName spec occupied =
     (let b0 = sanitizeIMAPMailboxName apiName;
          b1 = (if b0 = [] then CanonicalName spec else b0);
          base = (if isReservedStandardName (to_lower b1) then CanonicalName spec else b1);
          name = pickName base spec occupied 0
      in (name, name # occupied))"

definition uniqueTagDisplayName :: "string \<Rightarrow> MailboxSpec \<Rightarrow> string list \<Rightarrow> string \<times> string list" where
  "uniqueTagDisplayName tagName spec occupied =
     (let b0 = sanitizeIMAPMailboxName tagName;
          b1 = (if b0 = [] then Param2 spec else b0);
          base = (if isReservedStandardName (to_lower b1) then Param2 spec else b1);
          name = pickName (''Tag-'' @ base) spec occupied 0
      in (name, name # occupied))"

lemma pickName_fresh: "pickName base spec occupied i \<notin> set occupied"
proof (induction base spec occupied i rule: pickName.induct)
  case (1 base spec occupied i)
  then show ?case by (subst pickName.simps) (simp add: Let_def)
qed

lemma pickName_is_candidate: "\<exists>j \<ge> i. pickName base spec occupied i = name_candidate base spec j"
proof (induction base spec occupied i rule: pickName.induct)
  case (1 base spec occupied i)
  show ?case
  proof (cases "name_candidate base spec i \<in> set occupied")
    case True
    with 1 obtain j where "j \<ge> Suc i" "pickName base spec occupied (Suc i) = name_candidate base spec j"
      by auto
    with True show ?thesis by (subst pickName.simps) (auto simp: Let_def intro: exI [of _ j])
  qed (subst pickName.simps, auto simp: Let_def)
qed

lemma pickName_first: "name_candidate base spec i \<notin> set occupied \<Longrightarrow>
  pickName base spec occupied i = name_candidate base spec i"
  by (subst pickName.simps) simp

section \<open>Specs, names and keys\<close>

definition standard_params :: "string list" where
  "standard_params = [''inbox'', ''sent'', ''draft'', ''trash'', ''spam'', ''important'']"

definition spec_ok :: "MailboxSpec \<Rightarrow> bool" where
  "spec_ok s \<longleftrightarrow>
     (Param1 s \<in> set standard_params \<and> Param2 s = []) \<or>
     ((Param1 s = ''folders'' \<or> Param1 s = ''tags'') \<and> snd (atoi (Param2 s)))"

lemma standard_spec_ok: "standard_spec low = Some spec \<Longrightarrow> spec_ok spec"
  by (simp only: standard_spec_def option.inject option.distinct split: if_split_asm)
    (clarsimp simp: spec_ok_def standard_params_def)+

lemma ParseMailboxName_ok: "ParseMailboxName n = Inr spec \<Longrightarrow> spec_ok spec"
  by (auto simp: ParseMailboxName_def Let_def spec_ok_def dest: standard_spec_ok
      split: option.splits if_splits)

lemma atoi_ok_lower:
  assumes "snd (atoi s)"
  shows "to_lower s = s" "s \<noteq> []" "\<forall>c \<in> set s. visible c" "CHR ''/'' \<notin> set s"
proof -
  obtain i where a: "atoi s = (i, True)" using assms by (cases "atoi s") auto
  then show "s \<noteq> []" "\<forall>c \<in> set s. visible c" using atoi_ok_visible by blast+
  then obtain c t where s: "s = c # t" by (cases s) auto
  have "\<not> is_digit CHR ''/''" by (simp add: is_digit_def)
  moreover have "(c = CHR ''-'' \<or> c = CHR ''+'') \<and> (\<forall>d \<in> set t. is_digit d) \<or> (\<forall>d \<in> set s. is_digit d)"
    using a s by (auto split: if_splits dest!: atoi_digits_ok)
  ultimately show "to_lower s = s" "CHR ''/'' \<notin> set s"
    using s by (auto simp: to_lower_digits to_lower_Cons lower_char_other)
qed

lemma parse_numbered:
  assumes "snd (atoi i)"
  shows "ParseMailboxName (''Folder-'' @ i) = Inr \<lparr>Param1 = ''folders'', Param2 = i\<rparr>"
    and "ParseMailboxName (''Tag-'' @ i) = Inr \<lparr>Param1 = ''tags'', Param2 = i\<rparr>"
proof -
  note i = atoi_ok_lower [OF assms]
  have "trim_space (''Folder-'' @ i) = ''Folder-'' @ i" "trim_space (''Tag-'' @ i) = ''Tag-'' @ i"
    using i by (auto intro!: trim_space_all_visible simp: visible_def)
  moreover have "to_lower (''Folder-'' @ i) = ''folder-'' @ i" "to_lower (''Tag-'' @ i) = ''tag-'' @ i"
    using i(1) by (simp_all add: to_lower_Cons lower_char_letters lower_char_other)
  moreover have "standard_spec (''folder-'' @ i) = None" "standard_spec (''tag-'' @ i) = None"
    by (simp_all add: standard_spec_def)
  moreover have "\<not> has_prefix (''tag-'' @ i) ''folder-''" by simp
  ultimately show "ParseMailboxName (''Folder-'' @ i) = Inr \<lparr>Param1 = ''folders'', Param2 = i\<rparr>"
    and "ParseMailboxName (''Tag-'' @ i) = Inr \<lparr>Param1 = ''tags'', Param2 = i\<rparr>"
    using assms unfolding ParseMailboxName_def Let_def by (simp_all only:) (simp_all add: trim_prefix_def)
qed

lemma parse_standard:
  "ParseMailboxName ''INBOX'' = Inr \<lparr>Param1 = ''inbox'', Param2 = []\<rparr>"
  "ParseMailboxName ''Sent'' = Inr \<lparr>Param1 = ''sent'', Param2 = []\<rparr>"
  "ParseMailboxName ''Drafts'' = Inr \<lparr>Param1 = ''draft'', Param2 = []\<rparr>"
  "ParseMailboxName ''Trash'' = Inr \<lparr>Param1 = ''trash'', Param2 = []\<rparr>"
  "ParseMailboxName ''Junk'' = Inr \<lparr>Param1 = ''spam'', Param2 = []\<rparr>"
  "ParseMailboxName ''Important'' = Inr \<lparr>Param1 = ''important'', Param2 = []\<rparr>"
  by (simp_all add: ParseMailboxName_def Let_def trim_space_all_visible visible_def to_lower_Cons
      lower_char_letters lower_char_other standard_spec_def)

lemma parse_CanonicalName:
  assumes "spec_ok spec"
  shows "ParseMailboxName (CanonicalName spec) = Inr spec"
proof (cases spec)
  case (fields p q)
  with assms consider "p \<in> set standard_params" "q = []"
    | "p = ''folders''" "snd (atoi q)" | "p = ''tags''" "snd (atoi q)"
    by (auto simp: spec_ok_def)
  then show ?thesis
  proof cases
    case 1
    then show ?thesis
      by (auto simp: standard_params_def fields CanonicalName_def Let_def parse_standard)
  qed (simp_all add: fields CanonicalName_def Let_def parse_numbered [simplified])
qed

text \<open>
  C28: The canonical name of a mailbox, the one LIST shows and the bridge stores, is parsed
  back to that very mailbox, for everything the parser can return; in particular reading a
  name and writing it canonically never changes which mailbox it means.
\<close>

theorem mailbox_name_roundtrip:
  "(spec_ok spec \<longrightarrow> ParseMailboxName (CanonicalName spec) = Inr spec) \<and>
   (ParseMailboxName n = Inr spec \<longrightarrow> ParseMailboxName (CanonicalName spec) = Inr spec)"
  using parse_CanonicalName ParseMailboxName_ok by blast

lemma mailbox_name_roundtrip_witness:
  "ParseMailboxName (CanonicalName \<lparr>Param1 = ''folders'', Param2 = nat_str 12\<rparr>) =
     Inr \<lparr>Param1 = ''folders'', Param2 = nat_str 12\<rparr>"
  using mailbox_name_roundtrip [of "\<lparr>Param1 = ''folders'', Param2 = nat_str 12\<rparr>" "[]"]
  by (simp add: spec_ok_def atoi_nat_str max_int_def)

text \<open>Keys and page identifiers determine the mailbox by the segments between their slashes.\<close>

lemma spec_ok_cases:
  assumes "spec_ok u"
  obtains "Param1 u \<in> set standard_params" "Param2 u = []"
    | "Param1 u \<in> {''folders'', ''tags''}" "Param2 u \<noteq> []" "CHR ''/'' \<notin> set (Param2 u)"
  using assms atoi_ok_lower(2,4) unfolding spec_ok_def by blast

lemma spec_ok_no_slash: "spec_ok u \<Longrightarrow> CHR ''/'' \<notin> set (Param1 u)"
  by (elim spec_ok_cases) (auto simp: standard_params_def)

lemma PageID_form:
  assumes "spec_ok u"
  shows "PageIDForMailboxSpec u =
    (if Param2 u = [] then CHR ''/'' # Param1 u @ ''/'' else ''/inbox/'' @ Param1 u @ ''/'' @ Param2 u @ ''/'')"
  using assms
proof (cases rule: spec_ok_cases)
  case 1
  then show ?thesis unfolding standard_params_def list.set
    by (elim insertE emptyE) (simp_all add: PageIDForMailboxSpec_def)
next
  case 2
  then show ?thesis by (elim insertE emptyE) (simp_all add: PageIDForMailboxSpec_def)
qed

lemma split_cacheKey:
  assumes "spec_ok u"
  shows "split_char CHR ''/'' (specCacheKey u) =
    (if Param2 u = [] then [Param1 u] else [Param1 u, Param2 u])"
  using assms spec_ok_no_slash [OF assms]
  by (cases rule: spec_ok_cases) (simp_all add: specCacheKey_def split_char_cut split_char_no_sep)

lemma split_inbox: "split_char CHR ''/'' (''/inbox/'' @ s) = [] # ''inbox'' # split_char CHR ''/'' s"
  using split_char_cut [of "CHR ''/''" "[]" "''inbox/'' @ s"] split_char_cut [of "CHR ''/''" "''inbox''" s]
  by simp

lemma split_PageID:
  assumes "spec_ok u"
  shows "split_char CHR ''/'' (PageIDForMailboxSpec u) =
    (if Param2 u = [] then [[], Param1 u, []] else [[], ''inbox'', Param1 u, Param2 u, []])"
  using assms
proof (cases rule: spec_ok_cases)
  case 1
  then show ?thesis using spec_ok_no_slash [OF assms] split_char_cut [of "CHR ''/''" "[]"]
    by (simp add: PageID_form [OF assms] split_char_cut)
next
  case 2
  then show ?thesis using spec_ok_no_slash [OF assms]
    by (simp only: PageID_form [OF assms] if_False split_inbox)
      (simp add: split_char_cut split_char_no_sep)
qed

lemma MailboxSpec_eqI: "Param1 s = Param1 t \<Longrightarrow> Param2 s = Param2 t \<Longrightarrow> s = (t :: MailboxSpec)"
  by (cases s; cases t) simp

text \<open>
  C27: Two different mailboxes never share a cache key, a page identifier or a canonical
  name, so neither a cached list nor a mail action can reach the wrong one.
\<close>

theorem mailbox_keys_injective:
  assumes "spec_ok s" "spec_ok t"
  shows "(specCacheKey s = specCacheKey t \<longleftrightarrow> s = t) \<and>
    (PageIDForMailboxSpec s = PageIDForMailboxSpec t \<longleftrightarrow> s = t) \<and>
    (CanonicalName s = CanonicalName t \<longleftrightarrow> s = t)"
proof -
  have "s = t" if "specCacheKey s = specCacheKey t"
    using arg_cong [OF that, of "split_char CHR ''/''"]
    unfolding split_cacheKey [OF assms(1)] split_cacheKey [OF assms(2)]
    by (intro MailboxSpec_eqI) (simp_all split: if_split_asm)
  moreover have "s = t" if "PageIDForMailboxSpec s = PageIDForMailboxSpec t"
    using arg_cong [OF that, of "split_char CHR ''/''"]
    unfolding split_PageID [OF assms(1)] split_PageID [OF assms(2)]
    by (intro MailboxSpec_eqI) (simp_all split: if_split_asm)
  moreover have "s = t" if "CanonicalName s = CanonicalName t"
    using arg_cong [OF that, of ParseMailboxName]
    unfolding parse_CanonicalName [OF assms(1)] parse_CanonicalName [OF assms(2)] by simp
  ultimately show ?thesis by blast
qed

lemma mailbox_keys_injective_witness:
  "specCacheKey \<lparr>Param1 = ''folders'', Param2 = nat_str 1\<rparr> \<noteq> specCacheKey \<lparr>Param1 = ''tags'', Param2 = nat_str 1\<rparr>"
  using mailbox_keys_injective [of "\<lparr>Param1 = ''folders'', Param2 = nat_str 1\<rparr>"
      "\<lparr>Param1 = ''tags'', Param2 = nat_str 1\<rparr>"]
  by (simp add: spec_ok_def atoi_nat_str max_int_def)

section \<open>Sanitized names\<close>

text \<open>A name that is safe in an IMAP response and has no hierarchy.\<close>

definition safe_name :: "string \<Rightarrow> bool" where
  "safe_name s \<longleftrightarrow> length s \<le> 200 \<and>
     (\<forall>c \<in> set s. c \<noteq> CHR ''/'' \<and> c \<noteq> CHR 0x5C \<and> 32 \<le> byte c \<and> byte c \<noteq> 127)"

lemma encode_rune_bytes: "128 \<le> r \<Longrightarrow> c \<in> set (encode_rune r) \<Longrightarrow> 128 \<le> byte c"
proof -
  assume r: "128 \<le> r" and c: "c \<in> set (encode_rune r)"
  have b: "128 + n mod 64 < 256" "r < 2048 \<Longrightarrow> 192 + r div 64 < 256" "r < 65536 \<Longrightarrow> 224 + r div 4096 < 256"
    "r \<le> 1114111 \<Longrightarrow> 240 + r div 262144 < 256" for n :: nat
    using mod_less_divisor [of 64 n] by (simp, linarith?)+
  then have "m < 256 \<Longrightarrow> byte (char_of m) = m" for m by simp
  with r c b show ?thesis by (auto simp: encode_rune_def split: if_splits)
qed

lemma sanitize_rune_bytes:
  "c \<in> set (sanitize_rune r) \<Longrightarrow> c \<noteq> CHR ''/'' \<and> c \<noteq> CHR 0x5C \<and> 32 \<le> byte c \<and> byte c \<noteq> 127"
proof (cases "r = 47 \<or> r = 92 \<or> 128 \<le> r")
  case True
  assume c: "c \<in> set (sanitize_rune r)"
  show ?thesis
  proof (cases "128 \<le> r")
    case True
    with c have "128 \<le> byte c" using encode_rune_bytes [of r c]
      by (auto simp: sanitize_rune_def split: if_splits)
    then show ?thesis by auto
  next
    case False
    with c True have "c = CHR ''-''" by (auto simp: sanitize_rune_def)
    then show ?thesis by simp
  qed
next
  case False
  assume "c \<in> set (sanitize_rune r)"
  with False have "c = char_of r" "r \<noteq> 47" "r \<noteq> 92" "32 \<le> r" "r \<noteq> 127"
    by (auto simp: sanitize_rune_def is_control_def split: if_splits)
  moreover from this have "byte c = r" using False by simp
  ultimately have "byte c \<noteq> byte CHR ''/''" "byte c \<noteq> byte CHR 0x5C" "32 \<le> byte c" "byte c \<noteq> 127"
    by simp_all
  then show ?thesis by blast
qed

lemma sanitize_safe: "safe_name (sanitizeIMAPMailboxName s)"
proof -
  let ?r = "trim_space (concat (map sanitize_rune (runes (trim_space s))))"
  have "c \<noteq> CHR ''/'' \<and> c \<noteq> CHR 0x5C \<and> 32 \<le> byte c \<and> byte c \<noteq> 127" if "c \<in> set ?r" for c
    using that set_trim_space sanitize_rune_bytes by fastforce
  then show ?thesis
    by (auto simp: safe_name_def sanitizeIMAPMailboxName_def Let_def dest!: in_set_takeD)
qed

lemma sanitize_plain:
  assumes "\<forall>c \<in> set s. visible c \<and> c \<noteq> CHR ''/'' \<and> c \<noteq> CHR 0x5C" "length s \<le> 200"
  shows "sanitizeIMAPMailboxName s = s"
proof -
  have "sanitize_rune (byte c) = [c]" if "c \<in> set s" for c
  proof -
    have "byte c = byte CHR ''/'' \<longleftrightarrow> c = CHR ''/''" "byte c = byte CHR 0x5C \<longleftrightarrow> c = CHR 0x5C"
      by (rule byte_inject)+
    moreover have "c \<noteq> CHR ''/''" "c \<noteq> CHR 0x5C" "33 \<le> byte c" "byte c \<le> 126"
      using assms(1) that unfolding visible_def by blast+
    ultimately show ?thesis by (simp add: sanitize_rune_def is_control_def)
  qed
  then have "concat (map sanitize_rune (map byte s)) = s" by (induction s) auto
  moreover have "runes s = map byte s"
    using assms(1) visible_ascii unfolding ascii_def [symmetric]
    by (intro runes_ascii) (unfold ascii_def, blast)
  moreover have "trim_space s = s" using assms(1) by (intro trim_space_all_visible) blast
  ultimately show ?thesis using assms(2) by (simp add: sanitizeIMAPMailboxName_def)
qed

text \<open>
  C33: A name that CREATE sends to the service, for a folder or for a tag, is never empty,
  never longer than 200 bytes, holds no separator and no control character, is no standard
  mailbox name, and is not read back as a standard mailbox.
\<close>

theorem create_names_safe:
  "(folderNameForAPI name = Inr leaf \<longrightarrow>
      safe_name leaf \<and> leaf \<noteq> [] \<and> \<not> isReservedStandardName (to_lower leaf) \<and>
      (\<forall>spec. ParseMailboxName leaf = Inr spec \<longrightarrow> Param1 spec \<in> {''folders'', ''tags''})) \<and>
   (tagCreateDisplayName name = Some label \<longrightarrow>
      safe_name label \<and> label \<noteq> [] \<and> \<not> isReservedStandardName (to_lower label))"
proof (intro conjI impI)
  assume f: "folderNameForAPI name = Inr leaf"
  then obtain l where l: "leaf = sanitizeIMAPMailboxName l" "leaf \<noteq> []"
      "\<not> isReservedStandardName (to_lower leaf)"
    by (auto simp: folderNameForAPI_def Let_def split: if_splits option.splits sum.splits)
  from f show "\<forall>spec. ParseMailboxName leaf = Inr spec \<longrightarrow> Param1 spec \<in> {''folders'', ''tags''}"
    by (auto simp: folderNameForAPI_def Let_def split: if_splits option.splits sum.splits)
  from l show "safe_name leaf" "leaf \<noteq> []" "\<not> isReservedStandardName (to_lower leaf)"
    by (simp_all add: sanitize_safe)
next
  assume "tagCreateDisplayName name = Some label"
  then obtain l where "label = sanitizeIMAPMailboxName l" "label \<noteq> []"
      "\<not> isReservedStandardName (to_lower label)"
    by (auto simp: tagCreateDisplayName_def Let_def split: if_splits list.splits)
  then show "safe_name label" "label \<noteq> []" "\<not> isReservedStandardName (to_lower label)"
    by (simp_all add: sanitize_safe)
qed

lemma create_names_safe_witness:
  "safe_name ''Work'' \<and> \<not> isReservedStandardName (to_lower ''Work'')"
proof -
  have plain: "sanitizeIMAPMailboxName ''Work'' = ''Work''"
    by (rule sanitize_plain) (simp_all add: visible_def)
  have lower: "to_lower ''Work'' = ''work''" by (simp add: to_lower_Cons lower_char_letters lower_char_other)
  have trim: "trim_space ''Work'' = ''Work''" by (simp add: trim_space_all_visible visible_def)
  have seg: "path_segments ''Work'' = [''Work'']"
    by (simp add: path_segments_def replace_char_notin split_char_no_sep trim)
  have parse: "ParseMailboxName ''Work'' = Inl (ErrText (''unknown mailbox: '' @ ''Work''))"
    unfolding ParseMailboxName_def trim Let_def lower by (simp add: standard_spec_def)
  have "\<not> isReservedStandardName ''work''" by (simp add: isReservedStandardName_def)
  then have "folderNameForAPI ''Work'' = Inr ''Work''"
    unfolding folderNameForAPI_def trim Let_def seg by (simp add: plain lower parse)
  then show ?thesis using create_names_safe [of "''Work''" "''Work''" "[]"] by simp
qed

section \<open>The contract of a naming function\<close>

text \<open>
  What LIST relies on: the name is not occupied and becomes occupied.  \<open>assignNames\<close> names
  a list of things one after the other.
\<close>

fun assignNames ::
    "('a \<Rightarrow> string list \<Rightarrow> string \<times> string list) \<Rightarrow> 'a list \<Rightarrow> string list \<Rightarrow> string list \<times> string list" where
  "assignNames pick [] occ = ([], occ)"
| "assignNames pick (x # xs) occ =
     (case pick x occ of (n, occ1) \<Rightarrow>
        case assignNames pick xs occ1 of (ns, occ2) \<Rightarrow> (n # ns, occ2))"

locale fresh_naming =
  fixes pick :: "'a \<Rightarrow> string list \<Rightarrow> string \<times> string list"
  assumes fresh: "fst (pick x occ) \<notin> set occ"
    and occupies: "snd (pick x occ) = fst (pick x occ) # occ"
begin

lemma pick_split: "pick x occ = (n, occ') \<Longrightarrow> n \<notin> set occ \<and> occ' = n # occ"
  using fresh [of x occ] occupies [of x occ] by simp

lemma assign_occupied:
  "snd (assignNames pick xs occ) = rev (fst (assignNames pick xs occ)) @ occ"
proof (induction xs arbitrary: occ)
  case (Cons x xs)
  obtain n occ1 where p: "pick x occ = (n, occ1)" by (cases "pick x occ")
  with pick_split Cons.IH [of occ1] show ?case by (auto split: prod.splits)
qed simp

lemma assign_length: "length (fst (assignNames pick xs occ)) = length xs"
  by (induction xs arbitrary: occ) (auto split: prod.splits, metis fst_conv)

lemma assign_fresh:
  "distinct occ \<Longrightarrow> distinct (fst (assignNames pick xs occ) @ occ)"
proof (induction xs arbitrary: occ)
  case (Cons x xs)
  obtain n occ1 where p: "pick x occ = (n, occ1)" by (cases "pick x occ")
  then have "n \<notin> set occ" "occ1 = n # occ" using pick_split by auto
  moreover obtain ns occ2 where "assignNames pick xs occ1 = (ns, occ2)"
    by (cases "assignNames pick xs occ1")
  ultimately show ?case using Cons.IH [of occ1] Cons.prems p by auto
qed simp

end

interpretation folder_naming: fresh_naming "\<lambda>(name, spec). uniqueDisplayName name spec"
  by unfold_locales (auto simp: uniqueDisplayName_def Let_def pickName_fresh)

interpretation tag_naming: fresh_naming "\<lambda>(name, spec). uniqueTagDisplayName name spec"
  by unfold_locales (auto simp: uniqueTagDisplayName_def Let_def pickName_fresh)

lemma uniqueDisplayName_own:
  assumes "sanitizeIMAPMailboxName label = label" "label \<noteq> []"
    and "\<not> isReservedStandardName (to_lower label)" "label \<notin> set occ"
  shows "uniqueDisplayName label spec occ = (label, label # occ)"
  using assms pickName_first [of label spec 0 occ]
  by (simp add: uniqueDisplayName_def Let_def name_candidate_def)

text \<open>
  A folder whose label is free, has no reserved name and is sanitized already is listed
  under its own name; every other folder gets a name built from that label or, when the
  label is unusable, from its canonical name.
\<close>

theorem uniqueDisplayName_choice:
  "\<exists>base j. fst (uniqueDisplayName label spec occ) = name_candidate base spec j \<and>
     base \<in> {sanitizeIMAPMailboxName label, CanonicalName spec} \<and>
     (base = CanonicalName spec \<or> \<not> isReservedStandardName (to_lower base) \<and> base \<noteq> []) \<and>
     (sanitizeIMAPMailboxName label = label \<and> label \<noteq> [] \<and> \<not> isReservedStandardName (to_lower label) \<and>
      label \<notin> set occ \<longrightarrow> fst (uniqueDisplayName label spec occ) = label)"
proof -
  let ?raw = "sanitizeIMAPMailboxName label"
  let ?usable = "if ?raw = [] then CanonicalName spec else ?raw"
  let ?b = "if isReservedStandardName (to_lower ?usable) then CanonicalName spec else ?usable"
  have name: "fst (uniqueDisplayName label spec occ) = pickName ?b spec occ 0"
    by (simp add: uniqueDisplayName_def Let_def)
  obtain j where j: "pickName ?b spec occ 0 = name_candidate ?b spec j"
    using pickName_is_candidate by blast
  have own: "pickName ?b spec occ 0 = label"
    if "?raw = label" "label \<noteq> []" "\<not> isReservedStandardName (to_lower label)" "label \<notin> set occ"
    using uniqueDisplayName_own [OF that] name by simp
  show ?thesis unfolding name
    by (intro exI [of _ ?b] exI [of _ j] conjI impI) (use j own in \<open>auto split: if_splits\<close>)
qed

lemma uniqueDisplayName_choice_witness:
  "fst (uniqueDisplayName ''Work'' \<lparr>Param1 = ''folders'', Param2 = ''7''\<rparr> [''INBOX'']) = ''Work''"
proof -
  have "sanitizeIMAPMailboxName ''Work'' = ''Work''"
    by (rule sanitize_plain) (simp_all add: visible_def)
  moreover have "\<not> isReservedStandardName (to_lower ''Work'')"
    by (simp add: isReservedStandardName_def to_lower_Cons lower_char_letters lower_char_other)
  ultimately show ?thesis
    using uniqueDisplayName_choice [of "''Work''" "\<lparr>Param1 = ''folders'', Param2 = ''7''\<rparr>" "[''INBOX'']"]
    by auto
qed

end
