(* ===== verification/Mailbox_Index.thy ===== *)
theory Mailbox_Index
  imports Mailbox_Names
begin

text \<open>
  The name index of a user, \<open>internal/imapbackend/user.go\<close>: the map from LIST names to
  mailboxes that \<open>rebuildMailboxNameIndex\<close> builds from the service's answer to
  \<open>folders_tags\<close>, the resolution of a name that SELECT, CREATE or RENAME pass, and the list
  caches that go with the mailboxes.

  The call of \<open>folders_tags\<close> is an argument, \<open>fetch\<close>: it acts on the outside world and gives
  the folders and tags, or \<open>None\<close> for an error or a status other than 1.  The order in which
  Go visits a map is an argument too.
\<close>

section \<open>The index\<close>

record folder =
  folder_ID :: int
  folder_Name :: string
  folder_From :: string
  folder_Contains :: string

record tag =
  tag_ID :: int
  tag_Name :: string
  tag_Color :: string

type_synonym folders_tags = "folder list \<times> tag list"
type_synonym spec_map = "string \<rightharpoonup> MailboxSpec"

record name_index =
  specByListName :: spec_map
  occupied :: "string list"
  extras :: "(string \<times> MailboxSpec) list"

definition standardNames :: "string list" where
  "standardNames = [''INBOX'', ''Sent'', ''Drafts'', ''Junk'', ''Trash'', ''Important'']"

definition index_standard :: "string \<Rightarrow> spec_map \<Rightarrow> spec_map" where
  "index_standard n m =
     (case ParseMailboxName n of
        Inl _ \<Rightarrow> m
      | Inr spec \<Rightarrow> (m(n \<mapsto> spec))(CanonicalName spec \<mapsto> spec))"

definition standardIndex :: spec_map where
  "standardIndex = fold index_standard standardNames Map.empty"

text \<open>One folder or tag: its name, then the two entries of the map and the entry for LIST.\<close>

definition index_one ::
    "(string \<times> MailboxSpec \<Rightarrow> string list \<Rightarrow> string \<times> string list) \<Rightarrow> string \<Rightarrow> MailboxSpec
     \<Rightarrow> name_index \<Rightarrow> name_index" where
  "index_one pick name spec ix =
     (case pick (name, spec) (occupied ix) of
        (disp, occ) \<Rightarrow>
          ix\<lparr>specByListName := ((specByListName ix)(disp \<mapsto> spec))(CanonicalName spec \<mapsto> spec),
             occupied := occ,
             extras := extras ix @ [(disp, spec)]\<rparr>)"

definition folder_spec :: "folder \<Rightarrow> MailboxSpec" where
  "folder_spec f = \<lparr>Param1 = ''folders'', Param2 = itoa (folder_ID f)\<rparr>"

definition tag_spec :: "tag \<Rightarrow> MailboxSpec" where
  "tag_spec t = \<lparr>Param1 = ''tags'', Param2 = itoa (tag_ID t)\<rparr>"

definition index_folder :: "folder \<Rightarrow> name_index \<Rightarrow> name_index" where
  "index_folder f ix = index_one (\<lambda>(name, spec). uniqueDisplayName name spec) (folder_Name f) (folder_spec f) ix"

definition index_tag :: "tag \<Rightarrow> name_index \<Rightarrow> name_index" where
  "index_tag t ix = index_one (\<lambda>(name, spec). uniqueTagDisplayName name spec) (tag_Name t) (tag_spec t) ix"

definition rebuildMailboxNameIndex :: "folders_tags option \<Rightarrow> name_index" where
  "rebuildMailboxNameIndex resp =
     (let ix = \<lparr>specByListName = standardIndex, occupied = standardNames, extras = []\<rparr> in
      case resp of
        None \<Rightarrow> ix
      | Some (fs, ts) \<Rightarrow> fold index_tag ts (fold index_folder fs ix))"

text \<open>\<open>occupied\<close> starts as the keys of the map.\<close>

lemma standardIndex_eq:
  "standardIndex = [''INBOX'' \<mapsto> \<lparr>Param1 = ''inbox'', Param2 = []\<rparr>, ''Sent'' \<mapsto> \<lparr>Param1 = ''sent'', Param2 = []\<rparr>,
     ''Drafts'' \<mapsto> \<lparr>Param1 = ''draft'', Param2 = []\<rparr>, ''Junk'' \<mapsto> \<lparr>Param1 = ''spam'', Param2 = []\<rparr>,
     ''Trash'' \<mapsto> \<lparr>Param1 = ''trash'', Param2 = []\<rparr>, ''Important'' \<mapsto> \<lparr>Param1 = ''important'', Param2 = []\<rparr>]"
  by (simp add: standardIndex_def standardNames_def index_standard_def parse_standard CanonicalName_def)

lemma dom_standardIndex: "dom standardIndex = set standardNames"
proof -
  have "dom standardIndex = set (rev standardNames)"
    by (simp add: standardIndex_eq standardNames_def del: set_rev)
  then show ?thesis by simp
qed

section \<open>Resolution\<close>

record 'w resolver =
  ix_map :: spec_map
  ix_world :: 'w

type_synonym 'w fetch = "'w \<Rightarrow> folders_tags option \<times> 'w"

definition refreshFolderTagNameIndex :: "'w fetch \<Rightarrow> 'w resolver \<Rightarrow> 'w resolver" where
  "refreshFolderTagNameIndex fetch u =
     (case fetch (ix_world u) of
        (None, w) \<Rightarrow> u\<lparr>ix_world := w\<rparr>
      | (Some ft, w) \<Rightarrow>
          u\<lparr>ix_world := w, ix_map := specByListName (rebuildMailboxNameIndex (Some ft))\<rparr>)"

definition resolveFromIndex ::
    "'w fetch \<Rightarrow> (spec_map \<Rightarrow> string list) \<Rightarrow> string \<Rightarrow> 'w resolver
     \<Rightarrow> MailboxSpec option \<times> 'w resolver" where
  "resolveFromIndex fetch visit name u =
     (case ix_map u name of
        Some spec \<Rightarrow> (Some spec, u)
      | None \<Rightarrow>
          (let v = refreshFolderTagNameIndex fetch u in
           case ix_map v name of
             Some spec \<Rightarrow> (Some spec, v)
           | None \<Rightarrow>
               (case find (\<lambda>k. equal_fold k name) (visit (ix_map v)) of
                  Some k \<Rightarrow> (ix_map v k, v)
                | None \<Rightarrow> (None, v))))"

definition resolveMailboxSpecOnce ::
    "'w fetch \<Rightarrow> (spec_map \<Rightarrow> string list) \<Rightarrow> string \<Rightarrow> 'w resolver
     \<Rightarrow> MailboxSpec result \<times> 'w resolver" where
  "resolveMailboxSpecOnce fetch visit candidate0 u =
     (let candidate = trim_space candidate0 in
      if candidate = [] then (Inl (ErrText ''empty mailbox name''), u)
      else
        (let tryTagFirst = has_prefix (to_lower candidate) ''tag-'' in
         case (if tryTagFirst then resolveFromIndex fetch visit candidate u else (None, u)) of
           (Some spec, v) \<Rightarrow> (Inr spec, v)
         | (None, v) \<Rightarrow>
             (case ParseMailboxName candidate of
                Inr spec \<Rightarrow> (Inr spec, v)
              | Inl _ \<Rightarrow>
                  (case (if \<not> tryTagFirst then resolveFromIndex fetch visit candidate v else (None, v)) of
                     (Some spec, w) \<Rightarrow> (Inr spec, w)
                   | (None, w) \<Rightarrow> (Inl (ErrText ''unknown mailbox''), w)))))"

text \<open>The loop over the two candidates, with the ones already tried.\<close>

fun resolve_candidates ::
    "'w fetch \<Rightarrow> (spec_map \<Rightarrow> string list) \<Rightarrow> string list \<Rightarrow> string list \<Rightarrow> 'w resolver
     \<Rightarrow> MailboxSpec result \<times> 'w resolver" where
  "resolve_candidates fetch visit seen [] u = (Inl (ErrText ''unknown mailbox''), u)"
| "resolve_candidates fetch visit seen (c # cs) u =
     (let cand = trim_space c in
      if cand = [] \<or> cand \<in> set seen then resolve_candidates fetch visit seen cs u
      else case resolveMailboxSpecOnce fetch visit cand u of
        (Inr spec, v) \<Rightarrow> (Inr spec, v)
      | (Inl _, v) \<Rightarrow> resolve_candidates fetch visit (cand # seen) cs v)"

definition ResolveMailboxSpec ::
    "'w fetch \<Rightarrow> (spec_map \<Rightarrow> string list) \<Rightarrow> string \<Rightarrow> 'w resolver
     \<Rightarrow> MailboxSpec result \<times> 'w resolver" where
  "ResolveMailboxSpec fetch visit name0 u =
     (let name = trim_space name0 in
      if name = [] then (Inl (ErrText ''empty mailbox name''), u)
      else resolve_candidates fetch visit [] [name, imapMailboxLeaf name] u)"

section \<open>Reading the index changes nothing\<close>

text \<open>
  What an operation that resolves a name relies on: fetching the folders and tags leaves
  some view of the outside world as it is; then so does the resolution.
\<close>

locale quiet_fetch =
  fixes fetch :: "'w fetch" and seen :: "'w \<Rightarrow> 'v"
  assumes fetch_quiet: "seen (snd (fetch w)) = seen w"
begin

lemma refresh_quiet: "seen (ix_world (refreshFolderTagNameIndex fetch v)) = seen (ix_world v)"
  using fetch_quiet [of "ix_world v"]
  by (auto simp: refreshFolderTagNameIndex_def split: prod.split option.split)

lemma resolveFromIndex_quiet:
  "seen (ix_world (snd (resolveFromIndex fetch visit name v))) = seen (ix_world v)"
  by (auto simp: resolveFromIndex_def Let_def refresh_quiet split: option.split)

lemma once_quiet: "seen (ix_world (snd (resolveMailboxSpecOnce fetch visit name v))) = seen (ix_world v)"
proof -
  have "seen (ix_world y) = seen (ix_world x)" if "resolveFromIndex fetch visit n x = (r, y)" for n x r y
    using resolveFromIndex_quiet [of visit n x] that by simp
  then show ?thesis
    by (auto simp: resolveMailboxSpecOnce_def Let_def split: prod.split option.split sum.split)
qed

lemma candidates_quiet:
  "seen (ix_world (snd (resolve_candidates fetch visit tried names v))) = seen (ix_world v)"
proof (induction names arbitrary: tried v)
  case (Cons c cs)
  have "seen (ix_world y) = seen (ix_world x)" if "resolveMailboxSpecOnce fetch visit n x = (r, y)" for n x r y
    using once_quiet [of visit n x] that by simp
  with Cons.IH show ?case by (simp add: Let_def split: prod.split sum.split)
qed simp

lemma resolve_quiet: "seen (ix_world (snd (ResolveMailboxSpec fetch visit name v))) = seen (ix_world v)"
  by (simp add: ResolveMailboxSpec_def Let_def candidates_quiet del: resolve_candidates.simps)

end

section \<open>The list caches\<close>

type_synonym 'c list_cache = "string \<rightharpoonup> 'c"

definition invalidateSpec :: "MailboxSpec \<Rightarrow> 'c list_cache \<Rightarrow> 'c list_cache" where
  "invalidateSpec spec c = c(specCacheKey spec := None)"

definition invalidateFolderTagListCaches :: "'c list_cache \<Rightarrow> 'c list_cache" where
  "invalidateFolderTagListCaches c =
     (\<lambda>k. if has_prefix k ''folders/'' \<or> has_prefix k ''tags/'' then None else c k)"

section \<open>The invariant of the index\<close>

definition listed :: "name_index \<Rightarrow> MailboxSpec set" where
  "listed ix = snd ` set (extras ix)"

text \<open>
  Names are pairwise different and different from the standard ones; a listed name means
  its mailbox, except where it is the canonical name of another listed mailbox; the
  standard names keep their meaning.
\<close>

definition index_ok :: "name_index \<Rightarrow> bool" where
  "index_ok ix \<longleftrightarrow>
     occupied ix = rev (map fst (extras ix)) @ standardNames \<and>
     distinct (occupied ix) \<and>
     (\<forall>(d, sp) \<in> set (extras ix). specByListName ix d = Some sp \<or>
        (\<exists>sp' \<in> listed ix. sp' \<noteq> sp \<and> d = CanonicalName sp' \<and> specByListName ix d = Some sp')) \<and>
     (\<forall>n \<in> set standardNames. specByListName ix n = standardIndex n)"

lemma index_ok_start: "index_ok \<lparr>specByListName = standardIndex, occupied = standardNames, extras = []\<rparr>"
  by (simp add: index_ok_def standardNames_def)

lemma canonical_not_standard:
  "CanonicalName (folder_spec f) \<notin> set standardNames" "CanonicalName (tag_spec t) \<notin> set standardNames"
  by (simp_all add: CanonicalName_def folder_spec_def tag_spec_def standardNames_def)

text \<open>A naming function for labelled mailboxes keeps the invariant.\<close>

locale label_naming = fresh_naming pick
  for pick :: "string \<times> MailboxSpec \<Rightarrow> string list \<Rightarrow> string \<times> string list"
begin

lemma index_one_ok:
  assumes ok: "index_ok ix" and canon: "CanonicalName spec \<notin> set standardNames"
  shows "index_ok (index_one pick name spec ix)"
proof -
  obtain d occ where p: "pick (name, spec) (occupied ix) = (d, occ)"
    by (cases "pick (name, spec) (occupied ix)")
  have fresh_d: "d \<notin> set (occupied ix)" "occ = d # occupied ix" using pick_split [OF p] by auto
  define m where "m = ((specByListName ix)(d \<mapsto> spec))(CanonicalName spec \<mapsto> spec)"
  have ix': "index_one pick name spec ix =
      ix\<lparr>specByListName := m, occupied := occ, extras := extras ix @ [(d, spec)]\<rparr>"
    by (simp add: index_one_def p m_def)
  have occ: "occupied ix = rev (map fst (extras ix)) @ standardNames" and dist: "distinct (occupied ix)"
    and std: "\<forall>n \<in> set standardNames. specByListName ix n = standardIndex n"
    using ok unfolding index_ok_def by blast+
  have new: "m d = Some spec" by (simp add: m_def)
  have old: "m e = Some sp \<or> (\<exists>sp' \<in> insert spec (listed ix). sp' \<noteq> sp \<and> e = CanonicalName sp' \<and> m e = Some sp')"
    if "(e, sp) \<in> set (extras ix)" for e sp
  proof -
    have "e \<in> set (occupied ix)" using that by (force simp: occ)
    then have "e \<noteq> d" using fresh_d by auto
    moreover have "specByListName ix e = Some sp \<or>
        (\<exists>sp' \<in> listed ix. sp' \<noteq> sp \<and> e = CanonicalName sp' \<and> specByListName ix e = Some sp')"
      using ok that by (auto simp: index_ok_def)
    ultimately show ?thesis by (cases "e = CanonicalName spec"; cases "spec = sp") (auto simp: m_def)
  qed
  have "m n = standardIndex n" if "n \<in> set standardNames" for n
    using that canon fresh_d(1) std by (auto simp: m_def occ)
  moreover have "distinct occ" "occ = rev (map fst (extras ix @ [(d, spec)])) @ standardNames"
    using dist fresh_d by (simp_all add: occ)
  ultimately show ?thesis using new old
    unfolding index_ok_def ix' by (auto simp: listed_def)
qed

lemma index_one_extras:
  "extras (index_one pick name spec ix) = extras ix @ [(fst (pick (name, spec) (occupied ix)), spec)]"
  by (simp add: index_one_def split: prod.split)

end

interpretation folder_index: label_naming "\<lambda>(name, spec). uniqueDisplayName name spec"
  by unfold_locales

interpretation tag_index: label_naming "\<lambda>(name, spec). uniqueTagDisplayName name spec"
  by unfold_locales

lemma index_folder_ok: "index_ok ix \<Longrightarrow> index_ok (index_folder f ix)"
  unfolding index_folder_def
  by (intro folder_index.index_one_ok canonical_not_standard)

lemma index_tag_ok: "index_ok ix \<Longrightarrow> index_ok (index_tag t ix)"
  unfolding index_tag_def
  by (intro tag_index.index_one_ok canonical_not_standard)

lemma fold_invariant_index: "(\<And>x ix. P ix \<Longrightarrow> P (f x ix)) \<Longrightarrow> P ix \<Longrightarrow> P (fold f xs ix)"
  by (induction xs arbitrary: ix) auto

lemma rebuild_ok: "index_ok (rebuildMailboxNameIndex resp)"
  by (auto simp: rebuildMailboxNameIndex_def Let_def index_ok_start
      intro!: fold_invariant_index [where P = index_ok] index_tag_ok index_folder_ok split: option.split)

lemma fold_specs:
  "(\<And>x ix. map snd (extras (f x ix)) = map snd (extras ix) @ [spec_of x]) \<Longrightarrow>
   map snd (extras (fold f xs ix)) = map snd (extras ix) @ map spec_of xs"
  by (induction xs arbitrary: ix) auto

lemma rebuild_specs:
  "map snd (extras (rebuildMailboxNameIndex (Some (fs, ts)))) = map folder_spec fs @ map tag_spec ts"
proof -
  have "map snd (extras (index_folder f ix)) = map snd (extras ix) @ [folder_spec f]" for f ix
    by (simp add: index_folder_def index_one_def split: prod.split)
  moreover have "map snd (extras (index_tag t ix)) = map snd (extras ix) @ [tag_spec t]" for t ix
    by (simp add: index_tag_def index_one_def split: prod.split)
  ultimately show ?thesis
    by (simp add: rebuildMailboxNameIndex_def fold_specs [where spec_of = folder_spec]
        fold_specs [where spec_of = tag_spec])
qed

section \<open>Properties\<close>

text \<open>
  C29: Whatever labels the service returns, the names that LIST shows are pairwise different
  and different from the standard names, and there is one for each folder and each tag, in
  the order of the answer.
\<close>

theorem list_names_distinct:
  "distinct (standardNames @ map fst (extras (rebuildMailboxNameIndex (Some (fs, ts))))) \<and>
   map snd (extras (rebuildMailboxNameIndex (Some (fs, ts)))) = map folder_spec fs @ map tag_spec ts"
proof -
  let ?ix = "rebuildMailboxNameIndex (Some (fs, ts))"
  have "occupied ?ix = rev (map fst (extras ?ix)) @ standardNames" "distinct (occupied ?ix)"
    using rebuild_ok [of "Some (fs, ts)"] unfolding index_ok_def by blast+
  then show ?thesis using rebuild_specs [of fs ts] by (simp add: Int_commute)
qed

lemma once_from_index:
  assumes "ix_map u d = Some sp" "trim_space d = d" "d \<noteq> []"
    and "has_prefix (to_lower d) ''tag-'' \<or> ParseMailboxName d = Inl e"
  shows "resolveMailboxSpecOnce fetch visit d u = (Inr sp, u)"
  using assms
  by (cases "has_prefix (to_lower d) ''tag-''")
    (simp_all add: resolveMailboxSpecOnce_def resolveFromIndex_def Let_def)

lemma resolve_first:
  assumes "trim_space d = d" "d \<noteq> []" "resolveMailboxSpecOnce fetch visit d u = (Inr sp, v)"
  shows "ResolveMailboxSpec fetch visit d u = (Inr sp, v)"
  using assms by (simp add: ResolveMailboxSpec_def Let_def)

text \<open>
  A name that LIST has shown selects the mailbox it was shown for, without another call
  of the service, provided it is not at the same time the canonical name of a different
  listed mailbox and, unless it begins with \<open>Tag-\<close>, does not have the form of a standard
  or numbered name.
\<close>

lemma listed_name_resolves:
  assumes "(d, sp) \<in> set (extras (rebuildMailboxNameIndex resp))"
    and "ix_map u = specByListName (rebuildMailboxNameIndex resp)"
    and "\<forall>sp' \<in> listed (rebuildMailboxNameIndex resp). sp' = sp \<or> d \<noteq> CanonicalName sp'"
    and "trim_space d = d" "d \<noteq> []"
    and "has_prefix (to_lower d) ''tag-'' \<or> ParseMailboxName d = Inl e"
  shows "ResolveMailboxSpec fetch visit d u = (Inr sp, u)"
proof -
  have "ix_map u d = Some sp"
    using rebuild_ok [of resp] assms(1-3) by (auto simp: index_ok_def)
  then show ?thesis using resolve_first [OF assms(4,5) once_from_index] assms(4-6) by blast
qed

lemma one_folder:
  assumes "sanitizeIMAPMailboxName l = l" "l \<noteq> []" "\<not> isReservedStandardName (to_lower l)" "l \<notin> set (occupied ix)"
  shows "index_folder \<lparr>folder_ID = i, folder_Name = l, folder_From = a, folder_Contains = b\<rparr> ix =
    ix\<lparr>specByListName := ((specByListName ix)(l \<mapsto> \<lparr>Param1 = ''folders'', Param2 = itoa i\<rparr>))
         (''Folder-'' @ itoa i \<mapsto> \<lparr>Param1 = ''folders'', Param2 = itoa i\<rparr>),
       occupied := l # occupied ix, extras := extras ix @ [(l, \<lparr>Param1 = ''folders'', Param2 = itoa i\<rparr>)]\<rparr>"
  using assms
  by (simp add: index_folder_def index_one_def folder_spec_def uniqueDisplayName_own CanonicalName_def)

lemma work_plain:
  "sanitizeIMAPMailboxName ''Work'' = ''Work''" "\<not> isReservedStandardName (to_lower ''Work'')"
  "sanitizeIMAPMailboxName ''Folder-2'' = ''Folder-2''" "\<not> isReservedStandardName (to_lower ''Folder-2'')"
  by (rule sanitize_plain, simp_all add: visible_def isReservedStandardName_def to_lower_Cons
      lower_char_letters lower_char_other)+

lemma itoa_2: "itoa 2 = ''2''"
  by (simp add: go_str)

definition work_folder :: folder where
  "work_folder = \<lparr>folder_ID = 2, folder_Name = ''Work'', folder_From = [], folder_Contains = []\<rparr>"

lemma work_index:
  "extras (rebuildMailboxNameIndex (Some ([work_folder], []))) =
     [(''Work'', \<lparr>Param1 = ''folders'', Param2 = ''2''\<rparr>)]"
  by (simp add: rebuildMailboxNameIndex_def Let_def work_folder_def one_folder work_plain standardNames_def itoa_2)

lemma work_name:
  "to_lower ''Work'' = ''work''" "trim_space ''Work'' = ''Work''"
  "ParseMailboxName ''Work'' = Inl (ErrText (''unknown mailbox: '' @ ''Work''))"
proof -
  show lower: "to_lower ''Work'' = ''work''" by (simp add: to_lower_Cons lower_char_letters lower_char_other)
  show trim: "trim_space ''Work'' = ''Work''" by (simp add: trim_space_all_visible visible_def)
  show "ParseMailboxName ''Work'' = Inl (ErrText (''unknown mailbox: '' @ ''Work''))"
    unfolding ParseMailboxName_def trim Let_def lower by (simp add: standard_spec_def)
qed

text \<open>
  The exception is real: a folder may be shown in LIST under a name that selects a
  different folder.  With a folder 1 that the user called \<open>Folder-2\<close> and a folder 2 called
  \<open>Work\<close>, LIST shows \<open>Folder-2\<close> for folder 1, and selecting \<open>Folder-2\<close> opens folder 2.
\<close>

theorem label_shadows_folder:
  "(''Folder-2'', \<lparr>Param1 = ''folders'', Param2 = itoa 1\<rparr>) \<in>
     set (extras (rebuildMailboxNameIndex (Some
       ([\<lparr>folder_ID = 1, folder_Name = ''Folder-2'', folder_From = [], folder_Contains = []\<rparr>, work_folder], [])))) \<and>
   ResolveMailboxSpec fetch visit ''Folder-2'' u = (Inr \<lparr>Param1 = ''folders'', Param2 = itoa 2\<rparr>, u)"
proof
  show "(''Folder-2'', \<lparr>Param1 = ''folders'', Param2 = itoa 1\<rparr>) \<in>
     set (extras (rebuildMailboxNameIndex (Some
       ([\<lparr>folder_ID = 1, folder_Name = ''Folder-2'', folder_From = [], folder_Contains = []\<rparr>, work_folder], []))))"
    by (simp add: rebuildMailboxNameIndex_def Let_def work_folder_def one_folder work_plain standardNames_def)
  have p: "ParseMailboxName ''Folder-2'' = Inr \<lparr>Param1 = ''folders'', Param2 = ''2''\<rparr>"
    using parse_numbered(1) [of "''2''"] by (simp add: go_str)
  have lower: "to_lower ''Folder-2'' = ''folder-2''"
    by (simp add: to_lower_Cons lower_char_letters lower_char_other)
  have trim: "trim_space ''Folder-2'' = ''Folder-2''" by (simp add: trim_space_all_visible visible_def)
  have "resolveMailboxSpecOnce fetch visit ''Folder-2'' u = (Inr \<lparr>Param1 = ''folders'', Param2 = ''2''\<rparr>, u)"
    unfolding resolveMailboxSpecOnce_def trim Let_def lower p by simp
  then show "ResolveMailboxSpec fetch visit ''Folder-2'' u = (Inr \<lparr>Param1 = ''folders'', Param2 = itoa 2\<rparr>, u)"
    unfolding itoa_2 by (intro resolve_first trim) simp_all
qed

text \<open>
  A name that parses by itself and does not begin with \<open>tag-\<close> is resolved by its form
  alone, whatever the index holds, and the service is not called.
\<close>

lemma parsed_resolves:
  assumes "ParseMailboxName name = Inr sp" "\<not> has_prefix (to_lower (trim_space name)) ''tag-''"
  shows "ResolveMailboxSpec fetch visit name u = (Inr sp, u)"
proof -
  have p: "ParseMailboxName (trim_space name) = Inr sp"
    using assms(1) by (auto simp: ParseMailboxName_def Let_def split: option.splits if_splits)
  moreover have "trim_space name \<noteq> []"
    using assms(1) by (auto simp: ParseMailboxName_def Let_def standard_spec_def split: option.splits if_splits)
  ultimately show ?thesis using assms(2)
    by (simp add: ResolveMailboxSpec_def resolveMailboxSpecOnce_def Let_def)
qed

text \<open>
  After a folder or tag was created, exactly the cached lists of folders and tags are
  dropped, and dropping one mailbox leaves the list of every other mailbox.
\<close>

lemma cache_invalidation:
  assumes "spec_ok s" "spec_ok t"
  shows "invalidateFolderTagListCaches c (specCacheKey s) =
      (if Param1 s \<in> {''folders'', ''tags''} then None else c (specCacheKey s)) \<and>
    invalidateSpec t c (specCacheKey s) = (if s = t then None else c (specCacheKey s))"
proof -
  have "has_prefix (specCacheKey s) ''folders/'' \<or> has_prefix (specCacheKey s) ''tags/'' \<longleftrightarrow>
      Param1 s \<in> {''folders'', ''tags''}"
    using assms(1)
  proof (cases rule: spec_ok_cases)
    case 1
    then show ?thesis unfolding standard_params_def list.set
      by (elim insertE emptyE) (simp_all add: specCacheKey_def)
  next
    case 2
    then show ?thesis by (elim insertE emptyE) (simp_all add: specCacheKey_def)
  qed
  moreover have "specCacheKey s = specCacheKey t \<longleftrightarrow> s = t"
    using split_cacheKey [OF assms(1)] split_cacheKey [OF assms(2)]
    by (metis MailboxSpec_eqI list.inject list.distinct(1))
  ultimately show ?thesis
    by (simp add: invalidateFolderTagListCaches_def invalidateSpec_def)
qed

end
