(* ===== verification/Remote_Api.thy ===== *)
theory Remote_Api
  imports Mailbox_Index
begin

text \<open>
  The client of the remote service, \<open>internal/remote/client.go\<close>, \<open>types.go\<close> and
  \<open>parse.go\<close>: what a request holds when it is sent, what is read from an answer, and the
  login that stores a token.

  The service itself with the HTTP transport is an argument: a function that takes a
  request and the state of the outside world and gives an error or an answer.  JSON is a
  datatype; decoding a Go struct from it goes over the members in order, as
  \<open>encoding/json\<close> does, with member names compared without case, and remembers whether a
  member had the wrong type.  Numbers are integers (the code takes fractions nowhere
  further than a cut to \<open>int\<close>).
\<close>

section \<open>JSON\<close>

datatype json =
    JNull
  | JBool bool
  | JNum int
  | JStr string
  | JArr "json list"
  | JObj "(string \<times> json) list"

text \<open>Decoding a value into a Go variable: whether the types fit, and the new value.\<close>

fun dec_string :: "json \<Rightarrow> string \<Rightarrow> bool \<times> string" where
  "dec_string (JStr s) cur = (True, s)"
| "dec_string JNull cur = (True, cur)"
| "dec_string _ cur = (False, cur)"

fun dec_int :: "json \<Rightarrow> int \<Rightarrow> bool \<times> int" where
  "dec_int (JNum n) cur = (if - max_int - 1 \<le> n \<and> n \<le> max_int then (True, n) else (False, cur))"
| "dec_int JNull cur = (True, cur)"
| "dec_int _ cur = (False, cur)"

fun dec_bool :: "json \<Rightarrow> bool \<Rightarrow> bool \<times> bool" where
  "dec_bool (JBool b) cur = (True, b)"
| "dec_bool JNull cur = (True, cur)"
| "dec_bool _ cur = (False, cur)"

fun dec_members ::
    "(string \<Rightarrow> json \<Rightarrow> 'r \<Rightarrow> bool \<times> 'r) \<Rightarrow> (string \<times> json) list \<Rightarrow> bool \<times> 'r \<Rightarrow> bool \<times> 'r" where
  "dec_members set_member [] (ok, r) = (ok, r)"
| "dec_members set_member ((k, v) # kvs) (ok, r) =
     (case set_member k v r of (ok1, r1) \<Rightarrow> dec_members set_member kvs (ok \<and> ok1, r1))"

fun dec_struct ::
    "(string \<Rightarrow> json \<Rightarrow> 'r \<Rightarrow> bool \<times> 'r) \<Rightarrow> json \<Rightarrow> 'r \<Rightarrow> bool \<times> 'r" where
  "dec_struct set_member (JObj kvs) r = dec_members set_member kvs (True, r)"
| "dec_struct set_member JNull r = (True, r)"
| "dec_struct set_member _ r = (False, r)"

fun dec_list :: "(json \<Rightarrow> bool \<times> 'r) \<Rightarrow> json \<Rightarrow> 'r list \<Rightarrow> bool \<times> 'r list" where
  "dec_list dec (JArr vs) cur = (list_all (\<lambda>v. fst (dec v)) vs, map (\<lambda>v. snd (dec v)) vs)"
| "dec_list dec JNull cur = (True, [])"
| "dec_list dec _ cur = (False, cur)"

section \<open>Requests and answers\<close>

record request =
  Service :: string
  Action :: string
  Token :: string
  CurrentLang :: string
  Params :: "string \<rightharpoonup> json"
  Data :: "string \<rightharpoonup> json"
  Page :: int
  LastMailID :: int
  SearchText :: string
  DraftID :: "json option"
  Draft :: "bool option"
  PageID :: "json option"

definition emptyRequest :: request where
  "emptyRequest = \<lparr>Service = [], Action = [], Token = [], CurrentLang = [], Params = Map.empty,
     Data = Map.empty, Page = 0, LastMailID = 0, SearchText = [], DraftID = None, Draft = None,
     PageID = None\<rparr>"

record mail_summary =
  mail_ID :: int
  FromName :: string
  FromEmail :: string
  Sender :: string
  Snippet :: string
  Subject :: string
  Read :: bool
  Important :: bool
  CreatedAt :: string
  TagName :: string

definition emptySummary :: mail_summary where
  "emptySummary = \<lparr>mail_ID = 0, FromName = [], FromEmail = [], Sender = [], Snippet = [], Subject = [],
     Read = False, Important = False, CreatedAt = [], TagName = []\<rparr>"

definition EffectiveFrom :: "mail_summary \<Rightarrow> string" where
  "EffectiveFrom m = (if trim_space (FromName m) \<noteq> [] then trim_space (FromName m) else trim_space (Sender m))"

definition EffectiveSubject :: "mail_summary \<Rightarrow> string" where
  "EffectiveSubject m = (if trim_space (Subject m) \<noteq> [] then trim_space (Subject m) else trim_space (Snippet m))"

text \<open>The members of the answer that the bridge reads; \<open>Total\<close> is \<open>total.count\<close>.\<close>

record response =
  Status :: int
  Message :: string
  Mails :: "mail_summary list"
  Total :: "int option"
  Folders :: "folder list"
  Tags :: "tag list"
  RespData :: "json option"

text \<open>\<open>APIStatus.UnmarshalJSON\<close>, which accepts anything.\<close>

fun api_status :: "json \<Rightarrow> int" where
  "api_status JNull = 0"
| "api_status (JNum n) = n"
| "api_status (JStr s) = fst (atoi (trim_space s))"
| "api_status (JBool b) = (if b then 1 else 0)"
| "api_status _ = 0"

text \<open>\<open>TotalCount.UnmarshalJSON\<close>: the count that was there before, and the JSON value.\<close>

definition last_member :: "string \<Rightarrow> (string \<times> json) list \<Rightarrow> json option" where
  "last_member name kvs = map_option snd (find (\<lambda>kv. equal_fold (fst kv) name) (rev kvs))"

fun total_count :: "json \<Rightarrow> int \<Rightarrow> bool \<times> int" where
  "total_count JNull cur = (True, cur)"
| "total_count (JObj kvs) cur =
     (case last_member ''count'' kvs of
        Some (JNum n) \<Rightarrow> (True, n)
      | Some (JStr s) \<Rightarrow> (True, fst (atoi (trim_space s)))
      | Some JNull \<Rightarrow> (True, 0)
      | _ \<Rightarrow> (True, cur))"
| "total_count _ cur = (False, cur)"

definition set_summary :: "string \<Rightarrow> json \<Rightarrow> mail_summary \<Rightarrow> bool \<times> mail_summary" where
  "set_summary k v m =
     (if equal_fold k ''id'' then (case dec_int v (mail_ID m) of (ok, x) \<Rightarrow> (ok, m\<lparr>mail_ID := x\<rparr>))
      else if equal_fold k ''from_name'' then (case dec_string v (FromName m) of (ok, x) \<Rightarrow> (ok, m\<lparr>FromName := x\<rparr>))
      else if equal_fold k ''from_email'' then (case dec_string v (FromEmail m) of (ok, x) \<Rightarrow> (ok, m\<lparr>FromEmail := x\<rparr>))
      else if equal_fold k ''sender'' then (case dec_string v (Sender m) of (ok, x) \<Rightarrow> (ok, m\<lparr>Sender := x\<rparr>))
      else if equal_fold k ''snippet'' then (case dec_string v (Snippet m) of (ok, x) \<Rightarrow> (ok, m\<lparr>Snippet := x\<rparr>))
      else if equal_fold k ''subject'' then (case dec_string v (Subject m) of (ok, x) \<Rightarrow> (ok, m\<lparr>Subject := x\<rparr>))
      else if equal_fold k ''read'' then (case dec_bool v (Read m) of (ok, x) \<Rightarrow> (ok, m\<lparr>Read := x\<rparr>))
      else if equal_fold k ''important'' then (case dec_bool v (Important m) of (ok, x) \<Rightarrow> (ok, m\<lparr>Important := x\<rparr>))
      else if equal_fold k ''created_at'' then (case dec_string v (CreatedAt m) of (ok, x) \<Rightarrow> (ok, m\<lparr>CreatedAt := x\<rparr>))
      else if equal_fold k ''tag_name'' then (case dec_string v (TagName m) of (ok, x) \<Rightarrow> (ok, m\<lparr>TagName := x\<rparr>))
      else (True, m))"

section \<open>Reading answers\<close>

definition token_member :: "string \<Rightarrow> json \<Rightarrow> string \<Rightarrow> bool \<times> string" where
  "token_member k v t = (if equal_fold k ''token'' then dec_string v t else (True, t))"

definition ExtractToken :: "response \<Rightarrow> string result" where
  "ExtractToken resp =
     (case RespData resp of
        None \<Rightarrow> Inl (ErrText ''empty data field'')
      | Some d \<Rightarrow>
          (case dec_struct token_member d [] of
             (ok, t) \<Rightarrow>
               if ok \<and> t \<noteq> [] then Inr t
               else (case dec_string d [] of
                 (ok2, s) \<Rightarrow> if ok2 \<and> s \<noteq> [] then Inr s else Inl (ErrText ''no token in data''))))"

definition message_member :: "string \<Rightarrow> json \<Rightarrow> string \<Rightarrow> bool \<times> string" where
  "message_member k v t = (if equal_fold k ''message'' then dec_string v t else (True, t))"

definition ResponseErrMsg :: "response \<Rightarrow> string" where
  "ResponseErrMsg resp =
     (let s = trim_space (Message resp) in
      if s \<noteq> [] then s
      else case RespData resp of
        None \<Rightarrow> []
      | Some d \<Rightarrow> (case dec_struct message_member d [] of (ok, m) \<Rightarrow> if ok then trim_space m else []))"

definition MailListResponseOK :: "response \<Rightarrow> bool" where
  "MailListResponseOK resp \<longleftrightarrow> Status resp = 1 \<or> Mails resp \<noteq> [] \<or> Total resp = Some 0"

definition status_member :: "string \<Rightarrow> json \<Rightarrow> int \<Rightarrow> bool \<times> int" where
  "status_member k v n = (if equal_fold k ''status'' then (True, api_status v) else (True, n))"

definition MailMutationOK :: "response option \<Rightarrow> bool" where
  "MailMutationOK r =
     (case r of
        None \<Rightarrow> False
      | Some resp \<Rightarrow>
          Status resp = 1 \<or>
          (let m = to_lower (trim_space (Message resp)) in m = ''success'' \<or> m = ''ok'') \<or>
          (case RespData resp of
             None \<Rightarrow> False
           | Some d \<Rightarrow> (case dec_struct status_member d 0 of (ok, n) \<Rightarrow> ok \<and> n = 1)))"

text \<open>The nested list payload: the mails and, if there is one, the total.\<close>

definition list_member ::
    "string \<Rightarrow> json \<Rightarrow> mail_summary list \<times> int option \<Rightarrow> bool \<times> (mail_summary list \<times> int option)" where
  "list_member k v r =
     (if equal_fold k ''mails'' then
        (case dec_list (\<lambda>x. dec_struct set_summary x emptySummary) v (fst r) of (ok, ms) \<Rightarrow> (ok, (ms, snd r)))
      else if equal_fold k ''total'' then
        (if v = JNull then (True, (fst r, None))
         else case total_count v (case snd r of None \<Rightarrow> 0 | Some n \<Rightarrow> n) of
           (ok, n) \<Rightarrow> (ok, (fst r, Some n)))
      else (True, r))"

definition MergeMailListFields :: "response \<Rightarrow> response" where
  "MergeMailListFields resp =
     (if Mails resp \<noteq> [] then resp
      else case RespData resp of
        None \<Rightarrow> resp
      | Some d \<Rightarrow>
          (case dec_struct list_member d ([], None) of
             (ok, (ms, t)) \<Rightarrow>
               if \<not> ok then resp
               else (let r1 = (if ms \<noteq> [] then resp\<lparr>Mails := ms\<rparr> else resp) in
                     if t \<noteq> None then r1\<lparr>Total := t\<rparr> else r1)))"

section \<open>The client\<close>

type_synonym 'w service = "request \<Rightarrow> 'w \<Rightarrow> response result \<times> 'w"

record client =
  BaseURL :: string
  AssetURL :: string
  cli_Lang :: string
  cli_token :: string

definition NewClient :: "string \<Rightarrow> string \<Rightarrow> client" where
  "NewClient baseURL lang =
     \<lparr>BaseURL = trim_right_char CHR ''/'' baseURL, AssetURL = [], cli_Lang = lang, cli_token = []\<rparr>"

text \<open>\<open>postJSON\<close> fills in the language and the token; \<open>Do\<close> sends the request.\<close>

definition fill_request :: "client \<Rightarrow> request \<Rightarrow> request" where
  "fill_request c req =
     (let r1 = (if CurrentLang req = [] then req\<lparr>CurrentLang := cli_Lang c\<rparr> else req) in
      if Token r1 = [] then r1\<lparr>Token := cli_token c\<rparr> else r1)"

definition Do :: "'w service \<Rightarrow> client \<Rightarrow> request \<Rightarrow> 'w \<Rightarrow> response result \<times> 'w" where
  "Do svc c req w = svc (fill_request c req) w"

definition Authorize ::
    "'w service \<Rightarrow> string \<Rightarrow> string \<Rightarrow> client \<Rightarrow> 'w \<Rightarrow> go_error option \<times> client \<times> 'w" where
  "Authorize svc email password c w =
     (case Do svc c (emptyRequest\<lparr>Service := ''account'', Action := ''authorization'',
                Data := [''email'' \<mapsto> JStr email, ''password'' \<mapsto> JStr password]\<rparr>) w of
        (Inl e, w1) \<Rightarrow> (Some e, c, w1)
      | (Inr resp, w1) \<Rightarrow>
          if Status resp \<noteq> 1 then (Some (ErrText (''login failed: '' @ Message resp)), c, w1)
          else (case ExtractToken resp of
            Inl e \<Rightarrow> (Some e, c, w1)
          | Inr tok \<Rightarrow> (None, c\<lparr>cli_token := tok\<rparr>, w1)))"

definition RefreshToken :: "'w service \<Rightarrow> client \<Rightarrow> 'w \<Rightarrow> go_error option \<times> client \<times> 'w" where
  "RefreshToken svc c w =
     (if cli_token c = [] then (Some (ErrText ''no token to refresh''), c, w)
      else case Do svc c (emptyRequest\<lparr>Service := ''account'', Action := ''refresh-token'',
                  Data := [''token'' \<mapsto> JStr (cli_token c)], Token := cli_token c\<rparr>) w of
        (Inl e, w1) \<Rightarrow> (Some e, c, w1)
      | (Inr resp, w1) \<Rightarrow>
          if Status resp \<noteq> 1 then (Some (ErrText (''refresh failed: '' @ Message resp)), c, w1)
          else (case ExtractToken resp of
            Inl e \<Rightarrow> (Some e, c, w1)
          | Inr tok \<Rightarrow> (None, c\<lparr>cli_token := tok\<rparr>, w1)))"

text \<open>
  A file sent along, and \<open>DoReplyConfirm\<close>, whose payload has an explicit \<open>draft_id\<close> of null.
\<close>

record attach =
  filename :: string
  content :: string

definition attach_json :: "attach \<Rightarrow> json" where
  "attach_json a = JObj [(''filename'', JStr (filename a)), (''content'', JStr (content a))]"

definition DoReplyConfirm ::
    "'w service \<Rightarrow> client \<Rightarrow> string \<Rightarrow> string \<Rightarrow> attach list \<Rightarrow> string \<Rightarrow> 'w \<Rightarrow> response result \<times> 'w" where
  "DoReplyConfirm svc c mailID messageHTML attaches currentLang w =
     svc (emptyRequest\<lparr>Service := ''mail'', Action := ''reply-confirm'', DraftID := Some JNull,
            Data := [''message'' \<mapsto> JStr messageHTML, ''attaches'' \<mapsto> JArr (map attach_json attaches),
                     ''mail_id'' \<mapsto> JStr mailID],
            CurrentLang := (if trim_space currentLang \<noteq> [] then currentLang else cli_Lang c),
            Token := cli_token c\<rparr>) w"

section \<open>Facts\<close>

lemma fill_request_fields [simp]:
  "Service (fill_request c r) = Service r" "Action (fill_request c r) = Action r"
  "Data (fill_request c r) = Data r" "Params (fill_request c r) = Params r" "Page (fill_request c r) = Page r"
  "Draft (fill_request c r) = Draft r" "PageID (fill_request c r) = PageID r"
  "Token (fill_request c r) = (if Token r = [] then cli_token c else Token r)"
  "CurrentLang (fill_request c r) = (if CurrentLang r = [] then cli_Lang c else CurrentLang r)"
  by (simp_all add: fill_request_def Let_def)

lemma ExtractToken_not_Nil: "ExtractToken resp = Inr t \<Longrightarrow> t \<noteq> []"
  by (auto simp: ExtractToken_def split: option.splits prod.splits if_splits)

lemma Authorize_ok_token:
  "Authorize svc email password c w = (None, c1, w1) \<Longrightarrow> cli_token c1 \<noteq> []"
  by (auto simp: Authorize_def dest: ExtractToken_not_Nil split: prod.splits sum.splits if_splits)

lemma Authorize_fails:
  "Authorize svc email password c w = (Some e, c1, w1) \<Longrightarrow> c1 = c"
  by (auto simp: Authorize_def split: prod.splits sum.splits if_splits)

text \<open>A service that keeps the requests it gets.\<close>

definition recording :: "'w service \<Rightarrow> (request list \<times> 'w) service" where
  "recording svc req w = (case svc req (snd w) of (r, v) \<Rightarrow> (r, (fst w @ [req], v)))"

lemma recording_log [simp]: "fst (snd (recording svc req w)) = fst w @ [req]"
  by (simp add: recording_def split: prod.split)

lemma recording_result: "recording svc req w = (r, v) \<Longrightarrow> r = fst (svc req (snd w))"
  by (auto simp: recording_def split: prod.splits)

end
