(* ===== verification/Login_Handlers.thy ===== *)
theory Login_Handlers
  imports Remote_Api Login_Limit Identity Config
begin

text \<open>
  The two ways to log in: \<open>authHandler\<close> of \<open>internal/smtpbridge/submit.go\<close>, which the SMTP
  server calls for AUTH, and \<open>Login\<close> of \<open>internal/imapbackend/backend.go\<close>.  Both ask the
  same tracker, complete the login name, and let the remote service decide; SMTP keeps the
  client of each connection for the mail that follows.

  The state is what the two share: the tracker, the clients by remote address, and the
  outside world of the service.  \<open>clock n\<close> is the \<open>n\<close>-th reading of the clock.
\<close>

section \<open>State\<close>

record 'w bridge =
  limit :: "tracker option"
  tokens :: "string \<rightharpoonup> client"
  ticks :: nat
  remote :: 'w

text \<open>A user of the IMAP backend (\<open>newUser\<close>), with the list cache left to the caller.\<close>

record user =
  user_email :: string
  user_cli :: client
  user_maxList :: int
  user_defaultLang :: string
  user_viewLang :: string
  user_composeLang :: string
  user_tagColor :: string

definition or_else :: "string \<Rightarrow> string \<Rightarrow> string" where
  "or_else s d = (if s = [] then d else s)"

definition newUser ::
    "string \<Rightarrow> client \<Rightarrow> int \<Rightarrow> string \<Rightarrow> string \<Rightarrow> string \<Rightarrow> string \<Rightarrow> user" where
  "newUser email c maxList defaultLang viewLang composeLang tagColor =
     \<lparr>user_email = email, user_cli = c, user_maxList = maxList,
      user_defaultLang = or_else defaultLang ''inbox'', user_viewLang = or_else viewLang ''mail'',
      user_composeLang = or_else composeLang ''mail'',
      user_tagColor = trim_prefix (trim_space (or_else tagColor ''ADACF1'')) ''#''\<rparr>"

section \<open>The handlers\<close>

definition authHandler ::
    "config \<Rightarrow> 'w service \<Rightarrow> (nat \<Rightarrow> int) \<Rightarrow> net_addr \<Rightarrow> string \<Rightarrow> string \<Rightarrow> 'w bridge
     \<Rightarrow> (bool \<times> go_error option) \<times> 'w bridge" where
  "authHandler cfg svc clock addr username password s =
     (let ip = ClientIP (Some addr) in
      case Allowed (clock (ticks s)) ip (limit s) of
        (False, l) \<Rightarrow> ((False, None), s\<lparr>limit := l, ticks := ticks s + 1\<rparr>)
      | (True, l) \<Rightarrow>
          (let raw = trim_space username;
               login = ExpandLocalPart raw (DefaultMailDomain cfg);
               apiEmail = RemoteAuthEmail login (RemoteAuthEmailLocalPartOnly cfg) in
           case Authorize svc apiEmail password (NewClient (RemoteHTTPBase cfg) (Lang cfg)) (remote s) of
             (Some _, _, w) \<Rightarrow>
               ((False, None),
                s\<lparr>limit := RecordFailure (clock (ticks s + 1)) ip l, ticks := ticks s + 2, remote := w\<rparr>)
           | (None, c, w) \<Rightarrow>
               ((True, None),
                s\<lparr>limit := RecordSuccess ip l, ticks := ticks s + 1, remote := w,
                  tokens := (tokens s)(addr_string addr \<mapsto> c)\<rparr>)))"

definition Login ::
    "config \<Rightarrow> 'w service \<Rightarrow> (nat \<Rightarrow> int) \<Rightarrow> net_addr option option \<Rightarrow> string \<Rightarrow> string \<Rightarrow> 'w bridge
     \<Rightarrow> user option \<times> 'w bridge" where
  "Login cfg svc clock connInfo username password s =
     (let ip = (case connInfo of None \<Rightarrow> [] | Some a \<Rightarrow> ClientIP a) in
      case Allowed (clock (ticks s)) ip (limit s) of
        (False, l) \<Rightarrow> (None, s\<lparr>limit := l, ticks := ticks s + 1\<rparr>)
      | (True, l) \<Rightarrow>
          (let login = ExpandLocalPart username (DefaultMailDomain cfg);
               apiEmail = RemoteAuthEmail login (RemoteAuthEmailLocalPartOnly cfg);
               cli = (NewClient (RemoteHTTPBase cfg) (Lang cfg))\<lparr>AssetURL := RemoteAssetBase cfg\<rparr> in
           case Authorize svc apiEmail password cli (remote s) of
             (Some _, _, w) \<Rightarrow>
               (None,
                s\<lparr>limit := RecordFailure (clock (ticks s + 1)) ip l, ticks := ticks s + 2, remote := w\<rparr>)
           | (None, c, w) \<Rightarrow>
               (Some (newUser login c (MaxMailList cfg) (MailDefaultActionCurrentLang cfg)
                  (MailViewCurrentLang cfg) (MailComposeCurrentLang cfg) (TagDefaultColor cfg)),
                s\<lparr>limit := RecordSuccess ip l, ticks := ticks s + 1, remote := w\<rparr>)))"

section \<open>Attempts\<close>

text \<open>An attempt over either protocol, and a number of attempts one after the other.\<close>

datatype attempt =
    SmtpTry net_addr string string
  | ImapTry net_addr string string

fun attempt_ip :: "attempt \<Rightarrow> string" where
  "attempt_ip (SmtpTry a _ _) = ClientIP (Some a)"
| "attempt_ip (ImapTry a _ _) = ClientIP (Some a)"

fun try_login :: "config \<Rightarrow> 'w service \<Rightarrow> (nat \<Rightarrow> int) \<Rightarrow> attempt \<Rightarrow> 'w bridge \<Rightarrow> bool \<times> 'w bridge" where
  "try_login cfg svc clock (SmtpTry a u p) s =
     (case authHandler cfg svc clock a u p s of ((ok, _), t) \<Rightarrow> (ok, t))"
| "try_login cfg svc clock (ImapTry a u p) s =
     (case Login cfg svc clock (Some (Some a)) u p s of (r, t) \<Rightarrow> (r \<noteq> None, t))"

definition try_all :: "config \<Rightarrow> 'w service \<Rightarrow> (nat \<Rightarrow> int) \<Rightarrow> attempt list \<Rightarrow> 'w bridge \<Rightarrow> 'w bridge" where
  "try_all cfg svc clock as s = foldl (\<lambda>t a. snd (try_login cfg svc clock a t)) s as"

text \<open>The service with a count of the requests it gets.\<close>

definition counting :: "'w service \<Rightarrow> (nat \<times> 'w) service" where
  "counting svc req w = (case svc req (snd w) of (r, v) \<Rightarrow> (r, (Suc (fst w), v)))"

definition refuses :: "'w service \<Rightarrow> bool" where
  "refuses svc \<longleftrightarrow> (\<forall>email p c w. fst (Authorize svc email p c w) \<noteq> None)"

lemma Authorize_counting:
  "Authorize (counting svc) email p c (n, w) =
     (case Authorize svc email p c w of (e, c1, w1) \<Rightarrow> (e, c1, (Suc n, w1)))"
  by (simp add: Authorize_def Do_def counting_def split: prod.split sum.split)

text \<open>One attempt when the service refuses, over either protocol.\<close>

lemma try_login_refused:
  assumes "refuses svc"
  shows "\<exists>w t. try_login cfg (counting svc) clock a s =
    (case Allowed (clock (ticks s)) (attempt_ip a) (limit s) of
       (False, l) \<Rightarrow> (False, s\<lparr>limit := l, ticks := ticks s + 1\<rparr>)
     | (True, l) \<Rightarrow> (False, s\<lparr>limit := RecordFailure (clock (ticks s + 1)) (attempt_ip a) l,
         ticks := ticks s + 2, remote := (Suc (fst (remote s)), w)\<rparr>))"
proof -
  have fails: "\<exists>e w1. Authorize (counting svc) email p c (remote s) = (Some e, c, (Suc (fst (remote s)), w1))"
    for email p c
  proof -
    obtain e c1 w1 where "Authorize svc email p c (snd (remote s)) = (Some e, c1, w1)"
      using assms unfolding refuses_def by (metis prod.collapse option.exhaust)
    moreover from this have "c1 = c" by (rule Authorize_fails)
    ultimately show ?thesis
      using Authorize_counting [of svc email p c "fst (remote s)" "snd (remote s)"] by simp
  qed
  show ?thesis
  proof (cases a)
    case (SmtpTry x u p)
    show ?thesis
      using fails [of "RemoteAuthEmail (ExpandLocalPart (trim_space u) (DefaultMailDomain cfg))
        (RemoteAuthEmailLocalPartOnly cfg)" p "NewClient (RemoteHTTPBase cfg) (Lang cfg)"]
      by (auto simp: SmtpTry authHandler_def Let_def split: prod.split bool.split)
  next
    case (ImapTry x u p)
    show ?thesis
      using fails [of "RemoteAuthEmail (ExpandLocalPart u (DefaultMailDomain cfg))
        (RemoteAuthEmailLocalPartOnly cfg)" p
        "(NewClient (RemoteHTTPBase cfg) (Lang cfg))\<lparr>AssetURL := RemoteAssetBase cfg\<rparr>"]
      by (auto simp: ImapTry Login_def Let_def split: prod.split bool.split)
  qed
qed

lemma try_all_simps [simp]:
  "try_all cfg svc clock [] s = s"
  "try_all cfg svc clock (a # as) s = try_all cfg svc clock as (snd (try_login cfg svc clock a s))"
  by (simp_all add: try_all_def)

text \<open>The requests that a row of refused attempts of one address costs are its guesses.\<close>

lemma try_all_guesses:
  assumes "refuses svc" "\<forall>a \<in> set as. attempt_ip a = ip"
    and "\<forall>k. lo \<le> clock k \<and> clock k < lo + BlockDuration"
  shows "\<exists>ts. (\<forall>t \<in> set ts. fst t < lo + BlockDuration \<and> lo \<le> snd t) \<and>
    fst (remote (try_all cfg (counting svc) clock as s)) =
    fst (remote s) + guess_count Allowed RecordFailure ip ts (limit s)"
  using assms(2)
proof (induction as arbitrary: s)
  case Nil
  show ?case by (rule exI [of _ "[]"]) simp
next
  case (Cons a as)
  let ?t = "snd (try_login cfg (counting svc) clock a s)"
  have "\<forall>a \<in> set as. attempt_ip a = ip" using Cons.prems by simp
  then obtain ts where ts: "\<forall>t \<in> set ts. fst t < lo + BlockDuration \<and> lo \<le> snd t"
      "fst (remote (try_all cfg (counting svc) clock as ?t)) =
       fst (remote ?t) + guess_count Allowed RecordFailure ip ts (limit ?t)"
    using Cons.IH [of ?t] by blast
  obtain ok l where al: "Allowed (clock (ticks s)) ip (limit s) = (ok, l)"
    by (cases "Allowed (clock (ticks s)) ip (limit s)")
  obtain w where "try_login cfg (counting svc) clock a s =
      (if ok then (False, s\<lparr>limit := RecordFailure (clock (ticks s + 1)) ip l, ticks := ticks s + 2,
                            remote := (Suc (fst (remote s)), w)\<rparr>)
       else (False, s\<lparr>limit := l, ticks := ticks s + 1\<rparr>))"
    using try_login_refused [OF assms(1), of cfg clock a s] Cons.prems al by (cases ok) auto
  then have "fst (remote (try_all cfg (counting svc) clock (a # as) s)) =
      fst (remote s) + guess_count Allowed RecordFailure ip ((clock (ticks s), clock (ticks s + 1)) # ts) (limit s)"
    using ts(2) al by (cases ok) simp_all
  moreover have "\<forall>t \<in> set ((clock (ticks s), clock (ticks s + 1)) # ts).
      fst t < lo + BlockDuration \<and> lo \<le> snd t"
    using ts(1) assms(3) by auto
  ultimately show ?case by blast
qed

section \<open>Properties\<close>

text \<open>
  C36: The limit holds across protocols: when the service refuses every attempt, the attempts of
  one address over SMTP and IMAP together that are made one after the other within five minutes
  reach the service at most five times, from every state that the tracker can reach.
\<close>

theorem shared_guess_limit:
  assumes "refuses svc" "\<forall>a \<in> set as. attempt_ip a = ip" "ip \<noteq> []"
    and "\<forall>k. lo \<le> clock k \<and> clock k < lo + BlockDuration"
    and "limit s = limit_run history New"
  shows "fst (remote (try_all cfg (counting svc) clock as s)) \<le> fst (remote s) + 5"
proof -
  obtain ts where ts: "\<forall>t \<in> set ts. fst t < lo + BlockDuration \<and> lo \<le> snd t"
      "fst (remote (try_all cfg (counting svc) clock as s)) =
       fst (remote s) + guess_count Allowed RecordFailure ip ts (limit s)"
    using try_all_guesses [OF assms(1,2,4)] by blast
  have "guess_count Allowed RecordFailure ip ts (limit s) \<le> MaxFailedAttempts"
    using assms(3,5) ts(1) by (intro tracker_gate.guesses_bounded) (auto intro: tracker_ok_run)
  with ts(2) show ?thesis by (simp add: MaxFailedAttempts_def)
qed

text \<open>A service that answers every request with status 0.\<close>

definition closed_service :: "unit service" where
  "closed_service req w =
     (Inr \<lparr>Status = 0, Message = ''no'', Mails = [], Total = None, Folders = [], Tags = [], RespData = None\<rparr>, w)"

lemma closed_service_refuses: "refuses closed_service"
  by (simp add: refuses_def Authorize_def Do_def closed_service_def)

lemma shared_guess_limit_witness:
  "fst (remote (try_all (Load (\<lambda>_. [])) (counting closed_service) (\<lambda>_. 0)
     (replicate 9 (SmtpTry (OtherAddr ''h'') ''u'' ''p'') @ [ImapTry (OtherAddr ''h'') ''u'' ''q''])
     \<lparr>limit = New, tokens = Map.empty, ticks = 0, remote = (0, ())\<rparr>)) \<le> 5"
proof -
  have "host_or_all ''h'' = ''h''" by (simp add: host_or_all_def split_host_def)
  then show ?thesis
    using shared_guess_limit [of closed_service "replicate 9 (SmtpTry (OtherAddr ''h'') ''u'' ''p'') @
        [ImapTry (OtherAddr ''h'') ''u'' ''q'']" "''h''" 0 "\<lambda>_. 0"
        "\<lparr>limit = New, tokens = Map.empty, ticks = 0, remote = (0, ())\<rparr>" "[]" "Load (\<lambda>_. [])"]
      closed_service_refuses
    by (auto simp: BlockDuration_def simp del: replicate.simps)
qed

text \<open>
  C38: AUTH succeeds exactly if the tracker lets the address try and the service accepts the
  completed login name with the password; then, and only then, the connection has a client,
  with a token, and no other connection's client changes, even for the same host.
\<close>

theorem authHandler_outcome:
  assumes "authHandler cfg svc clock addr u p s = ((ok, err), t)"
  shows "err = None \<and>
    (ok \<longleftrightarrow> fst (Allowed (clock (ticks s)) (ClientIP (Some addr)) (limit s)) \<and>
       fst (Authorize svc (RemoteAuthEmail (ExpandLocalPart (trim_space u) (DefaultMailDomain cfg))
              (RemoteAuthEmailLocalPartOnly cfg)) p (NewClient (RemoteHTTPBase cfg) (Lang cfg)) (remote s)) = None) \<and>
    (ok \<longrightarrow> (\<exists>c. tokens t (addr_string addr) = Some c \<and> cli_token c \<noteq> [])) \<and>
    (\<not> ok \<longrightarrow> tokens t = tokens s) \<and>
    (\<forall>k. k \<noteq> addr_string addr \<longrightarrow> tokens t k = tokens s k)"
proof -
  obtain al l where al: "Allowed (clock (ticks s)) (ClientIP (Some addr)) (limit s) = (al, l)"
    by (cases "Allowed (clock (ticks s)) (ClientIP (Some addr)) (limit s)")
  obtain e c w where au: "Authorize svc (RemoteAuthEmail (ExpandLocalPart (trim_space u) (DefaultMailDomain cfg))
      (RemoteAuthEmailLocalPartOnly cfg)) p (NewClient (RemoteHTTPBase cfg) (Lang cfg)) (remote s) = (e, c, w)"
    by (rule prod_cases3)
  have "cli_token c \<noteq> []" if "e = None" using au that Authorize_ok_token by metis
  with assms al au show ?thesis
    by (cases al; cases e) (auto simp: authHandler_def Let_def)
qed

definition open_service :: "unit service" where
  "open_service req w =
     (Inr \<lparr>Status = 1, Message = [], Mails = [], Total = None, Folders = [], Tags = [],
           RespData = Some (JStr ''tok'')\<rparr>, w)"

lemma open_service_token: "Authorize open_service email p c w = (None, c\<lparr>cli_token := ''tok''\<rparr>, w)"
  by (simp add: Authorize_def Do_def open_service_def ExtractToken_def)

lemma authHandler_outcome_witness:
  "tokens (snd (authHandler (Load (\<lambda>_. [])) open_service (\<lambda>_. 0) (OtherAddr ''h'') ''u'' ''p''
     \<lparr>limit = New, tokens = Map.empty, ticks = 0, remote = ()\<rparr>)) ''h'' \<noteq> None"
proof -
  let ?s = "\<lparr>limit = New, tokens = Map.empty, ticks = 0, remote = ()\<rparr>"
  obtain ok err t where a: "authHandler (Load (\<lambda>_. [])) open_service (\<lambda>_. 0) (OtherAddr ''h'') ''u'' ''p'' ?s = ((ok, err), t)"
    by (metis surj_pair)
  have "fst (Allowed 0 (ClientIP (Some (OtherAddr ''h''))) New)"
    by (simp add: Allowed_def New_def)
  then show ?thesis using authHandler_outcome [OF a] a by (auto simp: open_service_token)
qed

end
