(* ===== verification/Imap_User.thy ===== *)
theory Imap_User
  imports Mailbox_Index Login_Handlers
begin

text \<open>
  The user of an IMAP connection, \<open>internal/imapbackend/user.go\<close>: listing, opening,
  creating, renaming and deleting mailboxes through the remote API.

  Each login has a user of its own and a connection carries out its commands one after the
  other, so the state is passed from operation to operation.  The remote service, the clock,
  the order in which Go visits a map and the quoting of \<open>fmt\<close> are arguments, the record
  \<open>imap_env\<close>.
\<close>

section \<open>State\<close>

record summary_cache =
  sc_at :: int
  sc_summaries :: "mail_summary list"
  sc_spec :: MailboxSpec

text \<open>
  What changes in a \<open>User\<close>: the cached lists, the name index, how often the clock was read,
  and the outside world of the service.
\<close>

record 'w imap_user =
  acct :: user
  listCache :: "string \<rightharpoonup> summary_cache"
  nameIndex :: spec_map
  reads :: nat
  api :: 'w

record 'w imap_env =
  ie_service :: "'w service"
  ie_clock :: "nat \<Rightarrow> int"
  ie_names :: "spec_map \<Rightarrow> string list"
  ie_pending :: "u32 set \<Rightarrow> u32 list"
  ie_quote :: "string \<Rightarrow> string"

definition loggedIn :: "user \<Rightarrow> 'w \<Rightarrow> 'w imap_user" where
  "loggedIn a w = \<lparr>acct = a, listCache = Map.empty, nameIndex = Map.empty, reads = 0, api = w\<rparr>"

text \<open>The two errors that the IMAP server tells apart, and any other.\<close>

datatype imap_error = NoSuchMailbox | MailboxAlreadyExists | Failed go_error

type_synonym 'a imap_result = "imap_error + 'a"

text \<open>An object of type \<open>Mailbox\<close>; \<open>uidValidity\<close> is the FNV-1a hash of user and name.\<close>

record mailbox =
  mb_name :: string
  mb_spec :: MailboxSpec
  uidValidity :: u32
  pendingDeleted :: "u32 set"

unbundle bit_operations_syntax

definition fnv32a_byte :: "u32 \<Rightarrow> char \<Rightarrow> u32" where
  "fnv32a_byte h c = (h XOR word_of_nat (of_char c)) * 16777619"

definition fnv32a :: "string \<Rightarrow> u32" where
  "fnv32a s = foldl fnv32a_byte 2166136261 s"

definition newMailbox :: "user \<Rightarrow> string \<Rightarrow> MailboxSpec \<Rightarrow> mailbox" where
  "newMailbox a name spec =
     \<lparr>mb_name = name, mb_spec = spec, uidValidity = fnv32a (user_email a @ ''|'' @ name @ ''|v1''),
      pendingDeleted = {}\<rparr>"

section \<open>Calls of the service\<close>

definition call :: "'w imap_env \<Rightarrow> request \<Rightarrow> 'w imap_user \<Rightarrow> response result \<times> 'w imap_user" where
  "call E req u =
     (case Do (ie_service E) (user_cli (acct u)) req (api u) of (r, w) \<Rightarrow> (r, u\<lparr>api := w\<rparr>))"

definition foldersTagsRequest :: "user \<Rightarrow> request" where
  "foldersTagsRequest a =
     emptyRequest\<lparr>Service := ''account'', Action := ''folders_tags'', Token := cli_token (user_cli a)\<rparr>"

text \<open>The answer to \<open>folders_tags\<close>; \<open>None\<close> for an error or a status other than 1.\<close>

definition fetchFoldersTags :: "'w imap_env \<Rightarrow> user \<Rightarrow> 'w fetch" where
  "fetchFoldersTags E a w =
     (case Do (ie_service E) (user_cli a) (foldersTagsRequest a) w of
        (Inl _, w1) \<Rightarrow> (None, w1)
      | (Inr resp, w1) \<Rightarrow> (if Status resp = 1 then Some (Folders resp, Tags resp) else None, w1))"

definition setIndex :: "'w resolver \<Rightarrow> 'w imap_user \<Rightarrow> 'w imap_user" where
  "setIndex v u = u\<lparr>nameIndex := ix_map v, api := ix_world v\<rparr>"

definition getIndex :: "'w imap_user \<Rightarrow> 'w resolver" where
  "getIndex u = \<lparr>ix_map = nameIndex u, ix_world = api u\<rparr>"

definition refreshIndex :: "'w imap_env \<Rightarrow> 'w imap_user \<Rightarrow> 'w imap_user" where
  "refreshIndex E u = setIndex (refreshFolderTagNameIndex (fetchFoldersTags E (acct u)) (getIndex u)) u"

definition resolveSpec ::
    "'w imap_env \<Rightarrow> string \<Rightarrow> 'w imap_user \<Rightarrow> MailboxSpec result \<times> 'w imap_user" where
  "resolveSpec E name u =
     (case ResolveMailboxSpec (fetchFoldersTags E (acct u)) (ie_names E) name (getIndex u) of
        (r, v) \<Rightarrow> (r, setIndex v u))"

text \<open>The text of a refused change.\<close>

definition refusalMsg :: "response \<Rightarrow> string" where
  "refusalMsg resp =
     (let msg = trim_space (ResponseErrMsg resp) in
      if msg = [] then trim_space (Message resp) else msg)"

section \<open>Operations\<close>

definition standardMailbox :: "user \<Rightarrow> string \<Rightarrow> mailbox list" where
  "standardMailbox a n =
     (case ParseMailboxName n of
        Inl _ \<Rightarrow> []
      | Inr spec \<Rightarrow> [newMailbox a (CanonicalName spec) spec])"

definition ListMailboxes :: "'w imap_env \<Rightarrow> 'w imap_user \<Rightarrow> mailbox list \<times> 'w imap_user" where
  "ListMailboxes E u =
     (let std = concat (map (standardMailbox (acct u)) standardNames) in
      case fetchFoldersTags E (acct u) (api u) of
        (ft, w) \<Rightarrow>
          (let ix = rebuildMailboxNameIndex ft in
           (std @ map (\<lambda>(n, spec). newMailbox (acct u) n spec) (extras ix),
            u\<lparr>nameIndex := specByListName ix, api := w\<rparr>)))"

definition GetMailbox ::
    "'w imap_env \<Rightarrow> string \<Rightarrow> 'w imap_user \<Rightarrow> mailbox imap_result \<times> 'w imap_user" where
  "GetMailbox E name u =
     (case resolveSpec E name u of
        (Inl _, v) \<Rightarrow> (Inl NoSuchMailbox, v)
      | (Inr spec, v) \<Rightarrow> (Inr (newMailbox (acct v) name spec), v))"

text \<open>Four English words and the Russian one for \<open>already\<close>, in UTF-8.\<close>

definition uzhe :: string where
  "uzhe = [CHR 0xD1, CHR 0x83, CHR 0xD0, CHR 0xB6, CHR 0xD0, CHR 0xB5]"

definition folderNewLooksDuplicate :: "string \<Rightarrow> bool" where
  "folderNewLooksDuplicate msg \<longleftrightarrow>
     (let m = to_lower msg in
      contains_str m ''exist'' \<or> contains_str m ''duplicate'' \<or> contains_str m ''already'' \<or>
      contains_str m ''same'' \<or> contains_str m uzhe)"

text \<open>A change went through: cached lists are dropped and the index is read again.\<close>

definition afterChange :: "'w imap_env \<Rightarrow> 'w imap_user \<Rightarrow> 'w imap_user" where
  "afterChange E u =
     refreshIndex E (u\<lparr>listCache := invalidateFolderTagListCaches (listCache u)\<rparr>)"

definition createRequest :: "user \<Rightarrow> bool \<Rightarrow> string \<Rightarrow> request" where
  "createRequest a tagCreate name =
     (if tagCreate then
        emptyRequest\<lparr>Service := ''mail'', Action := ''tag-new'', CurrentLang := user_viewLang a,
          Data := [''name'' \<mapsto> JStr name, ''color'' \<mapsto> JStr (user_tagColor a)],
          Token := cli_token (user_cli a)\<rparr>
      else
        emptyRequest\<lparr>Service := ''mail'', Action := ''folder-new'', CurrentLang := user_viewLang a,
          Data := [''name'' \<mapsto> JStr name], Token := cli_token (user_cli a)\<rparr>)"

text \<open>The name that is created, and whether it is a tag.\<close>

definition createName :: "string \<Rightarrow> (bool \<times> string) result" where
  "createName name =
     (case tagCreateDisplayName name of
        Some label \<Rightarrow> Inr (True, label)
      | None \<Rightarrow> (case folderNameForAPI name of Inl e \<Rightarrow> Inl e | Inr n \<Rightarrow> Inr (False, n)))"

definition CreateMailbox ::
    "'w imap_env \<Rightarrow> string \<Rightarrow> 'w imap_user \<Rightarrow> imap_error option \<times> 'w imap_user" where
  "CreateMailbox E name u =
     (case createName name of
        Inl e \<Rightarrow> (Some (Failed e), u)
      | Inr (tagCreate, apiName) \<Rightarrow>
          (case resolveSpec E apiName (refreshIndex E u) of
             (r, u1) \<Rightarrow>
               if (case r of Inl _ \<Rightarrow> False | Inr spec \<Rightarrow> Param1 spec = ''folders'' \<or> Param1 spec = ''tags'')
               then (Some MailboxAlreadyExists, u1)
               else (case call E (createRequest (acct u) tagCreate apiName) u1 of
                   (Inl e, u2) \<Rightarrow> (Some (Failed e), u2)
                 | (Inr resp, u2) \<Rightarrow>
                     if \<not> MailMutationOK (Some resp) then
                       (Some (if folderNewLooksDuplicate (refusalMsg resp) then MailboxAlreadyExists
                              else Failed (ErrText ((if tagCreate then ''tag-new: '' else ''folder-new: '') @
                                refusalMsg resp))), u2)
                     else (None, afterChange E u2))))"

definition remoteAccountLang :: "user \<Rightarrow> string" where
  "remoteAccountLang a = or_else (trim_space (cli_Lang (user_cli a))) ''ru''"

definition folderByID :: "'w imap_env \<Rightarrow> int \<Rightarrow> 'w imap_user \<Rightarrow> folder option \<times> 'w imap_user" where
  "folderByID E n u =
     (case fetchFoldersTags E (acct u) (api u) of
        (ft, w) \<Rightarrow>
          ((case ft of None \<Rightarrow> None | Some (fs, _) \<Rightarrow> find (\<lambda>f. folder_ID f = n) fs), u\<lparr>api := w\<rparr>))"

definition deleteRequest :: "user \<Rightarrow> bool \<Rightarrow> int \<Rightarrow> request" where
  "deleteRequest a isTag n =
     emptyRequest\<lparr>Service := ''mail'', Action := (if isTag then ''tag-delete'' else ''folder-delete''),
       CurrentLang := (if isTag then user_viewLang a else remoteAccountLang a),
       Data := (if isTag then [''id'' \<mapsto> JNum n] else [''id'' \<mapsto> JNum n, ''folder_id'' \<mapsto> JNum n]),
       Token := cli_token (user_cli a)\<rparr>"

definition DeleteMailbox ::
    "'w imap_env \<Rightarrow> string \<Rightarrow> 'w imap_user \<Rightarrow> imap_error option \<times> 'w imap_user" where
  "DeleteMailbox E name u =
     (case resolveSpec E name u of
        (Inl _, u1) \<Rightarrow> (Some NoSuchMailbox, u1)
      | (Inr spec, u1) \<Rightarrow>
          if Param2 spec = [] \<or> Param1 spec \<noteq> ''folders'' \<and> Param1 spec \<noteq> ''tags'' then
            (Some (Failed (ErrText ''only user folders and tags can be deleted'')), u1)
          else (case atoi (Param2 spec) of
            (n, ok) \<Rightarrow>
              if \<not> ok \<or> n \<le> 0 then (Some NoSuchMailbox, u1)
              else (let isTag = (Param1 spec = ''tags''); req = deleteRequest (acct u) isTag n in
                case call E req u1 of
                  (Inl e, u2) \<Rightarrow> (Some (Failed e), u2)
                | (Inr resp, u2) \<Rightarrow>
                    if \<not> MailMutationOK (Some resp) then
                      (Some (Failed (ErrText (Action req @ '': '' @ refusalMsg resp))), u2)
                    else (None, afterChange E (u2\<lparr>listCache := invalidateSpec spec (listCache u2)\<rparr>)))))"

definition renameRequest :: "user \<Rightarrow> int \<Rightarrow> string \<Rightarrow> folder \<Rightarrow> request" where
  "renameRequest a n name f =
     emptyRequest\<lparr>Service := ''mail'', Action := ''folder-edit'', CurrentLang := user_viewLang a,
       Data := [''id'' \<mapsto> JNum n, ''name'' \<mapsto> JStr name, ''from'' \<mapsto> JStr (folder_From f),
                ''contains'' \<mapsto> JStr (folder_Contains f)],
       Token := cli_token (user_cli a)\<rparr>"

definition RenameMailbox ::
    "'w imap_env \<Rightarrow> string \<Rightarrow> string \<Rightarrow> 'w imap_user \<Rightarrow> imap_error option \<times> 'w imap_user" where
  "RenameMailbox E existing newName u =
     (case resolveSpec E existing u of
        (Inl _, u1) \<Rightarrow> (Some NoSuchMailbox, u1)
      | (Inr spec, u1) \<Rightarrow>
          if Param1 spec \<noteq> ''folders'' \<or> Param2 spec = [] then
            (Some (Failed (ErrText ''rename supported for folders only'')), u1)
          else (case atoi (Param2 spec) of
            (n, ok) \<Rightarrow>
              if \<not> ok \<or> n \<le> 0 then (Some NoSuchMailbox, u1)
              else (case folderNameForAPI newName of
                Inl e \<Rightarrow> (Some (Failed e), u1)
              | Inr apiName \<Rightarrow>
                  (case folderByID E n u1 of
                     (None, u2) \<Rightarrow> (Some NoSuchMailbox, u2)
                   | (Some f, u2) \<Rightarrow>
                       if trim_space (folder_Name f) = trim_space apiName then (None, u2)
                       else (case call E (renameRequest (acct u) n apiName f) u2 of
                           (Inl e, u3) \<Rightarrow> (Some (Failed e), u3)
                         | (Inr resp, u3) \<Rightarrow>
                             if \<not> MailMutationOK (Some resp) then
                               (Some (Failed (ErrText (''folder-edit: '' @ refusalMsg resp))), u3)
                             else (None, afterChange E (u3\<lparr>listCache := invalidateSpec spec (listCache u3)\<rparr>)))))))"

section \<open>Requests\<close>

text \<open>
  The environment that keeps the requests, and those of them that may change something: all
  but the reads of folders and tags, of a list and of a mail.
\<close>

definition logged :: "'w imap_env \<Rightarrow> (request list \<times> 'w) imap_env" where
  "logged E = \<lparr>ie_service = recording (ie_service E), ie_clock = ie_clock E, ie_names = ie_names E,
     ie_pending = ie_pending E, ie_quote = ie_quote E\<rparr>"

definition is_change :: "request \<Rightarrow> bool" where
  "is_change req \<longleftrightarrow> Action req \<notin> {''folders_tags'', ''default'', ''view''}"

definition changes :: "(request list \<times> 'w) imap_user \<Rightarrow> request list" where
  "changes u = filter is_change (fst (api u))"

lemma logged_sel [simp]:
  "ie_service (logged E) = recording (ie_service E)" "ie_clock (logged E) = ie_clock E"
  "ie_names (logged E) = ie_names E" "ie_pending (logged E) = ie_pending E"
  "ie_quote (logged E) = ie_quote E"
  by (simp_all add: logged_def)

lemma foldersTags_no_change [simp]: "\<not> is_change (foldersTagsRequest a)"
  by (simp add: is_change_def foldersTagsRequest_def)

lemma is_change_fill [simp]: "is_change (fill_request c req) = is_change req"
  by (simp add: is_change_def)

lemma fetchFoldersTags_world:
  "snd (fetchFoldersTags E a w) = snd (Do (ie_service E) (user_cli a) (foldersTagsRequest a) w)"
  by (simp add: fetchFoldersTags_def split: prod.split sum.split)

interpretation logged_fetch: quiet_fetch "fetchFoldersTags (logged E) a" "\<lambda>w. filter is_change (fst w)"
  by unfold_locales (simp add: fetchFoldersTags_world Do_def)

lemma resolveSpec_frame:
  assumes "resolveSpec E name u = (r, v)"
  shows "acct v = acct u" "listCache v = listCache u" "reads v = reads u"
  using assms by (auto simp: resolveSpec_def setIndex_def split: prod.splits)

lemma resolveSpec_changes: "resolveSpec (logged E) name u = (r, v) \<Longrightarrow> changes v = changes u"
  using logged_fetch.resolve_quiet [of E "acct u" "ie_names E" name "getIndex u"]
  by (auto simp: resolveSpec_def setIndex_def changes_def getIndex_def split: prod.splits)

lemma refreshIndex_frame [simp]:
  "acct (refreshIndex E u) = acct u" "listCache (refreshIndex E u) = listCache u" "reads (refreshIndex E u) = reads u"
  by (simp_all add: refreshIndex_def setIndex_def)

lemma refreshIndex_changes [simp]: "changes (refreshIndex (logged E) u) = changes u"
  using logged_fetch.refresh_quiet [of E "acct u" "getIndex u"]
  by (simp add: refreshIndex_def setIndex_def changes_def getIndex_def)

lemma afterChange_frame [simp]:
  "acct (afterChange E u) = acct u" "listCache (afterChange E u) = invalidateFolderTagListCaches (listCache u)"
  by (simp_all add: afterChange_def)

lemma afterChange_changes [simp]: "changes (afterChange (logged E) u) = changes u"
  unfolding afterChange_def by (simp add: changes_def [of "u\<lparr>listCache := c\<rparr>" for c]) (simp add: changes_def)

lemma call_frame:
  assumes "call E req u = (r, v)"
  shows "acct v = acct u" "listCache v = listCache u" "nameIndex v = nameIndex u" "reads v = reads u"
  using assms by (auto simp: call_def split: prod.splits)

lemma call_changes:
  "is_change req \<Longrightarrow> call (logged E) req u = (r, v) \<Longrightarrow>
   changes v = changes u @ [fill_request (user_cli (acct u)) req]"
  by (auto simp: call_def changes_def Do_def recording_def split: prod.splits)

lemma folderByID_frame:
  assumes "folderByID E n u = (r, v)"
  shows "acct v = acct u" "listCache v = listCache u"
  using assms by (auto simp: folderByID_def split: prod.splits)

lemma folderByID_changes: "folderByID (logged E) n u = (r, v) \<Longrightarrow> changes v = changes u"
  using logged_fetch.fetch_quiet [of E "acct u" "api u"]
  by (auto simp: folderByID_def changes_def split: prod.splits)

lemma requests_are_changes [simp]:
  "is_change (createRequest a b n)" "is_change (deleteRequest a b k)" "is_change (renameRequest a k n f)"
  by (simp_all add: is_change_def createRequest_def deleteRequest_def renameRequest_def)

section \<open>Properties\<close>

text \<open>The commands that change mailboxes.\<close>

datatype mailbox_command =
    Create string
  | Delete string
  | Rename string string

fun run_command ::
    "'w imap_env \<Rightarrow> mailbox_command \<Rightarrow> 'w imap_user \<Rightarrow> imap_error option \<times> 'w imap_user" where
  "run_command E (Create n) u = CreateMailbox E n u"
| "run_command E (Delete n) u = DeleteMailbox E n u"
| "run_command E (Rename a b) u = RenameMailbox E a b u"

lemmas frame = resolveSpec_frame call_frame folderByID_frame
lemmas traced = resolveSpec_changes call_changes folderByID_changes

lemma changes_listCache [simp]: "changes (u\<lparr>listCache := c\<rparr>) = changes u"
  by (simp add: changes_def)

text \<open>
  What a command may do: nothing, or send one change, after which a success drops cached
  lists.
\<close>

definition did_nothing ::
    "(request list \<times> 'w) imap_user \<Rightarrow> (request list \<times> 'w) imap_user \<Rightarrow> bool" where
  "did_nothing u v \<longleftrightarrow> changes v = changes u \<and> listCache v = listCache u \<and> acct v = acct u"

definition did_send ::
    "request \<Rightarrow> (string \<rightharpoonup> summary_cache) \<Rightarrow> imap_error option
     \<Rightarrow> (request list \<times> 'w) imap_user \<Rightarrow> (request list \<times> 'w) imap_user \<Rightarrow> bool" where
  "did_send req dropped err u v \<longleftrightarrow>
     changes v = changes u @ [fill_request (user_cli (acct u)) req] \<and> acct v = acct u \<and>
     listCache v = (if err = None then dropped else listCache u)"

lemma CreateMailbox_effect:
  assumes "CreateMailbox (logged E) name u = (err, v)"
  shows "did_nothing u v \<and> err \<noteq> None \<or>
    (\<exists>t n. createName name = Inr (t, n) \<and>
       did_send (createRequest (acct u) t n) (invalidateFolderTagListCaches (listCache u)) err u v)"
proof (cases "createName name")
  case (Inl e)
  with assms show ?thesis by (auto simp: CreateMailbox_def did_nothing_def)
next
  case (Inr tn)
  obtain t n where tn: "tn = (t, n)" by (cases tn)
  obtain r u1 where r: "resolveSpec (logged E) n (refreshIndex (logged E) u) = (r, u1)"
    by (cases "resolveSpec (logged E) n (refreshIndex (logged E) u)")
  note u1 = resolveSpec_frame [OF r] resolveSpec_changes [OF r]
  obtain r2 u2 where c: "call (logged E) (createRequest (acct u) t n) u1 = (r2, u2)"
    by (cases "call (logged E) (createRequest (acct u) t n) u1")
  note u2 = call_frame [OF c] call_changes [OF _ c]
  show ?thesis
    using assms u1 u2 Inr tn r c
    by (auto simp: CreateMailbox_def did_nothing_def did_send_def split: if_split_asm sum.split_asm)
qed

lemma DeleteMailbox_effect:
  assumes "DeleteMailbox (logged E) name u = (err, v)"
  shows "did_nothing u v \<and> err \<noteq> None \<or>
    (\<exists>spec n. fst (resolveSpec (logged E) name u) = Inr spec \<and> Param1 spec \<in> {''folders'', ''tags''} \<and>
       atoi (Param2 spec) = (n, True) \<and> 0 < n \<and>
       did_send (deleteRequest (acct u) (Param1 spec = ''tags'') n)
         (invalidateFolderTagListCaches (invalidateSpec spec (listCache u))) err u v)"
proof -
  obtain r u1 where r: "resolveSpec (logged E) name u = (r, u1)"
    by (cases "resolveSpec (logged E) name u")
  note u1 = resolveSpec_frame [OF r] resolveSpec_changes [OF r]
  show ?thesis
  proof (cases r)
    case (Inl e)
    with assms r u1 show ?thesis by (auto simp: DeleteMailbox_def did_nothing_def)
  next
    case (Inr spec)
    obtain n ok where n: "atoi (Param2 spec) = (n, ok)" by (cases "atoi (Param2 spec)")
    let ?req = "deleteRequest (acct u) (Param1 spec = ''tags'') n"
    obtain r2 u2 where c: "call (logged E) ?req u1 = (r2, u2)" by (cases "call (logged E) ?req u1")
    note u2 = call_frame [OF c] call_changes [OF _ c]
    show ?thesis
      using assms u1 u2 Inr n r c
      by (auto simp: DeleteMailbox_def did_nothing_def did_send_def Let_def split: if_split_asm sum.split_asm)
  qed
qed

lemma folderByID_found: "folderByID E n u = (Some f, v) \<Longrightarrow> folder_ID f = n"
  by (auto simp: folderByID_def find_Some_iff split: prod.splits option.splits)

lemma RenameMailbox_effect:
  assumes "RenameMailbox (logged E) old name u = (err, v)"
  shows "did_nothing u v \<or>
    (\<exists>spec n nm f. fst (resolveSpec (logged E) old u) = Inr spec \<and> Param1 spec = ''folders'' \<and>
       atoi (Param2 spec) = (n, True) \<and> 0 < n \<and> folderNameForAPI name = Inr nm \<and> folder_ID f = n \<and>
       did_send (renameRequest (acct u) n nm f)
         (invalidateFolderTagListCaches (invalidateSpec spec (listCache u))) err u v)"
proof -
  obtain r u1 where r: "resolveSpec (logged E) old u = (r, u1)"
    by (cases "resolveSpec (logged E) old u")
  note u1 = resolveSpec_frame [OF r] resolveSpec_changes [OF r]
  show ?thesis
  proof (cases r)
    case (Inl e)
    with assms r u1 show ?thesis by (auto simp: RenameMailbox_def did_nothing_def)
  next
    case (Inr spec)
    obtain n ok where n: "atoi (Param2 spec) = (n, ok)" by (cases "atoi (Param2 spec)")
    obtain fo u2 where fo: "folderByID (logged E) n u1 = (fo, u2)" by (cases "folderByID (logged E) n u1")
    note u2 = folderByID_frame [OF fo] folderByID_changes [OF fo]
    show ?thesis
    proof (cases "\<exists>nm f. folderNameForAPI name = Inr nm \<and> fo = Some f")
      case False
      with assms u1 u2 Inr n r fo show ?thesis
        by (auto simp: RenameMailbox_def did_nothing_def split: if_split_asm sum.split_asm option.split_asm)
    next
      case True
      then obtain nm f where nm: "folderNameForAPI name = Inr nm" and f: "fo = Some f" by blast
      let ?req = "renameRequest (acct u) n nm f"
      obtain r3 u3 where c: "call (logged E) ?req u2 = (r3, u3)" by (cases "call (logged E) ?req u2")
      note u3 = call_frame [OF c] call_changes [OF _ c]
      have "folder_ID f = n" using fo f folderByID_found by metis
      with assms u1 u2 u3 Inr n r fo f nm c show ?thesis
        by (auto simp: RenameMailbox_def did_nothing_def did_send_def split: if_split_asm sum.split_asm)
    qed
  qed
qed

lemma invalidate_numbered [simp]:
  assumes "Param1 spec = ''folders'' \<or> Param1 spec = ''tags''" "Param2 spec \<noteq> []"
  shows "invalidateFolderTagListCaches (invalidateSpec spec c) = invalidateFolderTagListCaches c"
  using assms by (auto simp: invalidateFolderTagListCaches_def invalidateSpec_def specCacheKey_def)

lemma atoi_Nil: "atoi [] = (n, True) \<Longrightarrow> False"
  by (simp add: atoi_digits_def)

text \<open>The change that a command may ask for.\<close>

definition change_for ::
    "'w imap_env \<Rightarrow> (request list \<times> 'w) imap_user \<Rightarrow> mailbox_command \<Rightarrow> request \<Rightarrow> bool" where
  "change_for E u c req \<longleftrightarrow>
     (case c of
         Create name \<Rightarrow> \<exists>t n. createName name = Inr (t, n) \<and> req = createRequest (acct u) t n
       | Delete name \<Rightarrow> \<exists>spec n. fst (resolveSpec (logged E) name u) = Inr spec \<and>
           Param1 spec \<in> {''folders'', ''tags''} \<and> atoi (Param2 spec) = (n, True) \<and> 0 < n \<and>
           req = deleteRequest (acct u) (Param1 spec = ''tags'') n
       | Rename old name \<Rightarrow> \<exists>spec n nm f. fst (resolveSpec (logged E) old u) = Inr spec \<and>
           Param1 spec = ''folders'' \<and> atoi (Param2 spec) = (n, True) \<and> 0 < n \<and>
           folderNameForAPI name = Inr nm \<and> folder_ID f = n \<and> req = renameRequest (acct u) n nm f)"

lemma run_command_effect:
  assumes "run_command (logged E) c u = (err, v)"
  shows "did_nothing u v \<or>
    (\<exists>req. did_send req (invalidateFolderTagListCaches (listCache u)) err u v \<and>
      change_for E u c req)"
proof (cases c)
  case (Create name)
  with assms CreateMailbox_effect [of E name u err v] show ?thesis by (auto simp: change_for_def)
next
  case (Delete name)
  with assms have "DeleteMailbox (logged E) name u = (err, v)" by simp
  from DeleteMailbox_effect [OF this] show ?thesis
  proof
    assume "\<exists>spec n. fst (resolveSpec (logged E) name u) = Inr spec \<and> Param1 spec \<in> {''folders'', ''tags''} \<and>
       atoi (Param2 spec) = (n, True) \<and> 0 < n \<and>
       did_send (deleteRequest (acct u) (Param1 spec = ''tags'') n)
         (invalidateFolderTagListCaches (invalidateSpec spec (listCache u))) err u v"
    then obtain spec n where d: "fst (resolveSpec (logged E) name u) = Inr spec"
      "Param1 spec \<in> {''folders'', ''tags''}" "atoi (Param2 spec) = (n, True)" "0 < n"
      "did_send (deleteRequest (acct u) (Param1 spec = ''tags'') n)
         (invalidateFolderTagListCaches (invalidateSpec spec (listCache u))) err u v" by blast
    then have "Param2 spec \<noteq> []" using atoi_Nil by metis
    with d(2,5) have "did_send (deleteRequest (acct u) (Param1 spec = ''tags'') n)
         (invalidateFolderTagListCaches (listCache u)) err u v" by simp
    with d(1-4) Delete show ?thesis by (auto simp: change_for_def)
  qed blast
next
  case (Rename old name)
  with assms have "RenameMailbox (logged E) old name u = (err, v)" by simp
  from RenameMailbox_effect [OF this] show ?thesis
  proof
    assume "\<exists>spec n nm f. fst (resolveSpec (logged E) old u) = Inr spec \<and> Param1 spec = ''folders'' \<and>
       atoi (Param2 spec) = (n, True) \<and> 0 < n \<and> folderNameForAPI name = Inr nm \<and> folder_ID f = n \<and>
       did_send (renameRequest (acct u) n nm f)
         (invalidateFolderTagListCaches (invalidateSpec spec (listCache u))) err u v"
    then obtain spec n nm f where d: "fst (resolveSpec (logged E) old u) = Inr spec" "Param1 spec = ''folders''"
      "atoi (Param2 spec) = (n, True)" "0 < n" "folderNameForAPI name = Inr nm" "folder_ID f = n"
      "did_send (renameRequest (acct u) n nm f)
         (invalidateFolderTagListCaches (invalidateSpec spec (listCache u))) err u v" by blast
    then have "Param2 spec \<noteq> []" using atoi_Nil by metis
    with d(2,7) have "did_send (renameRequest (acct u) n nm f) (invalidateFolderTagListCaches (listCache u)) err u v"
      by simp
    with d(1-6) Rename show ?thesis by (auto simp: change_for_def)
  qed blast
qed

text \<open>
  C8: CREATE, DELETE and RENAME send the service at most one change each.  CREATE asks for
  the checked name; DELETE and RENAME carry the number of the folder or tag that the name
  resolves to, so no standard mailbox is ever touched, and RENAME passes the folder's own
  sorting rule back.
\<close>

theorem mailbox_changes_targeted:
  assumes "run_command (logged E) c u = (err, v)"
  shows "changes v = changes u \<or>
    (\<exists>req. changes v = changes u @ [fill_request (user_cli (acct u)) req] \<and>
      change_for E u c req)"
  using run_command_effect [OF assms] unfolding did_nothing_def did_send_def by blast

text \<open>
  A command that fails leaves every cached list; one that succeeds leaves those of the
  standard mailboxes, and after a change drops those of all folders and tags.
\<close>

theorem mailbox_command_caches:
  assumes "run_command (logged E) c u = (err, v)"
  shows "(err \<noteq> None \<longrightarrow> listCache v = listCache u) \<and>
    (spec_ok sp \<longrightarrow> listCache v (specCacheKey sp) =
       (if err = None \<and> changes v \<noteq> changes u \<and> Param1 sp \<in> {''folders'', ''tags''} then None
        else listCache u (specCacheKey sp)))"
proof -
  have drop: "invalidateFolderTagListCaches (listCache u) (specCacheKey sp) =
      (if Param1 sp \<in> {''folders'', ''tags''} then None else listCache u (specCacheKey sp))" if "spec_ok sp"
    using cache_invalidation [OF that that] by blast
  show ?thesis using run_command_effect [OF assms]
  proof
    assume "did_nothing u v"
    then show ?thesis by (simp add: did_nothing_def)
  next
    assume "\<exists>req. did_send req (invalidateFolderTagListCaches (listCache u)) err u v \<and> change_for E u c req"
    then show ?thesis using drop by (auto simp: did_send_def)
  qed
qed

text \<open>A small service for examples: one folder, and every change is accepted.\<close>

definition demo_api :: "unit service" where
  "demo_api req w =
     (Inr \<lparr>Status = 1, Message = [], Mails = [], Total = None, Folders = [work_folder], Tags = [],
           RespData = None\<rparr>, w)"

definition demo_imap :: "unit imap_env" where
  "demo_imap = \<lparr>ie_service = demo_api, ie_clock = (\<lambda>_. 0), ie_names = (\<lambda>_. []), ie_pending = (\<lambda>_. []),
     ie_quote = (\<lambda>s. s)\<rparr>"

definition demo_acct :: user where
  "demo_acct = newUser ''u@h'' ((NewClient ''b'' ''ru'')\<lparr>cli_token := ''tok''\<rparr>) 500 [] [] [] []"

lemma demo_sent: "resolveSpec (logged demo_imap) ''Sent'' u = (Inr \<lparr>Param1 = ''sent'', Param2 = []\<rparr>, setIndex (getIndex u) u)"
proof -
  have "\<not> has_prefix (to_lower (trim_space ''Sent'')) ''tag-''"
    by (simp add: trim_space_all_visible visible_def to_lower_Cons lower_char_letters lower_char_other)
  then show ?thesis by (simp add: resolveSpec_def parsed_resolves [OF parse_standard(2)])
qed

lemma mailbox_changes_targeted_witness:
  "changes (snd (run_command (logged demo_imap) (Delete ''Sent'') (loggedIn demo_acct ([], ())))) = []"
  using mailbox_changes_targeted [of demo_imap "Delete ''Sent''" "loggedIn demo_acct ([], ())"
      "fst (run_command (logged demo_imap) (Delete ''Sent'') (loggedIn demo_acct ([], ())))"
      "snd (run_command (logged demo_imap) (Delete ''Sent'') (loggedIn demo_acct ([], ())))"]
  by (simp add: change_for_def demo_sent loggedIn_def changes_def)

lemma mailbox_command_caches_witness:
  "listCache (snd (run_command (logged demo_imap) (Delete ''Sent'') (loggedIn demo_acct ([], ()))))
     (specCacheKey \<lparr>Param1 = ''inbox'', Param2 = []\<rparr>) = None"
  using mailbox_command_caches [of demo_imap "Delete ''Sent''" "loggedIn demo_acct ([], ())"
      "fst (run_command (logged demo_imap) (Delete ''Sent'') (loggedIn demo_acct ([], ())))"
      "snd (run_command (logged demo_imap) (Delete ''Sent'') (loggedIn demo_acct ([], ())))"
      "\<lparr>Param1 = ''inbox'', Param2 = []\<rparr>"]
  by (simp add: loggedIn_def spec_ok_def standard_params_def)

section \<open>LIST and SELECT\<close>

lemma standard_listed:
  assumes "m \<in> set (concat (map (standardMailbox a) standardNames))"
  shows "ParseMailboxName (mb_name m) = Inr (mb_spec m) \<and> m = newMailbox a (mb_name m) (mb_spec m) \<and>
    \<not> has_prefix (to_lower (trim_space (mb_name m))) ''tag-''"
  using assms unfolding standardNames_def
  by (auto simp: standardMailbox_def parse_standard CanonicalName_def newMailbox_def trim_space_all_visible
      visible_def to_lower_Cons lower_char_letters lower_char_other)

text \<open>
  A name that stands for its mailbox alone: it has no blanks around it, is not the canonical name
  of another listed mailbox, and does not read as the standard or numbered name of another, unless
  it begins with the prefix of the tags, whose names are looked up first.
\<close>

definition own_name :: "mailbox list \<Rightarrow> mailbox \<Rightarrow> bool" where
  "own_name boxes m \<longleftrightarrow>
     trim_space (mb_name m) = mb_name m \<and> mb_name m \<noteq> [] \<and>
     (\<forall>m' \<in> set boxes. mb_spec m' = mb_spec m \<or> mb_name m \<noteq> CanonicalName (mb_spec m')) \<and>
     (case ParseMailboxName (mb_name m) of
        Inl _ \<Rightarrow> True
      | Inr sp \<Rightarrow> sp = mb_spec m \<or> has_prefix (to_lower (mb_name m)) ''tag-'')"

lemma standard_own_name:
  "m \<in> set (concat (map (standardMailbox a) standardNames)) \<Longrightarrow>
   trim_space (mb_name m) = mb_name m \<and> mb_name m \<noteq> [] \<and> Param2 (mb_spec m) = []"
  unfolding standardNames_def
  by (auto simp: standardMailbox_def parse_standard CanonicalName_def newMailbox_def trim_space_all_visible visible_def)

lemma extras_numbered: "(n, sp) \<in> set (extras (rebuildMailboxNameIndex ft)) \<Longrightarrow> Param2 sp \<noteq> []"
proof (cases ft)
  case (Some p)
  assume "(n, sp) \<in> set (extras (rebuildMailboxNameIndex ft))"
  then have "sp \<in> set (map snd (extras (rebuildMailboxNameIndex ft)))" by force
  then have "sp \<in> set (map folder_spec (fst p) @ map tag_spec (snd p))"
    using rebuild_specs [of "fst p" "snd p"] Some by (simp del: set_map)
  then show ?thesis by (auto simp: folder_spec_def tag_spec_def)
qed (simp add: rebuildMailboxNameIndex_def)

lemma listed_opens:
  assumes l: "ListMailboxes E u = (boxes, v)" and m: "m \<in> set boxes"
    and clash: "m \<in> set (concat (map (standardMailbox (acct u)) standardNames)) \<or>
      (\<forall>m' \<in> set boxes. mb_spec m' = mb_spec m \<or> mb_name m \<noteq> CanonicalName (mb_spec m'))"
    and name: "trim_space (mb_name m) = mb_name m" "mb_name m \<noteq> []"
    and form: "ParseMailboxName (mb_name m) = Inr (mb_spec m) \<or> ParseMailboxName (mb_name m) = Inl e \<or>
      has_prefix (to_lower (mb_name m)) ''tag-''"
  shows "GetMailbox E (mb_name m) v = (Inr m, v)"
proof -
  obtain ft w where ft: "fetchFoldersTags E (acct u) (api u) = (ft, w)"
    by (cases "fetchFoldersTags E (acct u) (api u)")
  let ?ix = "rebuildMailboxNameIndex ft"
  let ?std = "concat (map (standardMailbox (acct u)) standardNames)"
  let ?box = "\<lambda>(n, spec). newMailbox (acct u) n spec"
  have b: "boxes = ?std @ map ?box (extras ?ix)" and v: "v = u\<lparr>nameIndex := specByListName ?ix, api := w\<rparr>"
    using l ft by (simp_all add: ListMailboxes_def Let_def)
  have self: "m = newMailbox (acct u) (mb_name m) (mb_spec m)"
    using m standard_listed [of m "acct u"] by (auto simp: b newMailbox_def)
  have "ResolveMailboxSpec (fetchFoldersTags E (acct v)) (ie_names E) (mb_name m) (getIndex v) =
      (Inr (mb_spec m), getIndex v)"
  proof (cases "ParseMailboxName (mb_name m) = Inr (mb_spec m) \<and> \<not> has_prefix (to_lower (mb_name m)) ''tag-''")
    case True
    then show ?thesis using name by (intro parsed_resolves) simp_all
  next
    case False
    then have "m \<notin> set ?std" using standard_listed [of m "acct u"] name by auto
    then have "(mb_name m, mb_spec m) \<in> set (extras ?ix)" using m by (auto simp: b newMailbox_def)
    moreover have "\<forall>sp' \<in> listed ?ix. sp' = mb_spec m \<or> mb_name m \<noteq> CanonicalName sp'"
      using clash \<open>m \<notin> set ?std\<close> by (force simp: b listed_def newMailbox_def)
    moreover have "\<exists>e. has_prefix (to_lower (mb_name m)) ''tag-'' \<or> ParseMailboxName (mb_name m) = Inl e"
      using form False by blast
    moreover have "ix_map (getIndex v) = specByListName ?ix" by (simp add: getIndex_def v)
    ultimately show ?thesis using name by (auto intro: listed_name_resolves)
  qed
  with self show ?thesis
    by (simp add: GetMailbox_def resolveSpec_def setIndex_def getIndex_def v)
qed

text \<open>
  C10: Right after LIST, opening a listed mailbox by the name shown gives the very same mailbox,
  with the same UIDVALIDITY, and without a call of the service: always for the standard mailboxes,
  whatever folders and tags there are, and for a folder or tag as long as the name shown stands
  for it alone.  Lemma \<open>label_shadows_folder\<close> of \<open>Mailbox_Index\<close> shows that the condition is needed.
\<close>

theorem listed_mailbox_opens:
  assumes "ListMailboxes E u = (boxes, v)"
  shows "\<forall>m \<in> set boxes. Param2 (mb_spec m) = [] \<or> own_name boxes m \<longrightarrow>
    GetMailbox E (mb_name m) v = (Inr m, v)"
proof (intro ballI impI, elim disjE)
  fix m assume m: "m \<in> set boxes" "Param2 (mb_spec m) = []"
  have std: "m \<in> set (concat (map (standardMailbox (acct u)) standardNames))"
  proof (rule ccontr)
    assume "\<not> ?thesis"
    then obtain n sp ft where "m = newMailbox (acct u) n sp" "(n, sp) \<in> set (extras (rebuildMailboxNameIndex ft))"
      using assms m(1) by (auto simp: ListMailboxes_def Let_def simp del: set_concat split: prod.splits)
    then have "Param2 sp \<noteq> []" using extras_numbered by blast
    with m(2) show False by (simp add: \<open>m = newMailbox (acct u) n sp\<close> newMailbox_def)
  qed
  show "GetMailbox E (mb_name m) v = (Inr m, v)"
    by (rule listed_opens [OF assms m(1)])
      (use std standard_own_name [OF std] standard_listed [OF std] in blast)+
next
  fix m assume m: "m \<in> set boxes" "own_name boxes m"
  then show "GetMailbox E (mb_name m) v = (Inr m, v)"
    by (cases "ParseMailboxName (mb_name m)")
      (auto simp: own_name_def intro: listed_opens [OF assms m(1)])
qed

lemma demo_list:
  "ListMailboxes demo_imap (loggedIn demo_acct ()) =
     (concat (map (standardMailbox demo_acct) standardNames) @
        [newMailbox demo_acct ''Work'' \<lparr>Param1 = ''folders'', Param2 = ''2''\<rparr>],
      (loggedIn demo_acct ())\<lparr>nameIndex := specByListName (rebuildMailboxNameIndex (Some ([work_folder], [])))\<rparr>)"
  by (simp add: ListMailboxes_def fetchFoldersTags_def Do_def demo_imap_def demo_api_def work_index loggedIn_def)

lemma listed_mailbox_opens_witness:
  "fst (GetMailbox demo_imap ''Work'' (snd (ListMailboxes demo_imap (loggedIn demo_acct ())))) =
     Inr (newMailbox demo_acct ''Work'' \<lparr>Param1 = ''folders'', Param2 = ''2''\<rparr>)"
proof -
  let ?m = "newMailbox demo_acct ''Work'' \<lparr>Param1 = ''folders'', Param2 = ''2''\<rparr>"
  have std: False if "n \<in> set standardNames" "m' \<in> set (standardMailbox demo_acct n)"
    "''Work'' = CanonicalName (mb_spec m')" for n m'
  proof -
    have "CanonicalName (mb_spec m') \<in> set standardNames"
      using that(1,2) unfolding standardNames_def
      by (auto simp: standardMailbox_def parse_standard CanonicalName_def newMailbox_def)
    then show ?thesis using that(3) [symmetric] by (simp add: standardNames_def)
  qed
  have name: "mb_name ?m = ''Work''" by (simp add: newMailbox_def)
  have "own_name (fst (ListMailboxes demo_imap (loggedIn demo_acct ()))) ?m"
    unfolding own_name_def name by (auto dest: std simp: work_name demo_list)
  moreover have "?m \<in> set (fst (ListMailboxes demo_imap (loggedIn demo_acct ())))" by (simp add: demo_list)
  ultimately have "GetMailbox demo_imap (mb_name ?m) (snd (ListMailboxes demo_imap (loggedIn demo_acct ()))) =
      (Inr ?m, snd (ListMailboxes demo_imap (loggedIn demo_acct ())))"
    using listed_mailbox_opens [OF prod.collapse [symmetric], of demo_imap "loggedIn demo_acct ()"] by blast
  then show ?thesis unfolding name by simp
qed

end
