(* ===== verification/Imap_Mailbox.thy ===== *)
theory Imap_Mailbox
  imports Imap_User
begin

text \<open>
  The messages of a mailbox, \<open>internal/imapbackend/mailbox.go\<close>: loading the list of a
  mailbox from the remote API page by page, with its cache, addressing messages by number
  or UID, flags, copy, move, expunge and append.

  A set of message numbers is \<open>imap.SeqSet\<close> of the library: a record of the three methods
  that the code calls.  Go's \<open>sort.Slice\<close> is \<open>sort_key\<close>; they agree as the numbers of the
  mails in a list differ.  \<open>uint32(n)\<close> is \<open>word_of_int n\<close>.
\<close>

section \<open>Flags and sets of numbers\<close>

definition SeenFlag :: string where "SeenFlag = CHR 0x5C # ''Seen''"
definition AnsweredFlag :: string where "AnsweredFlag = CHR 0x5C # ''Answered''"
definition FlaggedFlag :: string where "FlaggedFlag = CHR 0x5C # ''Flagged''"
definition DeletedFlag :: string where "DeletedFlag = CHR 0x5C # ''Deleted''"
definition DraftFlag :: string where "DraftFlag = CHR 0x5C # ''Draft''"

lemmas flag_defs = SeenFlag_def AnsweredFlag_def FlaggedFlag_def DeletedFlag_def DraftFlag_def

datatype flags_op = SetFlags | AddFlags | RemoveFlags

record seq_set =
  ss_Empty :: bool
  ss_Contains :: "u32 \<Rightarrow> bool"
  ss_Dynamic :: bool

definition seqSetAddressesMessage :: "bool \<Rightarrow> seq_set option \<Rightarrow> u32 \<Rightarrow> u32 \<Rightarrow> u32 \<Rightarrow> bool" where
  "seqSetAddressesMessage uid seqSet matchID maxSeq maxUID \<longleftrightarrow>
     (case seqSet of
        None \<Rightarrow> False
      | Some ss \<Rightarrow>
          if ss_Empty ss then False
          else if matchID = 0 then False
          else if ss_Contains ss matchID then True
          else if \<not> ss_Dynamic ss then False
          else (let limit = (if uid then maxUID else maxSeq) in limit \<noteq> 0 \<and> matchID = limit))"

section \<open>Loading a list\<close>

definition summaryCacheTTL :: int where
  "summaryCacheTTL = 45 * second"

definition listRequest :: "user \<Rightarrow> MailboxSpec \<Rightarrow> nat \<Rightarrow> request" where
  "listRequest a spec page =
     emptyRequest\<lparr>Service := ''mail'', Action := ''default'',
       Params := (\<lambda>k. map_option JStr (paramsFromSpec spec k)), Page := int page,
       Token := cli_token (user_cli a), CurrentLang := user_defaultLang a\<rparr>"

text \<open>Whether the loop stops after a page, given all summaries so far and the page's answer.\<close>

definition listComplete :: "user \<Rightarrow> nat \<Rightarrow> mail_summary list \<Rightarrow> response \<Rightarrow> bool" where
  "listComplete a page sofar resp \<longleftrightarrow>
     Mails resp = [] \<or> user_maxList a \<le> int (length sofar) \<or>
     (case Total resp of None \<Rightarrow> False | Some n \<Rightarrow> 0 < n \<and> n \<le> int (length sofar)) \<or>
     500 < page + 1"

function loadPages ::
    "'w imap_env \<Rightarrow> MailboxSpec \<Rightarrow> nat \<Rightarrow> mail_summary list \<Rightarrow> 'w imap_user
     \<Rightarrow> mail_summary list result \<times> 'w imap_user" where
  "loadPages E spec page sofar u =
     (case call E (listRequest (acct u) spec page) u of
        (Inl e, v) \<Rightarrow> (Inl e, v)
      | (Inr resp0, v) \<Rightarrow>
          (let resp = MergeMailListFields resp0 in
           if \<not> MailListResponseOK resp then
             (if 1 < page \<and> 0 < length sofar then (Inr sofar, v)
              else (Inl (ErrText (''list mail: '' @ ResponseErrMsg resp)), v))
           else (let sofar1 = sofar @ Mails resp in
             if listComplete (acct u) page sofar1 resp then (Inr sofar1, v)
             else loadPages E spec (page + 1) sofar1 v)))"
  by pat_completeness auto
termination
  by (relation "measure (\<lambda>(_, _, page, _, _). 501 - page)") (auto simp: listComplete_def)

declare loadPages.simps [simp del]

text \<open>A list that is not in the cache, or too old there, is loaded and kept.\<close>

definition freshList ::
    "'w imap_env \<Rightarrow> MailboxSpec \<Rightarrow> 'w imap_user \<Rightarrow> mail_summary list result \<times> 'w imap_user" where
  "freshList E spec u =
     (case loadPages E spec 1 [] u of
        (Inl e, v) \<Rightarrow> (Inl e, v)
      | (Inr ms, v) \<Rightarrow>
          (Inr ms, v\<lparr>listCache := (listCache v)(specCacheKey spec \<mapsto>
                       \<lparr>sc_at = ie_clock E (reads v), sc_summaries = ms, sc_spec = spec\<rparr>),
                     reads := reads v + 1\<rparr>))"

definition loadSummaries ::
    "'w imap_env \<Rightarrow> MailboxSpec \<Rightarrow> 'w imap_user \<Rightarrow> mail_summary list result \<times> 'w imap_user" where
  "loadSummaries E spec u =
     (case listCache u (specCacheKey spec) of
        None \<Rightarrow> freshList E spec u
      | Some ent \<Rightarrow>
          (let u1 = u\<lparr>reads := reads u + 1\<rparr> in
           if ie_clock E (reads u) - sc_at ent < summaryCacheTTL then (Inr (sc_summaries ent), u1)
           else freshList E spec u1))"

section \<open>Numbers and flags of messages\<close>

definition uid_of :: "mail_summary \<Rightarrow> u32" where
  "uid_of s = word_of_int (mail_ID s)"

definition maxUIDOf :: "mail_summary list \<Rightarrow> u32" where
  "maxUIDOf sums = fold (\<lambda>s mx. if mx < uid_of s then uid_of s else mx) sums 0"

definition mailboxMaxSeqAndUID :: "mail_summary list \<Rightarrow> u32 \<times> u32" where
  "mailboxMaxSeqAndUID sums = (word_of_nat (length sums), maxUIDOf sums)"

definition nextUID :: "mail_summary list \<Rightarrow> u32" where
  "nextUID sums = maxUIDOf sums + 1"

definition countUnseen :: "mail_summary list \<Rightarrow> u32" where
  "countUnseen sums = fold (\<lambda>s n. if \<not> Read s then n + 1 else n) sums 0"

definition byID :: "mail_summary list \<Rightarrow> mail_summary list" where
  "byID sums = sort_key mail_ID sums"

definition numbered :: "mail_summary list \<Rightarrow> (u32 \<times> mail_summary) list" where
  "numbered sums = zip (map (\<lambda>i. word_of_nat (i + 1)) [0..<length sums]) sums"

text \<open>The messages that a set of numbers or UIDs stands for, in the order of their loop.\<close>

definition addressed :: "bool \<Rightarrow> seq_set option \<Rightarrow> mail_summary list \<Rightarrow> (u32 \<times> mail_summary) list" where
  "addressed uid seqSet sums0 =
     (let sums = byID sums0 in
      case mailboxMaxSeqAndUID sums of (maxSeq, maxUID) \<Rightarrow>
        filter (\<lambda>(seqNum, s).
            seqSetAddressesMessage uid seqSet (if uid then uid_of s else seqNum) maxSeq maxUID)
          (numbered sums))"

definition summaryFlags :: "MailboxSpec \<Rightarrow> mail_summary \<Rightarrow> string list" where
  "summaryFlags spec s =
     (if Read s then [SeenFlag] else []) @
     (if Important s then [FlaggedFlag] else []) @
     (if Param1 spec = ''draft'' then [DraftFlag] else [])"

definition flagsFor :: "mailbox \<Rightarrow> u32 \<Rightarrow> mail_summary \<Rightarrow> string list" where
  "flagsFor m uid s =
     summaryFlags (mb_spec m) s @ (if uid \<in> pendingDeleted m then [DeletedFlag] else [])"

section \<open>STATUS\<close>

datatype status_item =
  StatusMessages | StatusRecent | StatusUidNext | StatusUidValidity | StatusUnseen | StatusOther string

record mailbox_status =
  st_name :: string
  st_items :: "status_item list"
  st_Flags :: "string list"
  st_PermanentFlags :: "string list"
  st_Messages :: u32
  st_Recent :: u32
  st_Unseen :: u32
  st_UidNext :: u32
  st_UidValidity :: u32

fun status_step :: "mailbox \<Rightarrow> mail_summary list \<Rightarrow> status_item \<Rightarrow> mailbox_status \<Rightarrow> mailbox_status" where
  "status_step m sums StatusMessages st = st\<lparr>st_Messages := word_of_nat (length sums)\<rparr>"
| "status_step m sums StatusUidNext st = st\<lparr>st_UidNext := nextUID sums\<rparr>"
| "status_step m sums StatusUidValidity st = st\<lparr>st_UidValidity := uidValidity m\<rparr>"
| "status_step m sums StatusUnseen st = st\<lparr>st_Unseen := countUnseen sums\<rparr>"
| "status_step m sums StatusRecent st = st\<lparr>st_Recent := 0\<rparr>"
| "status_step m sums (StatusOther _) st = st"

definition mailboxFlags :: "string list" where
  "mailboxFlags = [SeenFlag, DeletedFlag, FlaggedFlag, DraftFlag, AnsweredFlag]"

definition Status_of ::
    "'w imap_env \<Rightarrow> mailbox \<Rightarrow> status_item list \<Rightarrow> 'w imap_user \<Rightarrow> mailbox_status result \<times> 'w imap_user" where
  "Status_of E m items u =
     (case loadSummaries E (mb_spec m) u of
        (Inl e, v) \<Rightarrow> (Inl e, v)
      | (Inr sums, v) \<Rightarrow>
          (Inr (fold (status_step m sums) items
             \<lparr>st_name = mb_name m, st_items = items, st_Flags = mailboxFlags,
              st_PermanentFlags = mailboxFlags @ [[CHR 0x5C, CHR ''*'']],
              st_Messages = 0, st_Recent = 0, st_Unseen = 0, st_UidNext = 0, st_UidValidity = 0\<rparr>), v))"

section \<open>Changing messages\<close>

definition actionRequest :: "user \<Rightarrow> MailboxSpec \<Rightarrow> int \<Rightarrow> string \<Rightarrow> string option \<Rightarrow> request" where
  "actionRequest a spec n action value =
     emptyRequest\<lparr>Service := ''mail'', Action := ''mail-action'', CurrentLang := user_viewLang a,
       PageID := Some (JStr (PageIDForMailboxSpec spec)),
       Data := (case value of
           None \<Rightarrow> [''id'' \<mapsto> JStr (itoa n), ''action'' \<mapsto> JStr action]
         | Some x \<Rightarrow> [''id'' \<mapsto> JStr (itoa n), ''action'' \<mapsto> JStr action, ''value'' \<mapsto> JStr x]),
       Token := cli_token (user_cli a)\<rparr>"

definition mailAction ::
    "'w imap_env \<Rightarrow> MailboxSpec \<Rightarrow> int \<Rightarrow> string \<Rightarrow> string option \<Rightarrow> 'w imap_user
     \<Rightarrow> go_error option \<times> 'w imap_user" where
  "mailAction E spec n action value u =
     (case call E (actionRequest (acct u) spec n action value) u of
        (Inl e, v) \<Rightarrow> (Some e, v)
      | (Inr resp, v) \<Rightarrow>
          if \<not> MailMutationOK (Some resp)
          then (Some (ErrText (''mail-action '' @ action @ '': '' @ refusalMsg resp)), v)
          else (None, v))"

definition invalidate :: "MailboxSpec \<Rightarrow> 'w imap_user \<Rightarrow> 'w imap_user" where
  "invalidate spec u = u\<lparr>listCache := invalidateSpec spec (listCache u)\<rparr>"

definition applyFlag ::
    "'w imap_env \<Rightarrow> int \<Rightarrow> flags_op \<Rightarrow> string \<Rightarrow> mailbox \<times> 'w imap_user
     \<Rightarrow> go_error option \<times> mailbox \<times> 'w imap_user" where
  "applyFlag E mailID op f mu =
     (case mu of (m, u) \<Rightarrow>
        let setting = (op = AddFlags \<or> op = SetFlags); uid = word_of_int mailID;
            act = (\<lambda>name. mailAction E (mb_spec m) mailID name None u) in
        if f = SeenFlag then
          (if setting then (case act ''read'' of (err, v) \<Rightarrow> (err, m, v)) else (None, m, u))
        else if f = DeletedFlag then
          (if setting then
             (case act ''delete'' of
                (Some e, v) \<Rightarrow> (Some e, m, v)
              | (None, v) \<Rightarrow> (None, m\<lparr>pendingDeleted := insert uid (pendingDeleted m)\<rparr>, v))
           else (None, m\<lparr>pendingDeleted := pendingDeleted m - {uid}\<rparr>, u))
        else if f = FlaggedFlag then
          (if setting then (case act ''important'' of (err, v) \<Rightarrow> (err, m, v)) else (None, m, u))
        else (None, m, u))"

definition applyFlagOp ::
    "'w imap_env \<Rightarrow> int \<Rightarrow> flags_op \<Rightarrow> string list \<Rightarrow> mailbox \<times> 'w imap_user
     \<Rightarrow> go_error option \<times> mailbox \<times> 'w imap_user" where
  "applyFlagOp E mailID op flags mu = for_each (applyFlag E mailID op) flags mu"

definition UpdateMessagesFlags ::
    "'w imap_env \<Rightarrow> bool \<Rightarrow> seq_set option \<Rightarrow> flags_op \<Rightarrow> string list \<Rightarrow> mailbox \<times> 'w imap_user
     \<Rightarrow> go_error option \<times> mailbox \<times> 'w imap_user" where
  "UpdateMessagesFlags E uid seqSet op flags mu =
     (case mu of (m, u) \<Rightarrow>
        (case loadSummaries E (mb_spec m) u of
           (Inl e, v) \<Rightarrow> (Some e, m, v)
         | (Inr sums, v) \<Rightarrow>
             (case for_each (\<lambda>(_, s). applyFlagOp E (mail_ID s) op flags) (addressed uid seqSet sums) (m, v) of
                (Some e, m1, w) \<Rightarrow> (Some e, m1, w)
              | (None, m1, w) \<Rightarrow> (None, m1, invalidate (mb_spec m) w))))"

definition copyOne ::
    "'w imap_env \<Rightarrow> MailboxSpec \<Rightarrow> MailboxSpec \<Rightarrow> string \<Rightarrow> int \<Rightarrow> 'w imap_user
     \<Rightarrow> go_error option \<times> 'w imap_user" where
  "copyOne E spec dest destName n u =
     (if Param1 dest = ''tags'' then mailAction E spec n ''move-to-tag'' (Some (Param2 dest)) u
      else if Param1 dest = ''folders'' then mailAction E spec n ''move-to-folder'' (Some (Param2 dest)) u
      else (Some (ErrText (''COPY to '' @ destName @ '': use a tag or user folder from LIST'')), u))"

definition CopyMessages ::
    "'w imap_env \<Rightarrow> bool \<Rightarrow> seq_set option \<Rightarrow> string \<Rightarrow> mailbox \<Rightarrow> 'w imap_user
     \<Rightarrow> go_error option \<times> 'w imap_user" where
  "CopyMessages E uid seqSet destName m u =
     (case resolveSpec E destName u of
        (Inl e, u1) \<Rightarrow> (Some e, u1)
      | (Inr dest, u1) \<Rightarrow>
          (case loadSummaries E (mb_spec m) u1 of
             (Inl e, u2) \<Rightarrow> (Some e, u2)
           | (Inr sums, u2) \<Rightarrow>
               for_each (\<lambda>(_, s). copyOne E (mb_spec m) dest destName (mail_ID s)) (addressed uid seqSet sums) u2))"

definition moveOne ::
    "'w imap_env \<Rightarrow> MailboxSpec \<Rightarrow> MailboxSpec \<Rightarrow> string \<Rightarrow> int \<Rightarrow> 'w imap_user
     \<Rightarrow> go_error option \<times> 'w imap_user" where
  "moveOne E spec dest destName n u =
     (if Param1 dest = ''trash'' then mailAction E spec n ''delete'' None u
      else if Param1 dest = ''tags'' then mailAction E spec n ''move-to-tag'' (Some (Param2 dest)) u
      else if Param1 dest = ''folders'' then mailAction E spec n ''move-to-folder'' (Some (Param2 dest)) u
      else (Some (ErrText (''MOVE to '' @ ie_quote E destName @
              '': not supported (use Trash or a user folder/tag)'')), u))"

definition MoveMessages ::
    "'w imap_env \<Rightarrow> bool \<Rightarrow> seq_set option \<Rightarrow> string \<Rightarrow> mailbox \<Rightarrow> 'w imap_user
     \<Rightarrow> go_error option \<times> 'w imap_user" where
  "MoveMessages E uid seqSet destName m u =
     (case resolveSpec E destName u of
        (Inl e, u1) \<Rightarrow> (Some e, u1)
      | (Inr dest, u1) \<Rightarrow>
          if Param1 dest = Param1 (mb_spec m) \<and> Param2 dest = Param2 (mb_spec m) then (None, u1)
          else (case loadSummaries E (mb_spec m) u1 of
             (Inl e, u2) \<Rightarrow> (Some e, u2)
           | (Inr sums, u2) \<Rightarrow>
               (case for_each (\<lambda>(_, s). moveOne E (mb_spec m) dest destName (mail_ID s))
                       (addressed uid seqSet sums) u2 of
                  (Some e, u3) \<Rightarrow> (Some e, u3)
                | (None, u3) \<Rightarrow> (None, invalidate dest (invalidate (mb_spec m) u3)))))"

text \<open>\<open>int(id)\<close> of a \<open>uint32\<close> is its value.\<close>

definition expungeOne ::
    "'w imap_env \<Rightarrow> u32 \<Rightarrow> mailbox \<times> 'w imap_user \<Rightarrow> go_error option \<times> mailbox \<times> 'w imap_user" where
  "expungeOne E uid mu =
     (case mu of (m, u) \<Rightarrow>
        (case mailAction E (mb_spec m) (uint uid) ''delete'' None u of
           (Some e, v) \<Rightarrow> (Some e, m, v)
         | (None, v) \<Rightarrow> (None, m\<lparr>pendingDeleted := pendingDeleted m - {uid}\<rparr>, v)))"

definition Expunge ::
    "'w imap_env \<Rightarrow> mailbox \<times> 'w imap_user \<Rightarrow> go_error option \<times> mailbox \<times> 'w imap_user" where
  "Expunge E mu =
     (case for_each (expungeOne E) (ie_pending E (pendingDeleted (fst mu))) mu of
        (Some e, m1, v) \<Rightarrow> (Some e, m1, v)
      | (None, m1, v) \<Rightarrow> (None, m1, invalidate (mb_spec m1) v))"

section \<open>APPEND\<close>

text \<open>Header lines and body lines, cut at the first blank line.\<close>

fun split_header :: "string list \<Rightarrow> string list \<times> string list" where
  "split_header [] = ([], [])"
| "split_header (ln # ls) =
     (if trim_space ln = [] then ([], ls) else (case split_header ls of (h, b) \<Rightarrow> (ln # h, b)))"

definition after_colon :: "string \<Rightarrow> string option" where
  "after_colon ln = (case cut_char CHR '':'' ln of None \<Rightarrow> None | Some (_, v) \<Rightarrow> Some (trim_space v))"

definition compose_line :: "string \<Rightarrow> string \<times> string list \<Rightarrow> string \<times> string list" where
  "compose_line ln acc =
     (case acc of (subject, rcpts) \<Rightarrow>
        let lower = to_lower ln;
            subject1 = (if has_prefix lower ''subject:''
                        then (case after_colon ln of Some v \<Rightarrow> v | None \<Rightarrow> subject) else subject);
            rcpts1 = (if has_prefix lower ''to:''
                      then rcpts @ filter (\<lambda>p. p \<noteq> []) (map trim_space (split_char CHR '',''
                             (case after_colon ln of Some v \<Rightarrow> v | None \<Rightarrow> [])))
                      else rcpts)
        in (subject1, rcpts1))"

definition parseMIMEForCompose :: "string \<Rightarrow> string \<times> string \<times> string list" where
  "parseMIMEForCompose raw =
     (case split_header (split_char CHR 0x0A raw) of (hdr, body) \<Rightarrow>
        case fold compose_line hdr ([], []) of (subject, rcpts) \<Rightarrow>
          (if subject = [] then ''(no subject)'' else subject,
           trim_space (join_str [CHR 0x0A] body), rcpts))"

definition draftRequest :: "user \<Rightarrow> string \<Rightarrow> string \<Rightarrow> string list \<Rightarrow> request" where
  "draftRequest a subj html rcpts =
     emptyRequest\<lparr>Service := ''mail'', Action := ''message-new'', Draft := Some True,
       Data := [''subject'' \<mapsto> JStr subj, ''message'' \<mapsto> JStr html,
                ''users'' \<mapsto> JStr (join_str '','' rcpts), ''attaches'' \<mapsto> JArr []],
       CurrentLang := user_composeLang a, Token := cli_token (user_cli a)\<rparr>"

definition CreateMessage ::
    "'w imap_env \<Rightarrow> string list \<Rightarrow> string result \<Rightarrow> mailbox \<Rightarrow> 'w imap_user
     \<Rightarrow> go_error option \<times> 'w imap_user" where
  "CreateMessage E flags body m u =
     (case body of
        Inl e \<Rightarrow> (Some e, u)
      | Inr b \<Rightarrow>
          if DraftFlag \<notin> set flags then
            (Some (ErrText (''APPEND supported for Drafts with '' @ DraftFlag @ '' only in this bridge'')), u)
          else (case parseMIMEForCompose b of (subj, html, rcpts) \<Rightarrow>
            (case call E (draftRequest (acct u) subj html rcpts) u of
               (Inl e, v) \<Rightarrow> (Some e, v)
             | (Inr resp, v) \<Rightarrow>
                 if \<not> MailMutationOK (Some resp) then (Some (ErrText (''draft save: '' @ Message resp)), v)
                 else (None, invalidate (mb_spec m) v))))"

end
