(* ===== verification/Mailbox_Loading.thy ===== *)
theory Mailbox_Loading
  imports Imap_Mailbox
begin

text \<open>
  What \<open>loadSummaries\<close> of \<open>internal/imapbackend/mailbox.go\<close> loads: the requests it makes,
  the list it gets from a service that hands a mailbox out in pages, and its cache.
\<close>

section \<open>The loop over the pages\<close>

lemma listComplete_500: "\<not> listComplete a page sofar resp \<Longrightarrow> page + 1 \<le> 500"
  by (simp add: listComplete_def)

lemma loadPages_cases:
  assumes "loadPages E spec page sofar u = (r, v)"
  obtains (stop) r1 where "call E (listRequest (acct u) spec page) u = (r1, v)"
  | (more) resp0 u1 resp where "call E (listRequest (acct u) spec page) u = (Inr resp0, u1)"
      "resp = MergeMailListFields resp0" "MailListResponseOK resp"
      "\<not> listComplete (acct u) page (sofar @ Mails resp) resp"
      "loadPages E spec (page + 1) (sofar @ Mails resp) u1 = (r, v)"
proof -
  obtain r1 u1 where c: "call E (listRequest (acct u) spec page) u = (r1, u1)"
    by (cases "call E (listRequest (acct u) spec page) u")
  show ?thesis
    using assms c stop more
    by (subst (asm) loadPages.simps) (simp add: Let_def split: sum.splits if_split_asm)
qed

lemma loadPages_induct [consumes 1, case_names stop more]:
  assumes "loadPages E spec page sofar u = (r, v)"
    and "\<And>page sofar u v r1. call E (listRequest (acct u) spec page) u = (r1, v) \<Longrightarrow> P page sofar u v"
    and "\<And>page sofar u v resp0 u1 resp. call E (listRequest (acct u) spec page) u = (Inr resp0, u1) \<Longrightarrow>
      resp = MergeMailListFields resp0 \<Longrightarrow> page + 1 \<le> 500 \<Longrightarrow> P (page + 1) (sofar @ Mails resp) u1 v \<Longrightarrow> P page sofar u v"
  shows "P page sofar u v"
  using assms(1)
proof (induction "501 - page" arbitrary: page sofar u rule: less_induct)
  case less
  from less.prems show ?case
  proof (cases rule: loadPages_cases)
    case (stop r1)
    then show ?thesis by (rule assms(2))
  next
    case (more resp0 u1 resp)
    have le: "page + 1 \<le> 500" using more(4) by (rule listComplete_500)
    show ?thesis
      by (rule assms(3) [OF more(1,2) le]) (rule less.hyps [OF _ more(5)], use le in simp)
  qed
qed

lemma loadPages_frame:
  assumes "loadPages E spec page sofar u = (r, v)"
  shows "acct v = acct u \<and> listCache v = listCache u \<and> nameIndex v = nameIndex u \<and> reads v = reads u"
  using assms by (induction rule: loadPages_induct) (auto simp: call_def split: prod.splits)

lemma loadSummaries_cases:
  assumes "loadSummaries E spec u = (r, v)"
  obtains (hit) ent where "listCache u (specCacheKey spec) = Some ent"
      "ie_clock E (reads u) < sc_at ent + summaryCacheTTL" "r = Inr (sc_summaries ent)" "v = u\<lparr>reads := reads u + 1\<rparr>"
  | (fresh) u1 where "acct u1 = acct u" "api u1 = api u" "listCache u1 = listCache u" "nameIndex u1 = nameIndex u"
      "freshList E spec u1 = (r, v)"
proof (cases "listCache u (specCacheKey spec)")
  case None
  with assms have "freshList E spec u = (r, v)" by (simp add: loadSummaries_def)
  then show ?thesis by (rule fresh [OF refl refl refl refl])
next
  case (Some ent)
  show ?thesis
  proof (cases "ie_clock E (reads u) - sc_at ent < summaryCacheTTL")
    case True
    with assms Some show ?thesis by (intro hit [of ent]) (auto simp: loadSummaries_def)
  next
    case False
    with assms Some have "freshList E spec (u\<lparr>reads := reads u + 1\<rparr>) = (r, v)"
      by (simp add: loadSummaries_def)
    then show ?thesis by (rule fresh [rotated 4]) simp_all
  qed
qed

lemma freshList_cases:
  assumes "freshList E spec u = (r, v)"
  obtains (failed) e where "loadPages E spec 1 [] u = (Inl e, v)" "r = Inl e"
  | (loaded) ms v1 where "loadPages E spec 1 [] u = (Inr ms, v1)" "r = Inr ms"
      "v = v1\<lparr>listCache := (listCache v1)(specCacheKey spec \<mapsto>
         \<lparr>sc_at = ie_clock E (reads v1), sc_summaries = ms, sc_spec = spec\<rparr>), reads := reads v1 + 1\<rparr>"
proof -
  obtain r1 v1 where l: "loadPages E spec 1 [] u = (r1, v1)" by (cases "loadPages E spec 1 [] u")
  show ?thesis
  proof (cases r1)
    case (Inl e)
    with assms l show ?thesis by (intro failed [of e]) (auto simp: freshList_def)
  next
    case (Inr ms)
    with assms l show ?thesis by (intro loaded [of ms v1]) (auto simp: freshList_def)
  qed
qed

lemma loadSummaries_frame:
  assumes "loadSummaries E spec u = (r, v)"
  shows "acct v = acct u \<and> nameIndex v = nameIndex u"
  using assms
proof (cases rule: loadSummaries_cases)
  case (fresh u1)
  from fresh(5) show ?thesis
  proof (cases rule: freshList_cases)
    case (failed e)
    show ?thesis using loadPages_frame [OF failed(1)] fresh(1,4) by simp
  next
    case (loaded ms v1)
    show ?thesis using loadPages_frame [OF loaded(1)] fresh(1,4) loaded(3) by simp
  qed
qed simp

section \<open>Requests\<close>

lemma call_log: "call (logged E) req u = (r, v) \<Longrightarrow>
    fst (api v) = fst (api u) @ [fill_request (user_cli (acct u)) req]"
  by (auto simp: call_def Do_def recording_def split: prod.splits)

lemma loadPages_trace:
  assumes "loadPages (logged E) spec page sofar u = (r, v)" "page \<le> 500"
  shows "\<exists>n. 1 \<le> n \<and> page + n \<le> 501 \<and> fst (api v) = fst (api u) @
    map (\<lambda>p. fill_request (user_cli (acct u)) (listRequest (acct u) spec p)) [page..<page + n]"
  using assms
proof (induction rule: loadPages_induct)
  case (stop page sofar u v r1)
  then show ?case by (intro exI [of _ 1]) (simp add: call_log)
next
  case (more page sofar u v resp0 u1 resp)
  then obtain n where n: "1 \<le> n" "page + 1 + n \<le> 501" "fst (api v) = fst (api u1) @
      map (\<lambda>p. fill_request (user_cli (acct u)) (listRequest (acct u) spec p)) [page + 1..<page + 1 + n]"
    using call_frame(1) by fastforce
  have "[page..<page + Suc n] = page # [page + 1..<page + 1 + n]"
    using upt_rec [of page "page + Suc n"] by simp
  with n more(1) show ?case by (intro exI [of _ "Suc n"]) (simp add: call_log)
qed

text \<open>
  C12: Loading the list of a mailbox always ends and costs at most 500 requests: one for each
  page, in order, all for this mailbox and with the token of the user; none if the list comes
  from the cache.
\<close>

theorem list_requests_bounded:
  assumes "loadSummaries (logged E) spec u = (r, v)"
  shows "\<exists>n \<le> 500. fst (api v) = fst (api u) @
    map (\<lambda>p. fill_request (user_cli (acct u)) (listRequest (acct u) spec p)) [1..<1 + n]"
  using assms
proof (cases rule: loadSummaries_cases)
  case (hit ent)
  then show ?thesis by (intro exI [of _ 0]) simp
next
  case (fresh u1)
  obtain r1 v1 where l: "loadPages (logged E) spec 1 [] u1 = (r1, v1)" by (cases "loadPages (logged E) spec 1 [] u1")
  then obtain n where "1 + n \<le> 501" "fst (api v1) = fst (api u1) @
      map (\<lambda>p. fill_request (user_cli (acct u1)) (listRequest (acct u1) spec p)) [1..<1 + n]"
    using loadPages_trace by fastforce
  moreover have "api v = api v1" using fresh(5) l by (cases rule: freshList_cases) auto
  ultimately show ?thesis using fresh(1,2) by (intro exI [of _ n]) simp
qed

lemma list_requests_bounded_witness:
  "\<exists>n \<le> 500. length (fst (api (snd (loadSummaries (logged demo_imap) \<lparr>Param1 = ''inbox'', Param2 = []\<rparr>
      (loggedIn demo_acct ([], ())))))) = n"
  using list_requests_bounded [OF prod.collapse [symmetric], of demo_imap "\<lparr>Param1 = ''inbox'', Param2 = []\<rparr>"
      "loggedIn demo_acct ([], ())"]
  by (auto simp: loggedIn_def)

section \<open>The list of a service\<close>

text \<open>
  A service that hands out a mailbox in pages of \<open>k\<close> mails, with or without the total.
\<close>

definition serves :: "'w service \<Rightarrow> MailboxSpec \<Rightarrow> nat \<Rightarrow> mail_summary list \<Rightarrow> bool" where
  "serves svc spec k ms \<longleftrightarrow>
     (\<forall>req w. Service req = ''mail'' \<and> Action req = ''default'' \<and>
        Params req = (\<lambda>p. map_option JStr (paramsFromSpec spec p)) \<and> 1 \<le> Page req \<longrightarrow>
        (\<exists>resp. fst (svc req w) = Inr resp \<and> Status resp = 1 \<and> RespData resp = None \<and>
           Mails resp = take k (drop ((nat (Page req) - 1) * k) ms) \<and>
           (Total resp = None \<or> Total resp = Some (int (length ms)))))"

lemma serves_page:
  assumes "serves (ie_service E) spec k ms" "1 \<le> page"
    and "call E (listRequest (acct u) spec page) u = (r, v)"
  obtains resp where "r = Inr resp" "MailListResponseOK resp" "MergeMailListFields resp = resp"
    "Mails resp = take k (drop ((page - 1) * k) ms)" "Total resp = None \<or> Total resp = Some (int (length ms))"
proof -
  let ?req = "fill_request (user_cli (acct u)) (listRequest (acct u) spec page)"
  have "Service ?req = ''mail''" "Action ?req = ''default''"
    "Params ?req = (\<lambda>p. map_option JStr (paramsFromSpec spec p))" "Page ?req = int page"
    by (simp_all add: listRequest_def)
  then obtain resp where resp: "fst (ie_service E ?req (api u)) = Inr resp" "Status resp = 1"
    "RespData resp = None" "Mails resp = take k (drop ((page - 1) * k) ms)"
    "Total resp = None \<or> Total resp = Some (int (length ms))"
    using assms(1,2) unfolding serves_def by (metis nat_int of_nat_1 of_nat_le_iff)
  moreover have "r = Inr resp"
    using assms(3) resp(1) by (auto simp: call_def Do_def split: prod.splits)
  ultimately show ?thesis
    by (intro that) (simp_all add: MailListResponseOK_def MergeMailListFields_def)
qed

lemma take_page: "1 \<le> page \<Longrightarrow> take ((page - 1) * k) ms @ take k (drop ((page - 1) * k) ms) = take (page * k) ms"
  by (cases page) (simp_all add: take_add [symmetric] add.commute)

lemma loadPages_served:
  assumes "serves (ie_service E) spec k ms" "1 \<le> page" "sofar = take ((page - 1) * k) ms"
  obtains resp u1 where "acct u1 = acct u" "Mails resp = take k (drop ((page - 1) * k) ms)"
    "Total resp = None \<or> Total resp = Some (int (length ms))"
    "loadPages E spec page sofar u =
       (if listComplete (acct u) page (take (page * k) ms) resp then (Inr (take (page * k) ms), u1)
        else loadPages E spec (page + 1) (take (page * k) ms) u1)"
proof -
  obtain r u1 where c: "call E (listRequest (acct u) spec page) u = (r, u1)"
    by (cases "call E (listRequest (acct u) spec page) u")
  obtain resp where resp: "r = Inr resp" "MailListResponseOK resp" "MergeMailListFields resp = resp"
    "Mails resp = take k (drop ((page - 1) * k) ms)" "Total resp = None \<or> Total resp = Some (int (length ms))"
    using serves_page [OF assms(1,2) c] by blast
  have "loadPages E spec page sofar u =
       (if listComplete (acct u) page (take (page * k) ms) resp then (Inr (take (page * k) ms), u1)
        else loadPages E spec (page + 1) (take (page * k) ms) u1)"
    using take_page [OF assms(2), of k ms] c resp(1-4) assms(3)
    by (subst loadPages.simps) (simp add: Let_def)
  with resp(4,5) call_frame(1) [OF c] show ?thesis by (intro that)
qed

lemma loadPages_serves:
  assumes "serves (ie_service E) spec k ms" "0 < k" "1 \<le> page" "page \<le> 500"
    and "page = 1 \<or> int (length (take ((page - 1) * k) ms)) < user_maxList (acct u)"
  shows "\<exists>n. fst (loadPages E spec page (take ((page - 1) * k) ms) u) = Inr (take (n * k) ms) \<and>
    (length ms \<le> n * k \<or> user_maxList (acct u) \<le> int (length (take (n * k) ms)) \<or> n = 500) \<and>
    int (length (take (n * k) ms)) < max 1 (user_maxList (acct u)) + int k"
  using assms(3-5)
proof (induction "501 - page" arbitrary: page u rule: less_induct)
  case less
  let ?all = "take (page * k) ms"
  have upto: "int (length ?all) < max 1 (user_maxList (acct u)) + int k"
  proof (cases "page = 1")
    case False
    have "length ?all = length (take ((page - 1) * k) ms) + length (take k (drop ((page - 1) * k) ms))"
      using take_page [OF less.prems(1), of k ms] by (metis length_append)
    then have "length ?all \<le> length (take ((page - 1) * k) ms) + k" by simp
    then show ?thesis using less.prems(3) False by linarith
  qed simp
  obtain resp u1 where r: "acct u1 = acct u" "Mails resp = take k (drop ((page - 1) * k) ms)"
    "Total resp = None \<or> Total resp = Some (int (length ms))"
    "loadPages E spec page (take ((page - 1) * k) ms) u =
       (if listComplete (acct u) page ?all resp then (Inr ?all, u1) else loadPages E spec (page + 1) ?all u1)"
    using loadPages_served [OF assms(1) less.prems(1) refl] by blast
  show ?case
  proof (cases "listComplete (acct u) page ?all resp")
    case True
    have "length ms \<le> page * k \<or> user_maxList (acct u) \<le> int (length ?all) \<or> page = 500"
    proof (cases "Mails resp = []")
      case True
      then have "length ms \<le> (page - 1) * k" using r(2) assms(2) by simp
      then show ?thesis by (metis diff_le_self mult_le_mono1 order_trans)
    next
      case False
      moreover have "int (length ms) \<le> int page * int k \<longleftrightarrow> length ms \<le> page * k"
        by (metis of_nat_le_iff of_nat_mult)
      ultimately show ?thesis using True r(3) less.prems(2) by (auto simp: listComplete_def)
    qed
    then show ?thesis using True upto r(4) by (intro exI [of _ page]) simp
  next
    case False
    then have "page + 1 \<le> 500" "int (length ?all) < user_maxList (acct u1)"
      using r(1) by (auto simp: listComplete_def)
    then show ?thesis using less.hyps [of "page + 1" u1] less.prems r False by simp
  qed
qed

lemma loadSummaries_miss:
  assumes "listCache u (specCacheKey spec) = None"
  shows "fst (loadSummaries E spec u) = fst (loadPages E spec 1 [] u)"
  using assms by (simp add: loadSummaries_def freshList_def split: prod.split sum.split)

text \<open>
  C7: The list refines the mailbox of the service.  Where the service hands a mailbox out in
  pages, what is loaded is a prefix of it made of whole pages: all of it, unless the limit of
  the account or the 500 pages are reached, and never a page more than the limit needs.
\<close>

theorem list_refines_service:
  assumes "serves (ie_service E) spec k ms" "0 < k" "listCache u (specCacheKey spec) = None"
  shows "\<exists>n. fst (loadSummaries E spec u) = Inr (take (n * k) ms) \<and>
    (length ms \<le> n * k \<or> user_maxList (acct u) \<le> int (length (take (n * k) ms)) \<or> n = 500) \<and>
    int (length (take (n * k) ms)) < max 1 (user_maxList (acct u)) + int k"
  using loadPages_serves [OF assms(1,2), of 1 u] by (simp add: loadSummaries_miss assms(3))

text \<open>A mailbox of three mails in pages of two.\<close>

definition demo_mails :: "mail_summary list" where
  "demo_mails = map (\<lambda>n. emptySummary\<lparr>mail_ID := n\<rparr>) [30, 10, 20]"

definition paged :: "nat \<Rightarrow> mail_summary list \<Rightarrow> unit service" where
  "paged k ms req w =
     (Inr \<lparr>Status = 1, Message = [], Mails = take k (drop ((nat (Page req) - 1) * k) ms), Total = None,
           Folders = [work_folder], Tags = [], RespData = None\<rparr>, w)"

lemma paged_serves: "serves (paged k ms) spec k ms"
  by (simp add: serves_def paged_def)

definition demo_box :: "unit imap_env" where
  "demo_box = demo_imap\<lparr>ie_service := paged 2 demo_mails\<rparr>"

lemma list_refines_service_witness:
  "\<exists>n. fst (loadSummaries demo_box \<lparr>Param1 = ''inbox'', Param2 = []\<rparr> (loggedIn demo_acct ())) =
     Inr (take (n * 2) demo_mails) \<and> 3 \<le> n * 2"
  using list_refines_service [of demo_box "\<lparr>Param1 = ''inbox'', Param2 = []\<rparr>" 2 demo_mails "loggedIn demo_acct ()"]
    paged_serves
  by (auto simp: demo_box_def loggedIn_def demo_mails_def demo_acct_def newUser_def)

section \<open>The cache\<close>

text \<open>
  What a load returns is kept and returned again, without a request, until 45 seconds
  have passed since it was loaded or the entry is dropped; a load that fails leaves the cache,
  and no load touches the list of another mailbox.
\<close>

theorem list_cached:
  assumes "loadSummaries E spec u = (r, v)"
  shows "(case r of
      Inl _ \<Rightarrow> listCache v = listCache u
    | Inr ms \<Rightarrow> \<exists>ent. listCache v (specCacheKey spec) = Some ent \<and> sc_summaries ent = ms \<and>
        (\<forall>w. listCache w (specCacheKey spec) = Some ent \<and> ie_clock E (reads w) < sc_at ent + summaryCacheTTL \<longrightarrow>
           loadSummaries E spec w = (Inr ms, w\<lparr>reads := reads w + 1\<rparr>))) \<and>
    (\<forall>k. k \<noteq> specCacheKey spec \<longrightarrow> listCache v k = listCache u k)"
proof -
  have hit: "loadSummaries E spec w = (Inr (sc_summaries ent), w\<lparr>reads := reads w + 1\<rparr>)"
    if "listCache w (specCacheKey spec) = Some ent" "ie_clock E (reads w) < sc_at ent + summaryCacheTTL" for w ent
    using that by (simp add: loadSummaries_def)
  show ?thesis using assms
  proof (cases rule: loadSummaries_cases)
    case (hit ent)
    then show ?thesis by (simp add: loadSummaries_def)
  next
    case (fresh u1)
    from fresh(5) show ?thesis
    proof (cases rule: freshList_cases)
      case (failed e)
      show ?thesis using loadPages_frame [OF failed(1)] fresh(3) failed(2) by simp
    next
      case (loaded ms v1)
      show ?thesis using loadPages_frame [OF loaded(1)] fresh(3) loaded(2,3) hit by simp
    qed
  qed
qed

lemma list_cached_witness:
  "case loadSummaries demo_box \<lparr>Param1 = ''inbox'', Param2 = []\<rparr> (loggedIn demo_acct ()) of (r, v) \<Rightarrow>
     case r of Inl _ \<Rightarrow> listCache v = Map.empty
     | Inr ms \<Rightarrow> \<exists>ent. listCache v (specCacheKey \<lparr>Param1 = ''inbox'', Param2 = []\<rparr>) = Some ent \<and> sc_summaries ent = ms"
  using list_cached [OF prod.collapse [symmetric], of demo_box "\<lparr>Param1 = ''inbox'', Param2 = []\<rparr>" "loggedIn demo_acct ()"]
  by (auto simp: loggedIn_def split: sum.splits prod.splits)

end
