(* ===== verification/Mailbox_Actions.thy ===== *)
theory Mailbox_Actions
  imports Mailbox_Loading
begin

text \<open>
  What STORE, COPY, MOVE and EXPUNGE of \<open>internal/imapbackend/mailbox.go\<close> do to the mails of
  the service: which actions are sent for which mails, in which order, and what is left when
  one of them fails.
\<close>

section \<open>One action\<close>

lemma action_is_change [simp]: "is_change (actionRequest a spec n act x)"
  by (simp add: is_change_def actionRequest_def)

lemma list_no_change [simp]: "\<not> is_change (listRequest a spec p)"
  by (simp add: is_change_def listRequest_def)

definition action_todo :: "user \<Rightarrow> MailboxSpec \<Rightarrow> int \<Rightarrow> string \<Rightarrow> string option \<Rightarrow> request" where
  "action_todo a spec n act x = fill_request (user_cli a) (actionRequest a spec n act x)"

lemma mailAction_trace:
  assumes "mailAction (logged E) spec n act x u = (e, v)"
  shows "acct v = acct u" "listCache v = listCache u" "changes v = changes u @ [action_todo (acct u) spec n act x]"
proof -
  obtain r u1 where c: "call (logged E) (actionRequest (acct u) spec n act x) u = (r, u1)"
    by (cases "call (logged E) (actionRequest (acct u) spec n act x) u")
  have "u1 = v" using assms c by (auto simp: mailAction_def split: sum.splits if_split_asm)
  then show "acct v = acct u" "listCache v = listCache u" "changes v = changes u @ [action_todo (acct u) spec n act x]"
    using call_frame [OF c] call_changes [OF _ c] by (simp_all add: action_todo_def)
qed

lemma loadPages_changes: "loadPages (logged E) spec page sofar u = (r, v) \<Longrightarrow> changes v = changes u"
  by (induction rule: loadPages_induct) (auto simp: changes_def dest!: call_log)

lemma freshList_changes: "freshList (logged E) spec u = (r, v) \<Longrightarrow> changes v = changes u"
  by (erule freshList_cases) (auto simp: changes_def dest!: loadPages_changes [unfolded changes_def])

lemma loadSummaries_changes: "loadSummaries (logged E) spec u = (r, v) \<Longrightarrow> changes v = changes u"
  by (erule loadSummaries_cases) (auto simp: changes_def dest!: freshList_changes [unfolded changes_def])

section \<open>STORE\<close>

text \<open>The action that a flag stands for, and the requests for a mail.\<close>

definition flag_action :: "flags_op \<Rightarrow> string \<Rightarrow> string option" where
  "flag_action op f =
     (if op = RemoveFlags then None
      else if f = SeenFlag then Some ''read''
      else if f = DeletedFlag then Some ''delete''
      else if f = FlaggedFlag then Some ''important''
      else None)"

definition flag_todo :: "user \<Rightarrow> MailboxSpec \<Rightarrow> flags_op \<Rightarrow> int \<Rightarrow> string \<Rightarrow> request list" where
  "flag_todo a spec op n f =
     (case flag_action op f of None \<Rightarrow> [] | Some act \<Rightarrow> [action_todo a spec n act None])"

definition store_todo :: "user \<Rightarrow> MailboxSpec \<Rightarrow> flags_op \<Rightarrow> string list \<Rightarrow> mail_summary \<Rightarrow> request list" where
  "store_todo a spec op flags s = concat (map (flag_todo a spec op (mail_ID s)) flags)"

definition of_mailbox :: "user \<Rightarrow> MailboxSpec \<Rightarrow> mailbox \<times> 'w imap_user \<Rightarrow> bool" where
  "of_mailbox a spec mu \<longleftrightarrow> mb_spec (fst mu) = spec \<and> acct (snd mu) = a"

lemma flags_distinct [simp]:
  "SeenFlag \<noteq> DeletedFlag" "DeletedFlag \<noteq> SeenFlag" "FlaggedFlag \<noteq> SeenFlag" "SeenFlag \<noteq> FlaggedFlag"
  "FlaggedFlag \<noteq> DeletedFlag" "DeletedFlag \<noteq> FlaggedFlag"
  by (simp_all add: flag_defs)

lemma applyFlag_effect:
  assumes "applyFlag (logged E) n op f (m, u) = (e, m1, v)"
  shows "mb_spec m1 = mb_spec m" "acct v = acct u" "listCache v = listCache u"
    "changes v = changes u @ flag_todo (acct u) (mb_spec m) op n f"
proof -
  have r: "(case flag_action op f of None \<Rightarrow> e = None \<and> v = u
      | Some act \<Rightarrow> mailAction (logged E) (mb_spec m) n act None u = (e, v)) \<and> mb_spec m1 = mb_spec m"
    using assms
    by (cases op) (auto simp: applyFlag_def flag_action_def Let_def split: if_split_asm prod.splits option.splits)
  then show "mb_spec m1 = mb_spec m" by blast
  show "acct v = acct u" "listCache v = listCache u"
    "changes v = changes u @ flag_todo (acct u) (mb_spec m) op n f"
    using r mailAction_trace [of E "mb_spec m" n _ None u e v]
    by (auto simp: flag_todo_def split: option.splits)
qed

interpretation flag_loop: traced_body "applyFlag (logged E) n op" "of_mailbox a spec"
    "\<lambda>mu. changes (snd mu)" "flag_todo a spec op n"
proof
  fix mu f e t assume "of_mailbox a spec mu" "applyFlag (logged E) n op f mu = (e, t)"
  then show "of_mailbox a spec t"
    "\<exists>rs. changes (snd t) = changes (snd mu) @ rs \<and> prefix rs (flag_todo a spec op n f) \<and>
      (e = None \<longrightarrow> rs = flag_todo a spec op n f)"
    using applyFlag_effect [of E n op f "fst mu" "snd mu" e "fst t" "snd t"] by (auto simp: of_mailbox_def)
qed

interpretation store_loop: traced_body "\<lambda>(_ :: u32, s). applyFlagOp (logged E) (mail_ID s) op flags" "of_mailbox a spec"
    "\<lambda>mu. changes (snd mu)" "\<lambda>(_, s). store_todo a spec op flags s"
proof
  fix mu e t and x :: "u32 \<times> mail_summary"
  assume "of_mailbox a spec mu" "(case x of (_, s) \<Rightarrow> applyFlagOp (logged E) (mail_ID s) op flags) mu = (e, t)"
  then show "of_mailbox a spec t"
    "\<exists>rs. changes (snd t) = changes (snd mu) @ rs \<and> prefix rs (case x of (_, s) \<Rightarrow> store_todo a spec op flags s) \<and>
      (e = None \<longrightarrow> rs = (case x of (_, s) \<Rightarrow> store_todo a spec op flags s))"
    using flag_loop.loop_inv [of a spec mu E _ op flags e t] flag_loop.loop_trace [of a spec mu E _ op flags e t]
    by (auto simp: applyFlagOp_def store_todo_def split: prod.splits)
qed

lemma store_effect:
  assumes "UpdateMessagesFlags (logged E) uid ss op flags (m, u) = (err, m1, v)"
    and "fst (loadSummaries (logged E) (mb_spec m) u) = Inr sums"
  shows "\<exists>rs. changes v = changes u @ rs \<and>
    prefix rs (concat (map (\<lambda>(_, s). store_todo (acct u) (mb_spec m) op flags s) (addressed uid ss sums))) \<and>
    (err = None \<longrightarrow>
       rs = concat (map (\<lambda>(_, s). store_todo (acct u) (mb_spec m) op flags s) (addressed uid ss sums)) \<and>
       listCache v (specCacheKey (mb_spec m)) = None)"
proof -
  obtain u1 where l: "loadSummaries (logged E) (mb_spec m) u = (Inr sums, u1)"
    using assms(2) by (cases "loadSummaries (logged E) (mb_spec m) u") auto
  obtain e t where loop: "for_each (\<lambda>(_, s). applyFlagOp (logged E) (mail_ID s) op flags) (addressed uid ss sums) (m, u1) = (e, t)"
    by (cases "for_each (\<lambda>(_, s). applyFlagOp (logged E) (mail_ID s) op flags) (addressed uid ss sums) (m, u1)")
  have inv: "of_mailbox (acct u) (mb_spec m) (m, u1)"
    using loadSummaries_frame [OF l] by (simp add: of_mailbox_def)
  obtain rs where rs: "changes (snd t) = changes u1 @ rs"
    "prefix rs (concat (map (\<lambda>(_, s). store_todo (acct u) (mb_spec m) op flags s) (addressed uid ss sums)))"
    "e = None \<longrightarrow> rs = concat (map (\<lambda>(_, s). store_todo (acct u) (mb_spec m) op flags s) (addressed uid ss sums))"
    using store_loop.loop_trace [OF inv loop] by auto
  have "err = e \<and> changes v = changes (snd t) \<and> (err = None \<longrightarrow> listCache v (specCacheKey (mb_spec m)) = None)"
    using assms(1) l loop
    by (auto simp: UpdateMessagesFlags_def invalidate_def invalidateSpec_def split: prod.splits option.splits)
  with rs show ?thesis using loadSummaries_changes [OF l] by (intro exI [of _ rs]) simp
qed

text \<open>
  C1: STORE acts on the addressed mails and on no other: in the order of their numbers, and
  for each flag in the order given, it sends the action of the flag (read, delete, important)
  for the mail; taking a flag away, and any other flag, sends nothing.  If an action fails,
  what was sent until then is a prefix of that; if all succeed, the cached list is dropped.
\<close>

theorem store_requests:
  assumes "UpdateMessagesFlags (logged E) uid ss op flags (m, u) = (err, m1, v)"
    and "fst (loadSummaries (logged E) (mb_spec m) u) = Inr sums"
  shows "\<exists>rs. changes v = changes u @ rs \<and>
    prefix rs (concat (map (\<lambda>(_, s). store_todo (acct u) (mb_spec m) op flags s) (addressed uid ss sums))) \<and>
    (err = None \<longrightarrow>
       rs = concat (map (\<lambda>(_, s). store_todo (acct u) (mb_spec m) op flags s) (addressed uid ss sums)) \<and>
       listCache v (specCacheKey (mb_spec m)) = None)"
  using assms by (rule store_effect)

lemma store_frame:
  assumes "UpdateMessagesFlags (logged E) uid ss op flags (m, u) = (err, m1, v)"
  shows "mb_spec m1 = mb_spec m \<and> acct v = acct u"
proof -
  obtain r u1 where l: "loadSummaries (logged E) (mb_spec m) u = (r, u1)"
    by (cases "loadSummaries (logged E) (mb_spec m) u")
  have inv: "of_mailbox (acct u) (mb_spec m) (m, u1)"
    using loadSummaries_frame [OF l] by (simp add: of_mailbox_def)
  have "of_mailbox (acct u) (mb_spec m) t"
    if "for_each (\<lambda>(_, s). applyFlagOp (logged E) (mail_ID s) op flags) xs (m, u1) = (e, t)"
    for xs :: "(u32 \<times> mail_summary) list" and e t
    using store_loop.loop_inv [OF inv that] .
  then show ?thesis using assms l inv
    by (auto simp: UpdateMessagesFlags_def of_mailbox_def invalidate_def split: sum.splits prod.splits option.splits)
qed

section \<open>Mails marked as deleted\<close>

definition pending_after :: "flags_op \<Rightarrow> string list \<Rightarrow> u32 \<Rightarrow> u32 set \<Rightarrow> u32 set" where
  "pending_after op flags uid P =
     (if DeletedFlag \<notin> set flags then P else if op = RemoveFlags then P - {uid} else insert uid P)"

lemma applyFlag_pending:
  assumes "applyFlag E n op f mu = (None, mu1)"
  shows "pendingDeleted (fst mu1) = pending_after op [f] (word_of_int n) (pendingDeleted (fst mu))"
  using assms
  by (cases mu; cases op)
    (auto simp: applyFlag_def pending_after_def Let_def split: if_split_asm prod.splits option.splits)

lemma applyFlagOp_pending:
  assumes "applyFlagOp E n op flags mu = (None, mu1)"
  shows "pendingDeleted (fst mu1) = pending_after op flags (word_of_int n) (pendingDeleted (fst mu))"
  using assms unfolding applyFlagOp_def
proof (induction flags arbitrary: mu)
  case Nil
  then show ?case by (simp add: pending_after_def)
next
  case (Cons f fs)
  obtain e t where b: "applyFlag E n op f mu = (e, t)" by (cases "applyFlag E n op f mu")
  with Cons.prems have e: "e = None" "for_each (applyFlag E n op) fs t = (None, mu1)" by (cases e; simp)+
  show ?case
    using Cons.IH [OF e(2)] applyFlag_pending [of E n op f mu t] b e(1)
    by (auto simp: pending_after_def)
qed

lemma store_loop_pending:
  assumes "for_each (\<lambda>(_, s). applyFlagOp E (mail_ID s) op flags) xs mu = (None, mu1)"
  shows "pendingDeleted (fst mu1) = fold (\<lambda>(_, s). pending_after op flags (uid_of s)) xs (pendingDeleted (fst mu))"
  using assms
proof (induction xs arbitrary: mu)
  case (Cons x xs)
  obtain k s where x: "x = (k, s)" by (cases x)
  obtain e t where b: "applyFlagOp E (mail_ID s) op flags mu = (e, t)"
    by (cases "applyFlagOp E (mail_ID s) op flags mu")
  with Cons.prems x have e: "e = None"
    "for_each (\<lambda>(_, s). applyFlagOp E (mail_ID s) op flags) xs t = (None, mu1)" by (cases e; simp)+
  show ?case
    using Cons.IH [OF e(2)] applyFlagOp_pending [of E "mail_ID s" op flags mu t] b e(1) x by (simp add: uid_of_def)
qed simp

lemma store_pending:
  assumes "UpdateMessagesFlags E uid ss op flags (m, u) = (None, m1, v)"
    and "fst (loadSummaries E (mb_spec m) u) = Inr sums"
  shows "pendingDeleted m1 =
    fold (\<lambda>(_, s). pending_after op flags (uid_of s)) (addressed uid ss sums) (pendingDeleted m)"
proof -
  obtain u1 where l: "loadSummaries E (mb_spec m) u = (Inr sums, u1)"
    using assms(2) by (cases "loadSummaries E (mb_spec m) u") auto
  obtain e t where loop: "for_each (\<lambda>(_, s). applyFlagOp E (mail_ID s) op flags) (addressed uid ss sums) (m, u1) = (e, t)"
    by (cases "for_each (\<lambda>(_, s). applyFlagOp E (mail_ID s) op flags) (addressed uid ss sums) (m, u1)")
  with assms(1) l have "e = None" "m1 = fst t"
    by (auto simp: UpdateMessagesFlags_def split: prod.splits option.splits)
  then show ?thesis using store_loop_pending loop by fastforce
qed

section \<open>EXPUNGE\<close>

interpretation expunge_loop: traced_body "expungeOne (logged E)" "of_mailbox a spec"
    "\<lambda>mu. changes (snd mu)" "\<lambda>uid. [action_todo a spec (uint uid) ''delete'' None]"
proof
  fix mu uid e t assume "of_mailbox a spec mu" "expungeOne (logged E) uid mu = (e, t)"
  moreover obtain m u where mu: "mu = (m, u)" by (cases mu)
  ultimately obtain v where "mailAction (logged E) spec (uint uid) ''delete'' None u = (e, v)" "snd t = v"
      "mb_spec (fst t) = spec" "acct u = a"
    by (auto simp: expungeOne_def of_mailbox_def split: prod.splits option.splits)
  then show "of_mailbox a spec t"
    "\<exists>rs. changes (snd t) = changes (snd mu) @ rs \<and> prefix rs [action_todo a spec (uint uid) ''delete'' None] \<and>
      (e = None \<longrightarrow> rs = [action_todo a spec (uint uid) ''delete'' None])"
    using mailAction_trace [of E spec "uint uid" "''delete''" None u e v] mu by (auto simp: of_mailbox_def)
qed

lemma expunge_pending:
  "for_each (expungeOne E) uids mu = (None, mu1) \<Longrightarrow> pendingDeleted (fst mu1) = pendingDeleted (fst mu) - set uids"
proof (induction uids arbitrary: mu)
  case (Cons x uids)
  obtain e t where b: "expungeOne E x mu = (e, t)" by (cases "expungeOne E x mu")
  with Cons.prems have e: "e = None" "for_each (expungeOne E) uids t = (None, mu1)" by (cases e; simp)+
  have "pendingDeleted (fst t) = pendingDeleted (fst mu) - {x}"
    using b e(1) by (auto simp: expungeOne_def split: prod.splits option.splits)
  with Cons.IH [OF e(2)] show ?case by auto
qed simp

lemma expunge_effect:
  assumes "Expunge (logged E) (m, u) = (err, m1, v)" "set (ie_pending E (pendingDeleted m)) = pendingDeleted m"
  shows "\<exists>rs. changes v = changes u @ rs \<and>
    prefix rs (map (\<lambda>uid. action_todo (acct u) (mb_spec m) (uint uid) ''delete'' None) (ie_pending E (pendingDeleted m))) \<and>
    (err = None \<longrightarrow> length rs = length (ie_pending E (pendingDeleted m)) \<and> pendingDeleted m1 = {} \<and>
       listCache v (specCacheKey (mb_spec m)) = None)"
proof -
  let ?uids = "ie_pending E (pendingDeleted m)"
  let ?req = "\<lambda>uid. action_todo (acct u) (mb_spec m) (uint uid) ''delete'' None"
  obtain e t where loop: "for_each (expungeOne (logged E)) ?uids (m, u) = (e, t)"
    by (cases "for_each (expungeOne (logged E)) ?uids (m, u)")
  have inv: "of_mailbox (acct u) (mb_spec m) (m, u)" by (simp add: of_mailbox_def)
  obtain rs where rs: "changes (snd t) = changes u @ rs" "prefix rs (map ?req ?uids)" "e = None \<longrightarrow> rs = map ?req ?uids"
    using expunge_loop.loop_trace [OF inv loop] by auto
  have "mb_spec (fst t) = mb_spec m" using expunge_loop.loop_inv [OF inv loop] by (simp add: of_mailbox_def)
  then have "err = e \<and> m1 = fst t \<and> changes v = changes (snd t) \<and>
      (err = None \<longrightarrow> listCache v (specCacheKey (mb_spec m)) = None)"
    using assms(1) loop
    by (auto simp: Expunge_def invalidate_def invalidateSpec_def split: prod.splits option.splits)
  moreover have "pendingDeleted (fst t) = {}" if "e = None"
    using expunge_pending [of "logged E" ?uids "(m, u)" t] loop that assms(2) by simp
  ultimately show ?thesis using rs by (intro exI [of _ rs]) auto
qed

text \<open>
  EXPUNGE sends one delete for each mail marked as deleted, in the order in which Go visits
  the set; when all succeed, nothing is marked any more and the cached list is dropped.
\<close>

theorem expunge_requests:
  assumes "Expunge (logged E) (m, u) = (err, m1, v)" "set (ie_pending E (pendingDeleted m)) = pendingDeleted m"
  shows "\<exists>rs. changes v = changes u @ rs \<and>
    prefix rs (map (\<lambda>uid. action_todo (acct u) (mb_spec m) (uint uid) ''delete'' None) (ie_pending E (pendingDeleted m))) \<and>
    (err = None \<longrightarrow> length rs = length (ie_pending E (pendingDeleted m)) \<and> pendingDeleted m1 = {} \<and>
       listCache v (specCacheKey (mb_spec m)) = None)"
  using assms by (rule expunge_effect)

lemma uint_uid_of: "uint (uid_of s) = mail_ID s mod 2 ^ 32"
  by (simp add: uid_of_def unsigned_of_int take_bit_eq_mod)

text \<open>
  C11: Marking a mail as deleted deletes it at once, and EXPUNGE then asks for a deletion a
  second time, for the number cut to 32 bits: for a mail whose number is 2 ^ 32 or more that
  is the number of another mail.
\<close>

theorem delete_then_expunge:
  assumes "UpdateMessagesFlags (logged E) uid ss AddFlags [DeletedFlag] (m, u) = (None, m1, v)"
    and "fst (loadSummaries (logged E) (mb_spec m) u) = Inr sums" "addressed uid ss sums = [(k, s)]"
    and "pendingDeleted m = {}" "ie_pending E {uid_of s} = [uid_of s]"
    and "Expunge (logged E) (m1, v) = (None, m2, w)"
  shows "changes w = changes u @
    [action_todo (acct u) (mb_spec m) (mail_ID s) ''delete'' None,
     action_todo (acct u) (mb_spec m) (mail_ID s mod 2 ^ 32) ''delete'' None]"
proof -
  have st: "changes v = changes u @ [action_todo (acct u) (mb_spec m) (mail_ID s) ''delete'' None]"
    using store_effect [OF assms(1,2)] assms(3)
    by (auto simp: store_todo_def flag_todo_def flag_action_def)
  have pend: "pendingDeleted m1 = {uid_of s}"
    using store_pending [OF assms(1,2)] assms(3,4) by (simp add: pending_after_def)
  have frame: "mb_spec m1 = mb_spec m \<and> acct v = acct u" using store_frame [OF assms(1)] by simp
  obtain rs where rs: "changes w = changes v @ rs" "length rs = 1"
    "prefix rs [action_todo (acct v) (mb_spec m1) (uint (uid_of s)) ''delete'' None]"
    using expunge_effect [OF assms(6)] pend assms(5) by auto
  then have "rs = [action_todo (acct v) (mb_spec m1) (mail_ID s mod 2 ^ 32) ''delete'' None]"
    by (cases rs) (auto simp: uint_uid_of)
  then show ?thesis using st rs(1) frame by simp
qed

section \<open>COPY and MOVE\<close>

definition copy_todo :: "user \<Rightarrow> MailboxSpec \<Rightarrow> MailboxSpec \<Rightarrow> int \<Rightarrow> request list" where
  "copy_todo a spec dest n =
     (if Param1 dest = ''tags'' then [action_todo a spec n ''move-to-tag'' (Some (Param2 dest))]
      else if Param1 dest = ''folders'' then [action_todo a spec n ''move-to-folder'' (Some (Param2 dest))]
      else [])"

definition move_todo :: "user \<Rightarrow> MailboxSpec \<Rightarrow> MailboxSpec \<Rightarrow> int \<Rightarrow> request list" where
  "move_todo a spec dest n =
     (if Param1 dest = ''trash'' then [action_todo a spec n ''delete'' None] else copy_todo a spec dest n)"

lemma copyOne_effect:
  assumes "copyOne (logged E) spec dest name n u = (e, v)"
  shows "acct v = acct u \<and> listCache v = listCache u \<and> changes v = changes u @ copy_todo (acct u) spec dest n"
  using assms mailAction_trace [of E spec n _ "Some (Param2 dest)" u e v]
  by (auto simp: copyOne_def copy_todo_def split: if_split_asm)

lemma moveOne_effect:
  assumes "moveOne (logged E) spec dest name n u = (e, v)"
  shows "acct v = acct u \<and> listCache v = listCache u \<and> changes v = changes u @ move_todo (acct u) spec dest n"
  using assms mailAction_trace [of E spec n _ _ u e v]
  by (auto simp: moveOne_def move_todo_def copy_todo_def split: if_split_asm)

interpretation copy_loop: traced_body "\<lambda>(_ :: u32, s). copyOne (logged E) spec dest name (mail_ID s)"
    "\<lambda>u. acct u = a \<and> listCache u = c" changes "\<lambda>(_, s). copy_todo a spec dest (mail_ID s)"
  by unfold_locales (auto dest!: copyOne_effect)

interpretation move_loop: traced_body "\<lambda>(_ :: u32, s). moveOne (logged E) spec dest name (mail_ID s)"
    "\<lambda>u. acct u = a \<and> listCache u = c" changes "\<lambda>(_, s). move_todo a spec dest (mail_ID s)"
  by unfold_locales (auto dest!: moveOne_effect)

text \<open>
  A destination that is neither Trash nor a tag nor a folder.
\<close>

definition move_target :: "MailboxSpec \<Rightarrow> bool" where
  "move_target dest \<longleftrightarrow> Param1 dest \<in> {''trash'', ''tags'', ''folders''}"

lemma moveOne_refused:
  assumes "\<not> move_target dest"
  shows "moveOne E spec dest name n u =
    (Some (ErrText (''MOVE to '' @ ie_quote E name @ '': not supported (use Trash or a user folder/tag)'')), u)"
  using assms by (simp add: moveOne_def move_target_def)

text \<open>
  C2: When the list of the mailbox loads, MOVE to another mailbox sends for each addressed
  mail, in order, the action that its destination calls for: delete for Trash, and move-to-tag
  or move-to-folder with the number of the tag or folder.  If one fails, what was sent until
  then is a prefix of that; if all succeed, both mailboxes are read anew afterwards.  With any
  other destination no action is sent at all, and as soon as one mail is addressed the answer
  is the error that names the destination and says that it is not supported; with none
  addressed there is nothing to refuse and MOVE succeeds.
\<close>

theorem move_requests:
  assumes "MoveMessages (logged E) uid ss name m u = (err, v)"
    and "resolveSpec (logged E) name u = (Inr dest, u1)" "dest \<noteq> mb_spec m"
    and "loadSummaries (logged E) (mb_spec m) u1 = (Inr sums, u2)"
  shows "\<exists>rs. changes v = changes u @ rs \<and>
    prefix rs (concat (map (\<lambda>(_, s). move_todo (acct u) (mb_spec m) dest (mail_ID s)) (addressed uid ss sums))) \<and>
    (err = None \<longrightarrow>
       rs = concat (map (\<lambda>(_, s). move_todo (acct u) (mb_spec m) dest (mail_ID s)) (addressed uid ss sums)) \<and>
       listCache v (specCacheKey (mb_spec m)) = None \<and> listCache v (specCacheKey dest) = None) \<and>
    (Param1 dest \<notin> {''trash'', ''tags'', ''folders''} \<longrightarrow> rs = [] \<and>
       err = (if addressed uid ss sums = [] then None
              else Some (ErrText (''MOVE to '' @ ie_quote E name @ '': not supported (use Trash or a user folder/tag)''))))"
proof -
  let ?todo = "\<lambda>(_ :: u32, s). move_todo (acct u) (mb_spec m) dest (mail_ID s)"
  obtain e t where loop: "for_each (\<lambda>(_, s). moveOne (logged E) (mb_spec m) dest name (mail_ID s)) (addressed uid ss sums) u2 = (e, t)"
    by (cases "for_each (\<lambda>(_, s). moveOne (logged E) (mb_spec m) dest name (mail_ID s)) (addressed uid ss sums) u2")
  have "acct u2 = acct u" using loadSummaries_frame [OF assms(4)] resolveSpec_frame [OF assms(2)] by simp
  then obtain rs where rs: "changes t = changes u2 @ rs" "prefix rs (concat (map ?todo (addressed uid ss sums)))"
    "e = None \<longrightarrow> rs = concat (map ?todo (addressed uid ss sums))"
    using move_loop.loop_trace [OF _ loop, of "acct u" "listCache u2"] by auto
  have "\<not> (Param1 dest = Param1 (mb_spec m) \<and> Param2 dest = Param2 (mb_spec m))"
    using assms(3) MailboxSpec_eqI by blast
  then have "err = e \<and> changes v = changes t \<and> (err = None \<longrightarrow>
      listCache v (specCacheKey (mb_spec m)) = None \<and> listCache v (specCacheKey dest) = None)"
    using assms(1,2,4) loop
    by (auto simp: MoveMessages_def invalidate_def invalidateSpec_def split: prod.splits option.splits)
  moreover have "e = (if addressed uid ss sums = [] then None
      else Some (ErrText (''MOVE to '' @ ie_quote E name @ '': not supported (use Trash or a user folder/tag)'')))"
    if "\<not> move_target dest"
    using loop moveOne_refused [OF that, of "logged E"] by (cases "addressed uid ss sums") auto
  moreover have "rs = []" if "Param1 dest \<notin> {''trash'', ''tags'', ''folders''}"
  proof -
    have "concat (map ?todo (addressed uid ss sums)) = []"
      using that by (auto simp: move_todo_def copy_todo_def)
    with rs(2) show ?thesis by simp
  qed
  ultimately show ?thesis
    using rs loadSummaries_changes [OF assms(4)] resolveSpec_changes [OF assms(2)]
    by (intro exI [of _ rs]) (simp add: move_target_def)
qed

text \<open>
  COPY to a folder or tag sends the very requests that MOVE sends, but leaves the cached
  lists: the mails go on being listed in the mailbox that they were moved out of.
\<close>

theorem copy_moves:
  assumes "CopyMessages (logged E) uid ss name m u = (None, v)"
    and "resolveSpec (logged E) name u = (Inr dest, u1)" "Param1 dest = ''folders'' \<or> Param1 dest = ''tags''"
    and "loadSummaries (logged E) (mb_spec m) u1 = (Inr sums, u2)"
  shows "changes v = changes u @
      concat (map (\<lambda>(_, s). move_todo (acct u) (mb_spec m) dest (mail_ID s)) (addressed uid ss sums)) \<and>
    listCache v = listCache u2"
proof -
  have loop: "for_each (\<lambda>(_, s). copyOne (logged E) (mb_spec m) dest name (mail_ID s)) (addressed uid ss sums) u2 = (None, v)"
    using assms(1,2,4) by (simp add: CopyMessages_def)
  have a: "acct u2 = acct u" using loadSummaries_frame [OF assms(4)] resolveSpec_frame [OF assms(2)] by simp
  have "changes v = changes u2 @ concat (map (\<lambda>(_, s). copy_todo (acct u) (mb_spec m) dest (mail_ID s)) (addressed uid ss sums))"
    using copy_loop.loop_trace [OF _ loop, of "acct u" "listCache u2"] a by auto
  moreover have "listCache v = listCache u2"
    using copy_loop.loop_inv [OF _ loop, of "acct u" "listCache u2"] a by auto
  moreover have "move_todo (acct u) (mb_spec m) dest = copy_todo (acct u) (mb_spec m) dest"
    using assms(3) by (auto simp: move_todo_def)
  ultimately show ?thesis
    using loadSummaries_changes [OF assms(4)] resolveSpec_changes [OF assms(2)] by simp
qed

section \<open>Examples\<close>

text \<open>With a service that accepts everything no action fails.\<close>

definition agreeable :: "'w service \<Rightarrow> bool" where
  "agreeable svc \<longleftrightarrow> (\<forall>req w. \<exists>resp. fst (svc req w) = Inr resp \<and> Status resp = 1)"

lemma for_each_ok:
  assumes "\<And>x s. fst (f x s) = None"
  shows "fst (for_each f xs s) = None"
proof (induction xs arbitrary: s)
  case (Cons x xs)
  obtain t where "f x s = (None, t)" using assms [of x s] by (cases "f x s") auto
  then show ?case using Cons by simp
qed simp

lemma for_each_okE:
  assumes "\<And>x s. fst (f x s) = None"
  obtains t where "for_each f xs s = (None, t)"
proof -
  have "fst (for_each f xs s) = None" by (rule for_each_ok) (rule assms)
  then show ?thesis using that by (cases "for_each f xs s") simp
qed

lemma mailAction_ok:
  assumes "agreeable (ie_service E)"
  shows "fst (mailAction E spec n act x u) = None"
proof -
  obtain r v where c: "call E (actionRequest (acct u) spec n act x) u = (r, v)"
    by (cases "call E (actionRequest (acct u) spec n act x) u")
  obtain resp where "r = Inr resp" "Status resp = 1"
    using assms c unfolding agreeable_def call_def Do_def by (auto split: prod.splits) (metis fst_conv)
  then show ?thesis using c by (simp add: mailAction_def MailMutationOK_def)
qed

lemma mailAction_okE:
  assumes "agreeable (ie_service E)"
  obtains v where "mailAction E spec n act x u = (None, v)"
  using mailAction_ok [OF assms, of spec n act x u] by (cases "mailAction E spec n act x u") auto

lemma applyFlagOp_ok:
  assumes "agreeable (ie_service E)"
  shows "fst (applyFlagOp E n op flags mu) = None"
proof -
  have "fst (applyFlag E n op f (m, u)) = None" for f m u
    by (rule mailAction_okE [OF assms, of "mb_spec m" n "''read''" None u],
        rule mailAction_okE [OF assms, of "mb_spec m" n "''delete''" None u],
        rule mailAction_okE [OF assms, of "mb_spec m" n "''important''" None u])
      (simp add: applyFlag_def Let_def)
  then have "fst (applyFlag E n op f s) = None" for f s by (cases s) simp
  then show ?thesis unfolding applyFlagOp_def by (rule for_each_ok)
qed

lemma UpdateMessagesFlags_ok:
  assumes "agreeable (ie_service E)" "fst (loadSummaries E (mb_spec m) u) = Inr sums"
  shows "fst (UpdateMessagesFlags E uid ss op flags (m, u)) = None"
proof -
  obtain v where l: "loadSummaries E (mb_spec m) u = (Inr sums, v)"
    using assms(2) by (cases "loadSummaries E (mb_spec m) u") auto
  have "fst ((\<lambda>(_, s). applyFlagOp E (mail_ID s) op flags) x mu) = None" for x mu
    using applyFlagOp_ok [OF assms(1)] by (simp add: split_beta)
  then obtain t where "for_each (\<lambda>(_, s). applyFlagOp E (mail_ID s) op flags) (addressed uid ss sums) (m, v) = (None, t)"
    by (rule for_each_okE)
  then show ?thesis using l by (cases t) (simp add: UpdateMessagesFlags_def)
qed

lemma Expunge_ok:
  assumes "agreeable (ie_service E)"
  shows "fst (Expunge E mu) = None"
proof -
  have "fst (expungeOne E x s) = None" for x s
    by (rule mailAction_okE [OF assms, of "mb_spec (fst s)" "uint x" "''delete''" None "snd s"])
      (simp add: expungeOne_def split_beta)
  then obtain t where "for_each (expungeOne E) (ie_pending E (pendingDeleted (fst mu))) mu = (None, t)"
    by (rule for_each_okE)
  then show ?thesis by (cases t) (simp add: Expunge_def)
qed

lemma moveOne_ok:
  assumes "agreeable (ie_service E)" "Param1 dest \<in> {''trash'', ''tags'', ''folders''}"
  shows "fst (moveOne E spec dest name n u) = None" 
    "Param1 dest \<noteq> ''trash'' \<Longrightarrow> fst (copyOne E spec dest name n u) = None"
  using assms(2) mailAction_ok [OF assms(1)] by (auto simp: moveOne_def copyOne_def)

lemma agreeable_recording: "agreeable svc \<Longrightarrow> agreeable (recording svc)"
  unfolding agreeable_def recording_def by (auto split: prod.split) (metis fst_conv)

lemma agreeable_paged: "agreeable (paged k ms)"
  by (simp add: agreeable_def paged_def)

lemma serves_recording: "serves svc spec k ms \<Longrightarrow> serves (recording svc) spec k ms"
  unfolding serves_def recording_def by (auto split: prod.split) (metis fst_conv)

definition boxed :: "mail_summary list \<Rightarrow> unit imap_env" where
  "boxed ms = demo_imap\<lparr>ie_service := paged 2 ms, ie_pending := (\<lambda>P. filter (\<lambda>x. x \<in> P) [5, 30])\<rparr>"

abbreviation inbox :: MailboxSpec where
  "inbox \<equiv> \<lparr>Param1 = ''inbox'', Param2 = []\<rparr>"

definition inboxOf :: mailbox where
  "inboxOf = newMailbox demo_acct ''INBOX'' inbox"

lemma inboxOf_sel [simp]: "mb_spec inboxOf = inbox" "pendingDeleted inboxOf = {}"
  by (simp_all add: inboxOf_def newMailbox_def)

lemma boxed_sel [simp]: "ie_service (boxed ms) = paged 2 ms" "ie_pending (boxed ms) = (\<lambda>P. filter (\<lambda>x. x \<in> P) [5, 30])"
  by (simp_all add: boxed_def)

lemma loggedIn_sel [simp]:
  "acct (loggedIn a w) = a" "api (loggedIn a w) = w" "listCache (loggedIn a w) = Map.empty"
  by (simp_all add: loggedIn_def)

lemma boxed_load:
  assumes "length ms < 500"
  shows "fst (loadSummaries (logged (boxed ms)) spec (loggedIn demo_acct ([], ()))) = Inr ms"
proof -
  have "user_maxList demo_acct = 500" by (simp add: demo_acct_def newUser_def)
  then show ?thesis
    using loadPages_serves [of "logged (boxed ms)" spec 2 ms 1 "loggedIn demo_acct ([], ())"] assms
      serves_recording [OF paged_serves]
    by (auto simp: loadSummaries_miss)
qed

lemma boxed_agreeable: "agreeable (ie_service (logged (boxed ms)))"
  by (simp add: agreeable_recording agreeable_paged)

abbreviation fresh :: "(request list \<times> unit) imap_user" where
  "fresh \<equiv> loggedIn demo_acct ([], ())"

lemma changes_fresh [simp]: "changes fresh = []"
  by (simp add: changes_def)

text \<open>The last mail, as \<open>*\<close>, and all mails.\<close>

definition star :: seq_set where
  "star = \<lparr>ss_Empty = False, ss_Contains = (\<lambda>_. False), ss_Dynamic = True\<rparr>"

definition big_mail :: mail_summary where
  "big_mail = emptySummary\<lparr>mail_ID := 2 ^ 32 + 5\<rparr>"

lemma star_big: "addressed False (Some star) [big_mail] = [(1, big_mail)]"
  by (simp add: addressed_def byID_def mailboxMaxSeqAndUID_def numbered_def seqSetAddressesMessage_def star_def)

lemma star_demo: "addressed True (Some star) demo_mails = [(3, emptySummary\<lparr>mail_ID := 30\<rparr>)]"
  by (simp add: addressed_def byID_def mailboxMaxSeqAndUID_def numbered_def seqSetAddressesMessage_def star_def
      demo_mails_def uid_of_def maxUIDOf_def)

lemma store_requests_witness:
  "changes (snd (snd (UpdateMessagesFlags (logged (boxed demo_mails)) True (Some star) AddFlags [SeenFlag, FlaggedFlag]
     (inboxOf, fresh)))) =
   [action_todo demo_acct inbox 30 ''read'' None, action_todo demo_acct inbox 30 ''important'' None]"
proof -
  have load: "fst (loadSummaries (logged (boxed demo_mails)) (mb_spec inboxOf) fresh) = Inr demo_mails"
    by (simp add: boxed_load demo_mails_def)
  obtain m1 v where u: "UpdateMessagesFlags (logged (boxed demo_mails)) True (Some star) AddFlags [SeenFlag, FlaggedFlag]
     (inboxOf, fresh) = (None, m1, v)"
    using UpdateMessagesFlags_ok [OF boxed_agreeable load] by (metis prod.collapse)
  show ?thesis using store_requests [OF u load]
    by (simp add: u star_demo store_todo_def flag_todo_def flag_action_def)
qed

lemma expunge_requests_witness:
  "changes (snd (snd (Expunge (logged (boxed demo_mails)) (inboxOf\<lparr>pendingDeleted := {30}\<rparr>, fresh)))) =
   [action_todo demo_acct inbox 30 ''delete'' None]"
proof -
  let ?m = "inboxOf\<lparr>pendingDeleted := {30}\<rparr>"
  obtain m1 v where x: "Expunge (logged (boxed demo_mails)) (?m, fresh) = (None, m1, v)"
    using Expunge_ok [OF boxed_agreeable] by (metis prod.collapse)
  have "set (ie_pending (boxed demo_mails) (pendingDeleted ?m)) = pendingDeleted ?m" by simp
  from expunge_requests [OF x this] show ?thesis by (auto simp: x prefix_def length_Suc_conv)
qed

lemma delete_then_expunge_witness:
  "\<exists>m1 v m2 w. UpdateMessagesFlags (logged (boxed [big_mail])) False (Some star) AddFlags [DeletedFlag] (inboxOf, fresh) =
      (None, m1, v) \<and> Expunge (logged (boxed [big_mail])) (m1, v) = (None, m2, w) \<and>
    changes w = [action_todo demo_acct inbox 4294967301 ''delete'' None, action_todo demo_acct inbox 5 ''delete'' None]"
proof -
  have load: "fst (loadSummaries (logged (boxed [big_mail])) (mb_spec inboxOf) fresh) = Inr [big_mail]"
    by (simp add: boxed_load)
  obtain m1 v where u: "UpdateMessagesFlags (logged (boxed [big_mail])) False (Some star) AddFlags [DeletedFlag]
      (inboxOf, fresh) = (None, m1, v)"
    using UpdateMessagesFlags_ok [OF boxed_agreeable load] by (metis prod.collapse)
  obtain m2 w where x: "Expunge (logged (boxed [big_mail])) (m1, v) = (None, m2, w)"
    using Expunge_ok [OF boxed_agreeable] by (metis prod.collapse)
  have five: "uid_of big_mail = 5" by (simp add: uid_of_def big_mail_def)
  show ?thesis
    using delete_then_expunge [OF u load star_big _ _ x] u x five by (auto simp: big_mail_def)
qed

lemma resolveSpec_parsed:
  assumes "ParseMailboxName name = Inr sp" "\<not> has_prefix (to_lower (trim_space name)) ''tag-''"
  shows "resolveSpec E name u = (Inr sp, u)"
  by (simp add: resolveSpec_def parsed_resolves [OF assms] setIndex_def getIndex_def)

lemma resolve_trash: "resolveSpec E ''Trash'' u = (Inr \<lparr>Param1 = ''trash'', Param2 = []\<rparr>, u)"
  by (rule resolveSpec_parsed)
    (simp_all add: parse_standard trim_space_all_visible visible_def to_lower_Cons lower_char_letters lower_char_other)

lemma resolve_sent: "resolveSpec E ''Sent'' u = (Inr \<lparr>Param1 = ''sent'', Param2 = []\<rparr>, u)"
  by (rule resolveSpec_parsed)
    (simp_all add: parse_standard trim_space_all_visible visible_def to_lower_Cons lower_char_letters lower_char_other)

lemma resolve_folder_2: "resolveSpec E ''Folder-2'' u = (Inr \<lparr>Param1 = ''folders'', Param2 = ''2''\<rparr>, u)"
proof (rule resolveSpec_parsed)
  show "ParseMailboxName ''Folder-2'' = Inr \<lparr>Param1 = ''folders'', Param2 = ''2''\<rparr>"
    using parse_numbered(1) [of "''2''"] by (simp add: go_str)
qed (simp add: trim_space_all_visible visible_def to_lower_Cons lower_char_letters lower_char_other)

lemma boxed_loaded:
  assumes "length ms < 500"
  obtains v where "loadSummaries (logged (boxed ms)) inbox fresh = (Inr ms, v)"
  using boxed_load [OF assms, of inbox] by (cases "loadSummaries (logged (boxed ms)) inbox fresh") auto

lemma move_requests_witness:
  "changes (snd (MoveMessages (logged (boxed demo_mails)) True (Some star) ''Trash'' inboxOf fresh)) =
     [action_todo demo_acct inbox 30 ''delete'' None] \<and>
   (\<exists>q v. MoveMessages (logged (boxed demo_mails)) True (Some star) ''Sent'' inboxOf fresh =
       (Some (ErrText (''MOVE to '' @ q @ '': not supported (use Trash or a user folder/tag)'')), v) \<and> changes v = [])"
proof
  obtain u2 where l: "loadSummaries (logged (boxed demo_mails)) (mb_spec inboxOf) fresh = (Inr demo_mails, u2)"
    using boxed_loaded [of demo_mails] by (auto simp: demo_mails_def)
  let ?trash = "\<lparr>Param1 = ''trash'', Param2 = []\<rparr>"
  obtain err v where m: "MoveMessages (logged (boxed demo_mails)) True (Some star) ''Trash'' inboxOf fresh = (err, v)"
    by (cases "MoveMessages (logged (boxed demo_mails)) True (Some star) ''Trash'' inboxOf fresh")
  have "fst ((\<lambda>(_, s). moveOne (logged (boxed demo_mails)) inbox ?trash ''Trash'' (mail_ID s)) x w) = None"
    for x :: "u32 \<times> mail_summary" and w
    by (simp add: split_beta moveOne_ok(1) [OF boxed_agreeable])
  then obtain t where "for_each (\<lambda>(_, s). moveOne (logged (boxed demo_mails)) inbox ?trash ''Trash'' (mail_ID s))
      (addressed True (Some star) demo_mails) u2 = (None, t)"
    by (rule for_each_okE)
  then have "err = None" using m l
    by (simp add: MoveMessages_def resolve_trash split: prod.splits)
  then show "changes (snd (MoveMessages (logged (boxed demo_mails)) True (Some star) ''Trash'' inboxOf fresh)) =
     [action_todo demo_acct inbox 30 ''delete'' None]"
    using move_requests [OF m resolve_trash _ l] by (auto simp: m star_demo move_todo_def)
  obtain err' v' where m': "MoveMessages (logged (boxed demo_mails)) True (Some star) ''Sent'' inboxOf fresh = (err', v')"
    by (cases "MoveMessages (logged (boxed demo_mails)) True (Some star) ''Sent'' inboxOf fresh")
  show "\<exists>q v. MoveMessages (logged (boxed demo_mails)) True (Some star) ''Sent'' inboxOf fresh =
       (Some (ErrText (''MOVE to '' @ q @ '': not supported (use Trash or a user folder/tag)'')), v) \<and> changes v = []"
    using move_requests [OF m' resolve_sent _ l] by (simp add: m' star_demo)
qed

lemma copy_moves_witness:
  "changes (snd (CopyMessages (logged (boxed demo_mails)) True (Some star) ''Folder-2'' inboxOf fresh)) =
     [action_todo demo_acct inbox 30 ''move-to-folder'' (Some ''2'')]"
proof -
  obtain u2 where l: "loadSummaries (logged (boxed demo_mails)) (mb_spec inboxOf) fresh = (Inr demo_mails, u2)"
    using boxed_loaded [of demo_mails] by (auto simp: demo_mails_def)
  let ?dest = "\<lparr>Param1 = ''folders'', Param2 = ''2''\<rparr>"
  have "fst (for_each (\<lambda>(_, s). copyOne (logged (boxed demo_mails)) inbox ?dest ''Folder-2'' (mail_ID s)) xs w) = None" for xs w
    by (rule for_each_ok) (simp add: split_beta moveOne_ok(2) [OF boxed_agreeable])
  then have "fst (CopyMessages (logged (boxed demo_mails)) True (Some star) ''Folder-2'' inboxOf fresh) = None"
    using l by (simp add: CopyMessages_def resolve_folder_2)
  then obtain v where c: "CopyMessages (logged (boxed demo_mails)) True (Some star) ''Folder-2'' inboxOf fresh = (None, v)"
    by (metis prod.collapse)
  show ?thesis
    using copy_moves [OF c resolve_folder_2 _ l] by (simp add: c star_demo move_todo_def copy_todo_def)
qed

end
