(* ===== verification/Mailbox_Numbers.thy ===== *)
theory Mailbox_Numbers
  imports Mailbox_Actions "HOL-Library.Multiset"
begin

text \<open>
  Sequence numbers and UIDs of \<open>internal/imapbackend/mailbox.go\<close>: that they are numbers as
  IMAP wants them as long as the mails have numbers of 32 bits, what \<open>*\<close> addresses, and what
  STATUS reports.
\<close>

section \<open>UIDs\<close>

text \<open>The mails of a list, each with a number that a UID can hold, and no number twice.\<close>

definition uids_fit :: "mail_summary list \<Rightarrow> bool" where
  "uids_fit sums \<longleftrightarrow> distinct (map mail_ID sums) \<and> length sums < 2 ^ 32 - 1 \<and>
     (\<forall>s \<in> set sums. 0 < mail_ID s \<and> mail_ID s < 2 ^ 32 - 1)"

lemma uint_uid: "0 < mail_ID s \<Longrightarrow> mail_ID s < 2 ^ 32 - 1 \<Longrightarrow> uint (uid_of s) = mail_ID s"
  by (simp add: uint_uid_of)

lemma uid_less_iff:
  assumes "0 < mail_ID s" "mail_ID s < 2 ^ 32 - 1" "0 < mail_ID t" "mail_ID t < 2 ^ 32 - 1"
  shows "uid_of s < uid_of t \<longleftrightarrow> mail_ID s < mail_ID t"
  using uint_uid [OF assms(1,2)] uint_uid [OF assms(3,4)] by (simp add: word_less_def)

lemma maxUID_fold:
  "mx \<le> fold (\<lambda>s mx. if mx < uid_of s then uid_of s else mx) sums mx \<and>
   (\<forall>s \<in> set sums. uid_of s \<le> fold (\<lambda>s mx. if mx < uid_of s then uid_of s else mx) sums mx) \<and>
   fold (\<lambda>s mx. if mx < uid_of s then uid_of s else mx) sums mx \<in> insert mx (uid_of ` set sums)"
  by (induction sums arbitrary: mx) (auto, (meson less_imp_le not_le order_trans)+)

lemma maxUIDOf_ge: "s \<in> set sums \<Longrightarrow> uid_of s \<le> maxUIDOf sums"
  using maxUID_fold [of 0 sums] by (simp add: maxUIDOf_def)

lemma maxUIDOf_in: "maxUIDOf sums \<in> insert 0 (uid_of ` set sums)"
  using maxUID_fold [of 0 sums] by (simp add: maxUIDOf_def)

lemma byID_facts [simp]:
  "set (byID sums) = set sums" "mset (byID sums) = mset sums" "length (byID sums) = length sums"
  "sorted (map mail_ID (byID sums))"
  by (simp_all add: byID_def)

lemma uids_fit_byID [simp]: "uids_fit (byID sums) \<longleftrightarrow> uids_fit sums"
proof -
  have "mset (map mail_ID (byID sums)) = mset (map mail_ID sums)" by simp
  then have "distinct (map mail_ID (byID sums)) \<longleftrightarrow> distinct (map mail_ID sums)"
    by (rule mset_eq_imp_distinct_iff)
  then show ?thesis by (simp add: uids_fit_def)
qed

lemma map_numbered [simp]:
  "map fst (numbered sums) = map (\<lambda>i. word_of_nat (i + 1)) [0..<length sums]" "map snd (numbered sums) = sums"
  by (simp_all add: numbered_def)

lemma uids_sorted:
  assumes "uids_fit sums" "sorted (map mail_ID sums)"
  shows "sorted_wrt (<) (map uid_of sums)"
proof -
  have "sorted_wrt (<) (map mail_ID sums)"
    using assms by (simp add: uids_fit_def strict_sorted_iff)
  then have "sorted_wrt (\<lambda>s t. mail_ID s < mail_ID t) sums" by (simp add: sorted_wrt_map)
  moreover have "uid_of s < uid_of t" if "s \<in> set sums" "t \<in> set sums" "mail_ID s < mail_ID t" for s t
    using that assms(1) by (simp add: uids_fit_def uid_less_iff)
  ultimately have "sorted_wrt (\<lambda>s t. uid_of s < uid_of t) sums"
    by (rule sorted_wrt_mono_rel [rotated])
  then show ?thesis by (simp add: sorted_wrt_map)
qed

lemma unat_seq: "length sums < 2 ^ 32 - 1 \<Longrightarrow> map (unat \<circ> fst) (numbered sums) = [1..<length sums + 1]"
proof -
  assume n: "length sums < 2 ^ 32 - 1"
  have "map (unat \<circ> fst) (numbered sums) = map (unat \<circ> (\<lambda>i. word_of_nat (i + 1) :: u32)) [0..<length sums]"
    by (simp only: map_map [symmetric] map_numbered)
  also have "\<dots> = map Suc [0..<length sums]"
    using n by (intro map_cong refl) (simp add: of_nat_inverse [OF refl] del: of_nat_add of_nat_Suc)
  also have "\<dots> = [1..<length sums + 1]" by (simp add: map_Suc_upt)
  finally show ?thesis .
qed

lemma numbered_uids:
  assumes "uids_fit sums"
  shows "sorted_wrt (<) (map (uid_of \<circ> snd) (numbered (byID sums)))"
proof -
  have "sorted_wrt (<) (map uid_of (map snd (numbered (byID sums))))"
    unfolding map_numbered using assms by (intro uids_sorted) (simp_all only: uids_fit_byID byID_facts)
  then show ?thesis by (simp only: map_map)
qed

lemma numbered_seqs:
  assumes "uids_fit sums"
  shows "map (unat \<circ> fst) (numbered (byID sums)) = [1..<length sums + 1]"
  using unat_seq [of "byID sums"] assms by (simp add: uids_fit_def)

lemma uid_pos: "uids_fit sums \<Longrightarrow> s \<in> set sums \<Longrightarrow> 0 < uid_of s"
  using uint_uid [of s] by (auto simp: uids_fit_def word_less_def)

text \<open>The numbers of the mails can be UIDs: positive and, with the next one, of 32 bits.\<close>

definition ids_fit :: "mail_summary list \<Rightarrow> bool" where
  "ids_fit sums \<longleftrightarrow> (\<forall>s \<in> set sums. 0 < mail_ID s \<and> mail_ID s < 2 ^ 32 - 1)"

lemma uids_fit_ids: "uids_fit sums \<longleftrightarrow> distinct (map mail_ID sums) \<and> length sums < 2 ^ 32 - 1 \<and> ids_fit sums"
  by (simp add: uids_fit_def ids_fit_def)

lemma ids_fit_byID [simp]: "ids_fit (byID sums) \<longleftrightarrow> ids_fit sums"
  by (simp add: ids_fit_def)

lemma ids_fit_next:
  assumes "ids_fit sums" "s \<in> set sums"
  shows "0 < uid_of s \<and> uid_of s < nextUID sums"
proof -
  have pos: "0 < uid_of s" using assms uint_uid [of s] by (auto simp: ids_fit_def word_less_def)
  obtain t where t: "t \<in> set sums" "maxUIDOf sums = uid_of t"
    using maxUIDOf_in [of sums] maxUIDOf_ge [OF assms(2)] pos by (auto simp: not_less [symmetric])
  then have "uint (maxUIDOf sums) < 2 ^ 32 - 1" using assms(1) uint_uid [of t] by (auto simp: ids_fit_def)
  then have "uint (nextUID sums) = uint (maxUIDOf sums) + 1"
    by (simp add: nextUID_def uint_word_ariths)
  then show ?thesis using maxUIDOf_ge [OF assms(2)] pos by (simp add: word_less_def word_le_def)
qed

lemma ids_fit_mono:
  assumes "ids_fit sums" "sorted (map mail_ID sums)"
  shows "sorted (map uid_of sums)"
proof -
  have "uid_of s \<le> uid_of t" if "s \<in> set sums" "t \<in> set sums" "mail_ID s \<le> mail_ID t" for s t
    using that assms(1) uint_uid [of s] uint_uid [of t] by (auto simp: ids_fit_def word_le_def)
  with assms(2) show ?thesis
    by (auto simp: sorted_map intro: sorted_wrt_mono_rel [rotated])
qed

lemma ids_fit_strict:
  assumes "ids_fit sums" "sorted (map mail_ID sums)"
  shows "sorted_wrt (<) (map uid_of sums) \<longleftrightarrow> distinct (map mail_ID sums)"
proof -
  have "map mail_ID sums = map uint (map uid_of sums)"
    using assms(1) uint_uid by (simp add: ids_fit_def)
  moreover have "inj_on uint (set (map uid_of sums))" by (rule inj_onI) (rule word_uint_eqI)
  ultimately have "distinct (map uid_of sums) \<longleftrightarrow> distinct (map mail_ID sums)"
    by (metis distinct_map)
  then show ?thesis using ids_fit_mono [OF assms] by (simp add: strict_sorted_iff)
qed

text \<open>
  C9: However the service answers, the messages of a mailbox are the mails of the loaded list,
  none left out and none added, in the order of their numbers; message \<open>i\<close> has sequence number
  \<open>i\<close>, as long as there are fewer than 2 ^ 32 - 1, and as its UID the number of the mail modulo
  2 ^ 32.  When all numbers are positive and below 2 ^ 32 - 1, the UIDs never fall, all are
  positive and below UIDNEXT, and they grow strictly exactly if the service listed no mail twice.
\<close>

theorem message_numbers:
  shows "mset (map snd (numbered (byID sums))) = mset sums \<and>
    sorted (map (mail_ID \<circ> snd) (numbered (byID sums))) \<and>
    (length sums < 2 ^ 32 - 1 \<longrightarrow> map (unat \<circ> fst) (numbered (byID sums)) = [1..<length sums + 1]) \<and>
    (\<forall>s \<in> set sums. uint (uid_of s) = mail_ID s mod 2 ^ 32) \<and>
    (ids_fit sums \<longrightarrow>
       sorted (map (uid_of \<circ> snd) (numbered (byID sums))) \<and>
       (\<forall>s \<in> set sums. 0 < uid_of s \<and> uid_of s < nextUID sums) \<and>
       (sorted_wrt (<) (map (uid_of \<circ> snd) (numbered (byID sums))) \<longleftrightarrow> distinct (map mail_ID sums)))"
proof (intro conjI impI ballI)
  show "mset (map snd (numbered (byID sums))) = mset sums" by (simp only: map_numbered byID_facts)
  show "sorted (map (mail_ID \<circ> snd) (numbered (byID sums)))"
    by (simp only: map_map [symmetric] map_numbered byID_facts)
  show "map (unat \<circ> fst) (numbered (byID sums)) = [1..<length sums + 1]" if "length sums < 2 ^ 32 - 1"
    using unat_seq [of "byID sums"] that by simp
  show "uint (uid_of s) = mail_ID s mod 2 ^ 32" for s by (rule uint_uid_of)
next
  assume fit: "ids_fit sums"
  then have l: "ids_fit (byID sums)" "sorted (map mail_ID (byID sums))" by simp_all
  show "sorted (map (uid_of \<circ> snd) (numbered (byID sums)))"
    using ids_fit_mono [OF l] by (simp only: map_map [symmetric] map_numbered)
  have "distinct (map mail_ID (byID sums)) \<longleftrightarrow> distinct (map mail_ID sums)"
    by (rule mset_eq_imp_distinct_iff) simp
  then show "sorted_wrt (<) (map (uid_of \<circ> snd) (numbered (byID sums))) \<longleftrightarrow> distinct (map mail_ID sums)"
    using ids_fit_strict [OF l] by (simp only: map_map [symmetric] map_numbered)
  show "0 < uid_of s" "uid_of s < nextUID sums" if "s \<in> set sums" for s
    using ids_fit_next [OF fit that] by simp_all
qed

lemma demo_mails_fit: "uids_fit demo_mails"
  by (simp add: uids_fit_def demo_mails_def)

lemma message_numbers_witness:
  "map (unat \<circ> fst) (numbered (byID demo_mails)) = [1, 2, 3] \<and>
   sorted_wrt (<) (map (uid_of \<circ> snd) (numbered (byID demo_mails)))"
  using message_numbers [of demo_mails] demo_mails_fit by (simp add: uids_fit_ids) (simp add: demo_mails_def upt_rec)

lemma seqs_sorted:
  assumes "length sums < 2 ^ 32 - 1"
  shows "sorted_wrt (<) (map fst (numbered (byID sums)))"
proof -
  have "map (unat \<circ> fst) (numbered (byID sums)) = [1..<length sums + 1]"
    using unat_seq [of "byID sums"] assms by simp
  then have "sorted_wrt (\<lambda>x y. (unat \<circ> fst) x < (unat \<circ> fst) y) (numbered (byID sums))"
    using sorted_wrt_upt by (metis sorted_wrt_map)
  then show ?thesis by (simp only: sorted_wrt_map word_less_nat_alt comp_apply)
qed

lemma numbered_keys_sorted:
  assumes "uids_fit sums"
  shows "sorted_wrt (<) (map (\<lambda>(n, s). if uid then uid_of s else n) (numbered (byID sums)))"
proof (cases uid)
  case True
  then show ?thesis using numbered_uids [OF assms] by (simp add: comp_def split_def)
next
  case False
  then have "(\<lambda>(n, s). if uid then uid_of s else n) = fst" by (auto simp: fun_eq_iff)
  then show ?thesis using seqs_sorted assms by (simp add: uids_fit_def)
qed

section \<open>The last message\<close>

text \<open>A set that contains no number and stands for the last message: \<open>*\<close>.\<close>

definition only_star :: "seq_set \<Rightarrow> bool" where
  "only_star ss \<longleftrightarrow> \<not> ss_Empty ss \<and> ss_Dynamic ss \<and> (\<forall>n. n \<noteq> 0 \<longrightarrow> \<not> ss_Contains ss n)"

lemma only_star_addresses:
  "only_star ss \<Longrightarrow> seqSetAddressesMessage uid (Some ss) n maxSeq maxUID \<longleftrightarrow>
     n \<noteq> 0 \<and> n = (if uid then maxUID else maxSeq)"
  by (auto simp: seqSetAddressesMessage_def only_star_def Let_def)

lemma filter_last:
  fixes f :: "'a \<Rightarrow> 'b :: linorder"
  assumes "xs \<noteq> []" "sorted_wrt (<) (map f xs)"
  shows "filter (\<lambda>x. f x = f (last xs)) xs = [last xs]"
proof -
  obtain ys y where "xs = ys @ [y]" using assms(1) by (meson rev_exhaust)
  with assms(2) show ?thesis by (auto simp: sorted_wrt_append filter_empty_conv)
qed

lemma last_numbered:
  assumes "sums \<noteq> []"
  shows "numbered sums \<noteq> [] \<and> last (numbered sums) = (word_of_nat (length sums), last sums)"
proof -
  obtain ys y where "sums = ys @ [y]" using assms by (meson rev_exhaust)
  then show ?thesis by (simp add: numbered_def)
qed

lemma maxUID_last:
  assumes "sums \<noteq> []" "sorted_wrt (<) (map uid_of sums)" "0 < uid_of (last sums)"
  shows "maxUIDOf sums = uid_of (last sums)"
proof -
  obtain ys y where sums: "sums = ys @ [y]" using assms(1) by (meson rev_exhaust)
  then have "\<forall>s \<in> set sums. uid_of s \<le> uid_of (last sums)"
    using assms(2) by (auto simp: sorted_wrt_append less_imp_le)
  moreover have "uid_of (last sums) \<le> maxUIDOf sums" by (rule maxUIDOf_ge) (simp add: assms(1))
  ultimately show ?thesis using maxUIDOf_in [of sums] assms(3) by auto
qed

text \<open>
  \<open>*\<close> always addresses one message of a mailbox that is not empty, the last one, whether
  it is meant as a number or as a UID, although \<open>Contains\<close> of the library denies it.
\<close>

theorem star_is_last:
  assumes "uids_fit sums" "sums \<noteq> []" "only_star ss"
  shows "addressed uid (Some ss) sums = [last (numbered (byID sums))]"
proof -
  let ?l = "byID sums"
  let ?key = "\<lambda>(n, s). if uid then uid_of s else n"
  have ne: "?l \<noteq> []" using assms(2) by (metis byID_facts(3) length_0_conv)
  have fit: "uids_fit ?l" using assms(1) by simp
  note last = last_numbered [OF ne]
  have sorted: "sorted_wrt (<) (map ?key (numbered ?l))" using assms(1) by (rule numbered_keys_sorted)
  have uids: "sorted_wrt (<) (map uid_of ?l)" using uids_sorted [OF fit] by simp
  have pos: "0 < uid_of (last ?l)" by (rule uid_pos [OF fit]) (rule last_in_set [OF ne])
  have seq: "word_of_nat (length ?l) \<noteq> (0 :: u32)"
  proof
    assume "word_of_nat (length ?l) = (0 :: u32)"
    moreover have "length ?l < 2 ^ 32" using fit by (simp add: uids_fit_def)
    ultimately have "length ?l = 0" using of_nat_inverse [of "length ?l" "0 :: u32"] by simp
    with ne show False by (simp only: length_0_conv)
  qed
  have key: "?key (last (numbered ?l)) = (if uid then maxUIDOf ?l else word_of_nat (length ?l))"
    using last maxUID_last [OF ne uids pos] by simp
  have "addressed uid (Some ss) sums = filter (\<lambda>x. ?key x = ?key (last (numbered ?l))) (numbered ?l)"
    unfolding addressed_def Let_def mailboxMaxSeqAndUID_def key split_def fst_conv snd_conv
    using pos seq maxUID_last [OF ne uids pos]
    by (intro filter_cong) (auto simp: only_star_addresses [OF assms(3)] last)
  also have "\<dots> = [last (numbered ?l)]" using last sorted by (intro filter_last) auto
  finally show ?thesis .
qed

lemma star_is_last_witness:
  "addressed True (Some star) demo_mails = [last (numbered (byID demo_mails))]"
  by (rule star_is_last [OF demo_mails_fit]) (simp_all add: only_star_def star_def demo_mails_def)

section \<open>STATUS\<close>

lemma countUnseen_filter: "countUnseen sums = word_of_nat (length (filter (\<lambda>s. \<not> Read s) sums))"
proof -
  have "fold (\<lambda>s n. if \<not> Read s then n + 1 else n) sums n = n + word_of_nat (length (filter (\<lambda>s. \<not> Read s) sums))"
    for n :: u32
    by (induction sums arbitrary: n) simp_all
  then show ?thesis by (simp add: countUnseen_def)
qed

lemma status_fold:
  "st_Messages (fold (status_step m sums) items st) =
     (if StatusMessages \<in> set items then word_of_nat (length sums) else st_Messages st) \<and>
   st_Unseen (fold (status_step m sums) items st) =
     (if StatusUnseen \<in> set items then countUnseen sums else st_Unseen st) \<and>
   st_UidNext (fold (status_step m sums) items st) =
     (if StatusUidNext \<in> set items then nextUID sums else st_UidNext st) \<and>
   st_UidValidity (fold (status_step m sums) items st) =
     (if StatusUidValidity \<in> set items then uidValidity m else st_UidValidity st)"
proof (induction items arbitrary: st)
  case (Cons x xs)
  show ?case using Cons.IH [of "status_step m sums x st"] by (cases x) auto
qed simp

text \<open>
  STATUS reports for the list that the load returns: the number of mails, how many of
  them are unread, the next UID and the UIDVALIDITY of the mailbox, each exactly when asked.
\<close>

theorem status_counts:
  assumes "Status_of E m items u = (Inr st, v)" "fst (loadSummaries E (mb_spec m) u) = Inr sums" "uids_fit sums"
  shows "(StatusMessages \<in> set items \<longrightarrow> unat (st_Messages st) = length sums) \<and>
    (StatusUnseen \<in> set items \<longrightarrow> unat (st_Unseen st) = length (filter (\<lambda>s. \<not> Read s) sums)) \<and>
    (StatusUidNext \<in> set items \<longrightarrow> st_UidNext st = nextUID sums) \<and>
    (StatusUidValidity \<in> set items \<longrightarrow> st_UidValidity st = uidValidity m)"
proof -
  have n: "length sums < 2 ^ 32" using assms(3) by (simp add: uids_fit_def)
  moreover have "length (filter (\<lambda>s. \<not> Read s) sums) \<le> length sums" by simp
  ultimately have "length (filter (\<lambda>s. \<not> Read s) sums) < 2 ^ 32" by linarith
  then have "unat (word_of_nat (length sums) :: u32) = length sums"
    "unat (countUnseen sums) = length (filter (\<lambda>s. \<not> Read s) sums)"
    using n by (simp_all add: of_nat_inverse [OF refl] countUnseen_filter)
  then show ?thesis
    using assms(1,2) status_fold [of m sums items]
    by (auto simp: Status_of_def split: prod.splits sum.splits)
qed

lemma status_counts_witness:
  "unat (st_Messages (case fst (Status_of (logged (boxed demo_mails)) inboxOf [StatusMessages] fresh) of Inr st \<Rightarrow> st)) = 3"
proof -
  have load: "fst (loadSummaries (logged (boxed demo_mails)) (mb_spec inboxOf) fresh) = Inr demo_mails"
    by (simp add: boxed_load demo_mails_def)
  then obtain u1 where "loadSummaries (logged (boxed demo_mails)) (mb_spec inboxOf) fresh = (Inr demo_mails, u1)"
    by (metis prod.collapse)
  then obtain st v where s: "Status_of (logged (boxed demo_mails)) inboxOf [StatusMessages] fresh = (Inr st, v)"
    by (simp add: Status_of_def)
  have "length demo_mails = 3" by (simp add: demo_mails_def)
  then show ?thesis using status_counts [OF s load demo_mails_fit] by (simp add: s)
qed

end
