(* ===== verification/Http_Client.thy ===== *)
theory Http_Client
  imports Remote_Api Base64
begin

text \<open>
  The HTTP side of the remote client, \<open>internal/remote/client.go\<close> and
  \<open>attachment_download.go\<close>: posting a request and decoding the answer, the addresses of mail
  bodies and attachments, and the download of an attachment.

  The exchange itself is an argument, the record \<open>transport\<close>: a POST and a GET that give a
  status and a body, or an error, and the JSON parser of the standard library.
\<close>

section \<open>The exchange\<close>

record 'w transport =
  tr_post :: "string \<Rightarrow> request \<Rightarrow> 'w \<Rightarrow> (int \<times> string) result \<times> 'w"
  tr_get :: "string \<Rightarrow> string option \<Rightarrow> 'w \<Rightarrow> (int \<times> string) result \<times> 'w"
  tr_json :: "string \<Rightarrow> string + json"
  tr_type_error :: "json \<Rightarrow> string"
  tr_log_url :: "string \<Rightarrow> string"

definition truncate_str :: "string \<Rightarrow> nat \<Rightarrow> string" where
  "truncate_str s n = (if length s \<le> n then s else take n s @ ''...'')"

definition postJSONBody :: "'w transport \<Rightarrow> client \<Rightarrow> request \<Rightarrow> 'w \<Rightarrow> string result \<times> 'w" where
  "postJSONBody tr c req w =
     (case tr_post tr (BaseURL c @ ''/request'') req w of
        (Inl e, w1) \<Rightarrow> (Inl e, w1)
      | (Inr (status, raw), w1) \<Rightarrow>
          if status \<noteq> 200
          then (Inl (ErrText (''remote HTTP '' @ itoa status @ '': '' @ truncate_str raw 512)), w1)
          else (Inr raw, w1))"

definition DoRaw :: "'w transport \<Rightarrow> client \<Rightarrow> request \<Rightarrow> 'w \<Rightarrow> string result \<times> 'w" where
  "DoRaw tr c req w = postJSONBody tr c (fill_request c req) w"

section \<open>Decoding an answer\<close>

definition set_folder :: "string \<Rightarrow> json \<Rightarrow> folder \<Rightarrow> bool \<times> folder" where
  "set_folder k v f =
     (if equal_fold k ''id'' then (case dec_int v (folder_ID f) of (ok, x) \<Rightarrow> (ok, f\<lparr>folder_ID := x\<rparr>))
      else if equal_fold k ''name'' then (case dec_string v (folder_Name f) of (ok, x) \<Rightarrow> (ok, f\<lparr>folder_Name := x\<rparr>))
      else if equal_fold k ''from'' then (case dec_string v (folder_From f) of (ok, x) \<Rightarrow> (ok, f\<lparr>folder_From := x\<rparr>))
      else if equal_fold k ''contains''
        then (case dec_string v (folder_Contains f) of (ok, x) \<Rightarrow> (ok, f\<lparr>folder_Contains := x\<rparr>))
      else (True, f))"

definition set_tag :: "string \<Rightarrow> json \<Rightarrow> tag \<Rightarrow> bool \<times> tag" where
  "set_tag k v t =
     (if equal_fold k ''id'' then (case dec_int v (tag_ID t) of (ok, x) \<Rightarrow> (ok, t\<lparr>tag_ID := x\<rparr>))
      else if equal_fold k ''name'' then (case dec_string v (tag_Name t) of (ok, x) \<Rightarrow> (ok, t\<lparr>tag_Name := x\<rparr>))
      else if equal_fold k ''color'' then (case dec_string v (tag_Color t) of (ok, x) \<Rightarrow> (ok, t\<lparr>tag_Color := x\<rparr>))
      else (True, t))"

definition emptyFolder :: folder where
  "emptyFolder = \<lparr>folder_ID = 0, folder_Name = [], folder_From = [], folder_Contains = []\<rparr>"

definition emptyTag :: tag where
  "emptyTag = \<lparr>tag_ID = 0, tag_Name = [], tag_Color = []\<rparr>"

definition emptyResponse :: response where
  "emptyResponse = \<lparr>Status = 0, Message = [], Mails = [], Total = None, Folders = [], Tags = [], RespData = None\<rparr>"

fun is_map :: "json \<Rightarrow> bool" where
  "is_map (JObj _) = True"
| "is_map JNull = True"
| "is_map _ = False"

text \<open>
  The members of the type \<open>Response\<close>; of those that the bridge never reads only the type
  matters, because a wrong one makes the whole answer an error.
\<close>

definition set_response :: "string \<Rightarrow> json \<Rightarrow> response \<Rightarrow> bool \<times> response" where
  "set_response k v r =
     (if equal_fold k ''status'' then (True, r\<lparr>Status := api_status v\<rparr>)
      else if equal_fold k ''message'' then (case dec_string v (Message r) of (ok, x) \<Rightarrow> (ok, r\<lparr>Message := x\<rparr>))
      else if equal_fold k ''service'' then (fst (dec_string v []), r)
      else if equal_fold k ''action'' then (fst (dec_string v []), r)
      else if equal_fold k ''mails'' then
        (case dec_list (\<lambda>x. dec_struct set_summary x emptySummary) v (Mails r) of (ok, ms) \<Rightarrow> (ok, r\<lparr>Mails := ms\<rparr>))
      else if equal_fold k ''total'' then
        (if v = JNull then (True, r\<lparr>Total := None\<rparr>)
         else case total_count v (case Total r of None \<Rightarrow> 0 | Some n \<Rightarrow> n) of (ok, n) \<Rightarrow> (ok, r\<lparr>Total := Some n\<rparr>))
      else if equal_fold k ''last_mail_id'' then (fst (dec_int v 0), r)
      else if equal_fold k ''nothing_changed'' then (fst (dec_bool v False), r)
      else if equal_fold k ''folders'' then
        (case dec_list (\<lambda>x. dec_struct set_folder x emptyFolder) v (Folders r) of (ok, fs) \<Rightarrow> (ok, r\<lparr>Folders := fs\<rparr>))
      else if equal_fold k ''tags'' then
        (case dec_list (\<lambda>x. dec_struct set_tag x emptyTag) v (Tags r) of (ok, ts) \<Rightarrow> (ok, r\<lparr>Tags := ts\<rparr>))
      else if equal_fold k ''params'' then (is_map v, r)
      else if equal_fold k ''data'' then (True, r\<lparr>RespData := Some v\<rparr>)
      else (True, r))"

definition decodeResponse :: "'w transport \<Rightarrow> string \<Rightarrow> response result" where
  "decodeResponse tr raw =
     (case tr_json tr raw of
        Inl e \<Rightarrow> Inl (ErrText (''decode response: '' @ e))
      | Inr j \<Rightarrow>
          (case dec_struct set_response j emptyResponse of
             (ok, r) \<Rightarrow> if ok then Inr r else Inl (ErrText (''decode response: '' @ tr_type_error tr j))))"

text \<open>The service that \<open>Do\<close> talks to, over HTTP.\<close>

definition httpService :: "'w transport \<Rightarrow> client \<Rightarrow> 'w service" where
  "httpService tr c req w =
     (case postJSONBody tr c req w of
        (Inl e, w1) \<Rightarrow> (Inl e, w1)
      | (Inr raw, w1) \<Rightarrow> (decodeResponse tr raw, w1))"

section \<open>Addresses\<close>

definition hex_digit :: "nat \<Rightarrow> char" where
  "hex_digit d = char_of (if d < 10 then 48 + d else 55 + d)"

definition percent :: "char \<Rightarrow> string" where
  "percent c = [CHR ''%'', hex_digit (of_char c div 16), hex_digit (of_char c mod 16)]"

definition unreserved :: "char \<Rightarrow> bool" where
  "unreserved c \<longleftrightarrow>
     (let b = of_char c :: nat in
      48 \<le> b \<and> b \<le> 57 \<or> 65 \<le> b \<and> b \<le> 90 \<or> 97 \<le> b \<and> b \<le> 122) \<or>
     c \<in> {CHR ''-'', CHR ''_'', CHR ''.'', CHR ''~''}"

definition path_escape_char :: "char \<Rightarrow> string" where
  "path_escape_char c =
     (if unreserved c \<or> c \<in> {CHR ''$'', CHR ''&'', CHR ''+'', CHR '':'', CHR ''='', CHR ''@''} then [c]
      else percent c)"

definition PathEscape :: "string \<Rightarrow> string" where
  "PathEscape s = concat (map path_escape_char s)"

definition query_escape_char :: "char \<Rightarrow> string" where
  "query_escape_char c = (if unreserved c then [c] else if c = CHR '' '' then ''+'' else percent c)"

definition QueryEscape :: "string \<Rightarrow> string" where
  "QueryEscape s = concat (map query_escape_char s)"

definition MailAssetOrigin :: "client \<Rightarrow> string" where
  "MailAssetOrigin c =
     (let s = trim_space (AssetURL c) in if s \<noteq> [] then trim_right_char CHR ''/'' s else BaseURL c)"

definition AttachmentOrigin :: "client \<Rightarrow> string" where
  "AttachmentOrigin c = trim_right_char CHR ''/'' (BaseURL c)"

definition MailHTMLURL :: "string \<Rightarrow> string \<Rightarrow> int \<Rightarrow> string" where
  "MailHTMLURL httpBase token mailID =
     trim_right_char CHR ''/'' httpBase @ ''/mail/'' @ PathEscape token @ ''/'' @ itoa mailID"

record attachment =
  att_ID :: int
  FileName :: string
  FileSize :: int
  Extension :: string
  att_CreatedAt :: string
  Content :: string
  URL :: string

text \<open>The day of the first of the two times that has one.\<close>

definition path_day :: "string \<Rightarrow> string option" where
  "path_day s0 =
     (let s = trim_space s0 in
      if s = [] then None
      else let day = trim_space (case cut_char CHR ''T'' s of
               Some (d, _) \<Rightarrow> d
             | None \<Rightarrow> (case cut_char CHR '' '' s of Some (d, _) \<Rightarrow> d | None \<Rightarrow> s))
           in if 8 \<le> length day then Some day else None)"

definition attachmentPathDay :: "string \<Rightarrow> string \<Rightarrow> string" where
  "attachmentPathDay attCreated mailCreated =
     (case path_day attCreated of
        Some d \<Rightarrow> d
      | None \<Rightarrow> (case path_day mailCreated of Some d \<Rightarrow> d | None \<Rightarrow> ''1970-01-01''))"

definition attachmentPathExt :: "attachment \<Rightarrow> string" where
  "attachmentPathExt a =
     (let ext = trim_prefix (trim_space (to_lower (Extension a))) ''.'' in
      if ext \<noteq> [] then ext
      else case cut_last_char CHR ''.'' (trim_space (FileName a)) of
        Some (_, x # e) \<Rightarrow> to_lower (trim_space (x # e))
      | _ \<Rightarrow> ''bin'')"

text \<open>Adding an address unless it is there already.\<close>

definition add_new :: "'a \<Rightarrow> 'a list \<Rightarrow> 'a list" where
  "add_new x xs = (if x \<in> set xs then xs else xs @ [x])"

definition AttachmentURLCandidates :: "string \<Rightarrow> attachment \<Rightarrow> string \<Rightarrow> string \<Rightarrow> int \<Rightarrow> string list" where
  "AttachmentURLCandidates base0 a token mailCreated mailID =
     (let base = trim_right_char CHR ''/'' base0;
          ext = attachmentPathExt a;
          url = (\<lambda>path. base @ path @ ''?token='' @ QueryEscape token);
          file = itoa (att_ID a) @ ''.'' @ ext;
          primaryDay = attachmentPathDay (att_CreatedAt a) mailCreated;
          mailDay = (if trim_space mailCreated \<noteq> [] then attachmentPathDay mailCreated [] else []);
          out1 = add_new (url (''/data/attachments/mails/'' @ primaryDay @ ''/'' @ file)) [];
          out2 = (if mailDay \<noteq> [] \<and> mailDay \<noteq> primaryDay
                  then add_new (url (''/data/attachments/mails/'' @ mailDay @ ''/'' @ file)) out1 else out1);
          out3 = add_new (url (''/data/attachments/mails/'' @ file)) out2
      in if 0 < mailID
         then add_new (url (''/data/attachments/mails/'' @ itoa mailID @ ''/'' @ file)) out3 else out3)"

definition AttachmentURL :: "string \<Rightarrow> attachment \<Rightarrow> string \<Rightarrow> string \<Rightarrow> string" where
  "AttachmentURL httpBase a token mailCreatedAt =
     (case AttachmentURLCandidates (trim_right_char CHR ''/'' httpBase) a token mailCreatedAt 0 of
        [] \<Rightarrow> [] | u # _ \<Rightarrow> u)"

definition attachmentHTTPOrigins :: "client \<Rightarrow> string list" where
  "attachmentHTTPOrigins c =
     (let add = (\<lambda>s out. if s = [] then out else add_new s out) in
      add (trim_right_char CHR ''/'' (AttachmentOrigin c))
        (add (trim_right_char CHR ''/'' (MailAssetOrigin c)) []))"

definition resolveMaybeRelativeURL :: "string \<Rightarrow> string \<Rightarrow> string" where
  "resolveMaybeRelativeURL ref0 apiBase =
     (let ref = trim_space ref0; base = trim_right_char CHR ''/'' apiBase in
      if ref = [] then []
      else if has_prefix ref ''http://'' \<or> has_prefix ref ''https://'' then ref
      else if has_prefix ref ''//'' then ''https:'' @ ref
      else if has_prefix ref ''/'' then base @ ref
      else base @ ''/'' @ trim_prefix ref ''/'')"

section \<open>Downloads\<close>

definition downloadGET :: "'w transport \<Rightarrow> client \<Rightarrow> string \<Rightarrow> bool \<Rightarrow> 'w \<Rightarrow> string result \<times> 'w" where
  "downloadGET tr c url bearer w =
     (case tr_get tr url (if bearer \<and> cli_token c \<noteq> [] then Some (''Bearer '' @ cli_token c) else None) w of
        (Inl e, w1) \<Rightarrow> (Inl e, w1)
      | (Inr (status, b), w1) \<Rightarrow>
          if status \<noteq> 200 then (Inl (ErrText (''GET '' @ tr_log_url tr url @ '': HTTP '' @ itoa status)), w1)
          else (Inr b, w1))"

definition DownloadGET :: "'w transport \<Rightarrow> client \<Rightarrow> string \<Rightarrow> 'w \<Rightarrow> string result \<times> 'w" where
  "DownloadGET tr c url w = downloadGET tr c url False w"

definition CloneWithToken :: "client \<Rightarrow> string \<Rightarrow> client" where
  "CloneWithToken c tok = (NewClient (BaseURL c) (cli_Lang c))\<lparr>AssetURL := AssetURL c, cli_token := tok\<rparr>"

text \<open>The content that came along with the attachment; \<open>None\<close> for an error.\<close>

definition DecodeAttachmentContent :: "attachment \<Rightarrow> string option" where
  "DecodeAttachmentContent a = (if Content a = [] then None else b64_decode (Content a))"

text \<open>
  GET requests one after the other until one gives a body that is not empty; otherwise the
  error of the last one, if it was one.
\<close>

fun tryGets ::
    "'w transport \<Rightarrow> client \<Rightarrow> (string \<times> bool) list \<Rightarrow> go_error option \<Rightarrow> 'w
     \<Rightarrow> (go_error option + string) \<times> 'w" where
  "tryGets tr c [] lastErr w = (Inl lastErr, w)"
| "tryGets tr c ((url, bearer) # rest) lastErr w =
     (case downloadGET tr c url bearer w of
        (Inr b, w1) \<Rightarrow> if 0 < length b then (Inr b, w1) else tryGets tr c rest None w1
      | (Inl e, w1) \<Rightarrow> tryGets tr c rest (Some e) w1)"

definition both_ways :: "string \<Rightarrow> (string \<times> bool) list" where
  "both_ways url = [(url, False), (url, True)]"

definition urlAttempts :: "client \<Rightarrow> attachment \<Rightarrow> (string \<times> bool) list" where
  "urlAttempts c a =
     (let u = trim_space (URL a) in
      if u = [] then []
      else concat (map both_ways (filter (\<lambda>full. full \<noteq> [])
             (map (resolveMaybeRelativeURL u) (attachmentHTTPOrigins c)))))"

definition candidateAttempts :: "client \<Rightarrow> attachment \<Rightarrow> int \<Rightarrow> string \<Rightarrow> (string \<times> bool) list" where
  "candidateAttempts c a mailID mailCreated =
     concat (map both_ways (concat (map
       (\<lambda>base. AttachmentURLCandidates base a (cli_token c) mailCreated mailID) (attachmentHTTPOrigins c))))"

definition GetAttachmentBytes ::
    "'w transport \<Rightarrow> client \<Rightarrow> attachment \<Rightarrow> int \<Rightarrow> string \<Rightarrow> 'w \<Rightarrow> string result \<times> 'w" where
  "GetAttachmentBytes tr c a mailID mailCreated w =
     (case (if trim_space (Content a) \<noteq> [] then DecodeAttachmentContent a else None) of
        Some (x # b) \<Rightarrow> (Inr (x # b), w)
      | _ \<Rightarrow>
          (case tryGets tr c (urlAttempts c a) None w of
             (Inr b, w1) \<Rightarrow> (Inr b, w1)
           | (Inl _, w1) \<Rightarrow>
               (case tryGets tr c (candidateAttempts c a mailID mailCreated) None w1 of
                  (Inr b, w2) \<Rightarrow> (Inr b, w2)
                | (Inl (Some e), w2) \<Rightarrow> (Inl e, w2)
                | (Inl None, w2) \<Rightarrow> (Inl (ErrText (''empty attachment body for id='' @ itoa (att_ID a))), w2))))"

section \<open>Escaped tokens\<close>

definition hex_value :: "char \<Rightarrow> nat" where
  "hex_value c = (let b = of_char c :: nat in if b < 65 then b - 48 else b - 55)"

text \<open>The inverse, as a server reads a segment of a path, and a parameter of a query.\<close>

fun unescape :: "bool \<Rightarrow> string \<Rightarrow> string" where
  "unescape q [] = []"
| "unescape q (c # s) =
     (if c = CHR ''%'' then
        (case s of a # b # r \<Rightarrow> char_of (hex_value a * 16 + hex_value b) # unescape q r | _ \<Rightarrow> [])
      else (if q \<and> c = CHR ''+'' then CHR '' '' else c) # unescape q s)"

lemma hex_value_digit: "d < 16 \<Longrightarrow> hex_value (hex_digit d) = d"
  by (auto simp: hex_value_def hex_digit_def Let_def)

lemma byte_div_16_less: "of_char (c :: char) div 16 < (16 :: nat)"
  using byte_less_256 [of c] by linarith

lemma percent_value: "char_of (hex_value (hex_digit (of_char c div 16)) * 16 + hex_value (hex_digit (of_char c mod 16))) = c"
proof -
  have "of_char c div 16 < (16 :: nat)" by (rule byte_div_16_less)
  then show ?thesis by (simp add: hex_value_digit)
qed

lemma unreserved_not_special: "unreserved c \<Longrightarrow> c \<notin> {CHR ''%'', CHR ''+'', CHR ''/'', CHR ''?'', CHR ''#'', CHR ''&'', CHR '' ''}"
  by (auto simp: unreserved_def)

lemma unescape_path_char: "unescape False (path_escape_char c @ s) = c # unescape False s"
  using unreserved_not_special [of c] by (auto simp: path_escape_char_def percent_def percent_value)

lemma unescape_query_char: "unescape True (query_escape_char c @ s) = c # unescape True s"
  using unreserved_not_special [of c] by (auto simp: query_escape_char_def percent_def percent_value)

lemma hex_digit_plain: "d < 16 \<Longrightarrow> unreserved (hex_digit d)"
  by (auto simp: unreserved_def hex_digit_def Let_def)

lemma percent_chars: "set (percent c) \<subseteq> insert CHR ''%'' {d. unreserved d}"
proof -
  have "of_char c div 16 < (16 :: nat)" by (rule byte_div_16_less)
  then show ?thesis by (simp add: percent_def hex_digit_plain)
qed

lemma path_escape_char_set:
  "x \<in> set (path_escape_char c) \<Longrightarrow> unreserved x \<or> x \<in> {CHR ''$'', CHR ''&'', CHR ''+'', CHR '':'', CHR ''='', CHR ''@'', CHR ''%''}"
  using percent_chars [of c] by (auto simp: path_escape_char_def split: if_split_asm)

lemma query_escape_char_set: "x \<in> set (query_escape_char c) \<Longrightarrow> unreserved x \<or> x \<in> {CHR ''+'', CHR ''%''}"
  using percent_chars [of c] by (auto simp: query_escape_char_def split: if_split_asm)

lemma no_special:
  "unreserved x \<or> x \<in> {CHR ''$'', CHR ''&'', CHR ''+'', CHR '':'', CHR ''='', CHR ''@'', CHR ''%''} \<Longrightarrow>
     x \<notin> {CHR ''/'', CHR ''?'', CHR ''#''}"
  "unreserved x \<or> x \<in> {CHR ''+'', CHR ''%''} \<Longrightarrow> x \<notin> {CHR ''/'', CHR ''?'', CHR ''#'', CHR ''&''}"
  using unreserved_not_special [of x] by auto

lemma escape_facts:
  "unescape False (PathEscape s) = s" "unescape True (QueryEscape s) = s"
  "{CHR ''/'', CHR ''?'', CHR ''#''} \<inter> set (PathEscape s) = {}"
  "{CHR ''/'', CHR ''?'', CHR ''#'', CHR ''&''} \<inter> set (QueryEscape s) = {}"
proof -
  show "unescape False (PathEscape s) = s"
    by (induction s) (simp_all add: PathEscape_def unescape_path_char)
  show "unescape True (QueryEscape s) = s"
    by (induction s) (simp_all add: QueryEscape_def unescape_query_char)
  show "{CHR ''/'', CHR ''?'', CHR ''#''} \<inter> set (PathEscape s) = {}"
    using path_escape_char_set no_special by (auto simp: PathEscape_def simp del: insert_iff)
  show "{CHR ''/'', CHR ''?'', CHR ''#'', CHR ''&''} \<inter> set (QueryEscape s) = {}"
    using query_escape_char_set no_special by (auto simp: QueryEscape_def simp del: insert_iff)
qed

text \<open>An address carries a token in its query.\<close>

definition carries :: "string \<Rightarrow> string \<Rightarrow> string \<Rightarrow> bool" where
  "carries base token u \<longleftrightarrow>
     (\<exists>path seg. u = trim_right_char CHR ''/'' base @ path @ ''?token='' @ seg \<and> unescape True seg = token \<and>
        {CHR ''/'', CHR ''?'', CHR ''#'', CHR ''&''} \<inter> set seg = {})"

lemma carries_escaped: "carries base token (trim_right_char CHR ''/'' base @ path @ ''?token='' @ QueryEscape token)"
  unfolding carries_def using escape_facts(2,4) by blast

lemma list_all_add_new: "P x \<Longrightarrow> list_all P xs \<Longrightarrow> list_all P (add_new x xs)"
  by (simp add: add_new_def)

lemma list_all_if: "list_all P xs \<Longrightarrow> list_all P ys \<Longrightarrow> list_all P (if c then xs else ys)"
  by simp

lemma candidates_carry: "list_all (carries base token) (AttachmentURLCandidates base a token created n)"
  unfolding AttachmentURLCandidates_def Let_def
  by (intro list_all_add_new list_all_if carries_escaped) (simp_all only: list.pred_inject)

text \<open>
  The server reads the token of a user out of the address of a mail and out of those of an
  attachment unchanged, whatever characters it has: in the one it is a segment of the path
  of its own, in the others the last parameter of the query.
\<close>

theorem token_in_addresses:
  "(\<exists>seg. MailHTMLURL base token n = trim_right_char CHR ''/'' base @ ''/mail/'' @ seg @ ''/'' @ itoa n \<and>
      unescape False seg = token \<and> {CHR ''/'', CHR ''?'', CHR ''#''} \<inter> set seg = {}) \<and>
   list_all (carries base token) (AttachmentURLCandidates base a token created n)"
  by (intro conjI exI [of _ "PathEscape token"] escape_facts candidates_carry MailHTMLURL_def)

section \<open>Which downloads are tried\<close>

lemma distinct_add_new: "distinct xs \<Longrightarrow> distinct (add_new x xs)"
  by (simp add: add_new_def)

lemma length_add_new: "length (add_new x xs) \<le> Suc (length xs)"
  by (simp add: add_new_def)

lemma candidates_bound:
  "distinct (AttachmentURLCandidates base a token mailCreated mailID)"
  "length (AttachmentURLCandidates base a token mailCreated mailID) \<le> 4"
  unfolding AttachmentURLCandidates_def Let_def
  by (auto intro!: distinct_add_new) (auto simp: add_new_def)

lemma origins_bound: "length (attachmentHTTPOrigins c) \<le> 2"
  by (auto simp: attachmentHTTPOrigins_def add_new_def Let_def)

lemma length_concat_bound:
  "(\<And>x. x \<in> set xs \<Longrightarrow> length (f x) \<le> k) \<Longrightarrow> length (concat (map f xs)) \<le> k * length xs"
  by (induction xs) (auto simp: add_le_mono)

lemma urlAttempts_bound: "length (urlAttempts c a) \<le> 4"
proof -
  let ?urls = "filter (\<lambda>full. full \<noteq> []) (map (resolveMaybeRelativeURL (trim_space (URL a))) (attachmentHTTPOrigins c))"
  have "length ?urls \<le> length (attachmentHTTPOrigins c)" using length_filter_le by (metis length_map)
  then have "length ?urls \<le> 2" using origins_bound [of c] by linarith
  moreover have "length (concat (map both_ways ?urls)) \<le> 2 * length ?urls"
    by (rule length_concat_bound) (simp add: both_ways_def)
  ultimately have "length (concat (map both_ways ?urls)) \<le> 4" by linarith
  then show ?thesis by (simp add: urlAttempts_def Let_def del: length_concat)
qed

lemma candidateAttempts_bound: "length (candidateAttempts c a mailID mailCreated) \<le> 16"
proof -
  let ?urls = "concat (map (\<lambda>base. AttachmentURLCandidates base a (cli_token c) mailCreated mailID) (attachmentHTTPOrigins c))"
  have "length ?urls \<le> 4 * length (attachmentHTTPOrigins c)"
    by (rule length_concat_bound) (rule candidates_bound)
  then have "length ?urls \<le> 8" using origins_bound [of c] by linarith
  moreover have "length (concat (map both_ways ?urls)) \<le> 2 * length ?urls"
    by (rule length_concat_bound) (simp add: both_ways_def)
  ultimately show ?thesis by (simp only: candidateAttempts_def)
qed

text \<open>A transport that keeps the downloads: the address and the authorization sent along.\<close>

definition keepGets :: "'w transport \<Rightarrow> ((string \<times> string option) list \<times> 'w) transport" where
  "keepGets tr =
     \<lparr>tr_post = (\<lambda>u req w. case tr_post tr u req (snd w) of (r, v) \<Rightarrow> (r, (fst w, v))),
      tr_get = (\<lambda>u h w. case tr_get tr u h (snd w) of (r, v) \<Rightarrow> (r, (fst w @ [(u, h)], v))),
      tr_json = tr_json tr, tr_type_error = tr_type_error tr, tr_log_url = tr_log_url tr\<rparr>"

definition sent_get :: "client \<Rightarrow> string \<times> bool \<Rightarrow> string \<times> string option" where
  "sent_get c x = (case x of (u, bearer) \<Rightarrow>
     (u, if bearer \<and> cli_token c \<noteq> [] then Some (''Bearer '' @ cli_token c) else None))"

lemma downloadGET_trace:
  "downloadGET (keepGets tr) c url bearer w = (r, v) \<Longrightarrow> fst v = fst w @ [sent_get c (url, bearer)]"
  by (auto simp: downloadGET_def keepGets_def sent_get_def split: prod.splits sum.splits if_split_asm)

lemma tryGets_trace:
  assumes "tryGets (keepGets tr) c xs lastErr w = (r, v)"
  shows "\<exists>n \<le> length xs. fst v = fst w @ map (sent_get c) (take n xs) \<and>
    (case r of Inl _ \<Rightarrow> n = length xs | Inr b \<Rightarrow> b \<noteq> [])"
  using assms
proof (induction xs arbitrary: lastErr w)
  case (Cons x xs)
  obtain url bearer where x: "x = (url, bearer)" by (cases x)
  obtain r1 w1 where d: "downloadGET (keepGets tr) c url bearer w = (r1, w1)"
    by (cases "downloadGET (keepGets tr) c url bearer w")
  note log = downloadGET_trace [OF d]
  show ?case
  proof (cases "\<exists>b. r1 = Inr b \<and> 0 < length b")
    case True
    then show ?thesis using Cons.prems x d log by (intro exI [of _ 1]) auto
  next
    case False
    then obtain le where "tryGets (keepGets tr) c xs le w1 = (r, v)"
      using Cons.prems x d by (cases r1) auto
    then obtain n where "n \<le> length xs" "fst v = fst w1 @ map (sent_get c) (take n xs)"
      "case r of Inl _ \<Rightarrow> n = length xs | Inr b \<Rightarrow> b \<noteq> []" using Cons.IH by blast
    then show ?thesis using log x by (intro exI [of _ "Suc n"]) (auto split: sum.splits)
  qed
qed auto

text \<open>
  C17: Fetching an attachment costs at most 20 downloads: the addresses that the code derives,
  in their order, each first without and then with the token; it stops at the first body that
  is not empty, and never returns an empty one.  Content that came along costs none.
\<close>

theorem attachment_downloads:
  assumes "GetAttachmentBytes (keepGets tr) c a mailID mailCreated w = (r, v)"
  shows "\<exists>n \<le> 20. fst v = fst w @ map (sent_get c) (take n (urlAttempts c a @ candidateAttempts c a mailID mailCreated)) \<and>
    (\<forall>b. r = Inr b \<longrightarrow> b \<noteq> []) \<and>
    (\<forall>b. trim_space (Content a) \<noteq> [] \<and> b64_decode (Content a) = Some b \<and> b \<noteq> [] \<longrightarrow> n = 0 \<and> r = Inr b)"
proof (cases "trim_space (Content a) \<noteq> [] \<and> (\<exists>x b. DecodeAttachmentContent a = Some (x # b))")
  case True
  then show ?thesis using assms
    by (intro exI [of _ 0]) (auto simp: GetAttachmentBytes_def DecodeAttachmentContent_def split: if_split_asm)
next
  case False
  let ?us = "urlAttempts c a" and ?cs = "candidateAttempts c a mailID mailCreated"
  obtain r1 w1 where u: "tryGets (keepGets tr) c ?us None w = (r1, w1)" by (cases "tryGets (keepGets tr) c ?us None w")
  obtain r2 w2 where k: "tryGets (keepGets tr) c ?cs None w1 = (r2, w2)" by (cases "tryGets (keepGets tr) c ?cs None w1")
  obtain n1 where n1: "n1 \<le> length ?us" "fst w1 = fst w @ map (sent_get c) (take n1 ?us)"
    "case r1 of Inl _ \<Rightarrow> n1 = length ?us | Inr b \<Rightarrow> b \<noteq> []" using tryGets_trace [OF u] by blast
  obtain n2 where n2: "n2 \<le> length ?cs" "fst w2 = fst w1 @ map (sent_get c) (take n2 ?cs)"
    "case r2 of Inl _ \<Rightarrow> n2 = length ?cs | Inr b \<Rightarrow> b \<noteq> []" using tryGets_trace [OF k] by blast
  have rest: "GetAttachmentBytes (keepGets tr) c a mailID mailCreated w =
      (case r1 of Inr b \<Rightarrow> (Inr b, w1)
       | Inl _ \<Rightarrow> (case r2 of Inr b \<Rightarrow> (Inr b, w2) | Inl (Some e) \<Rightarrow> (Inl e, w2)
           | Inl None \<Rightarrow> (Inl (ErrText (''empty attachment body for id='' @ itoa (att_ID a))), w2)))"
    using False u k by (auto simp: GetAttachmentBytes_def split: option.split list.split sum.split)
  have none: "\<not> (trim_space (Content a) \<noteq> [] \<and> b64_decode (Content a) = Some b \<and> b \<noteq> [])" for b
    using False by (cases b; cases "Content a") (auto simp: DecodeAttachmentContent_def)
  have len: "length ?us \<le> 4" "length ?cs \<le> 16" by (rule urlAttempts_bound, rule candidateAttempts_bound)
  show ?thesis
  proof (cases r1)
    case (Inr b)
    then show ?thesis using assms rest n1 len none by (intro exI [of _ n1]) auto
  next
    case (Inl e)
    then have "fst w2 = fst w @ map (sent_get c) (take (length ?us + n2) (?us @ ?cs))" using n1 n2(2) by simp
    moreover have "v = w2 \<and> (\<forall>b. r = Inr b \<longrightarrow> b \<noteq> [])"
      using assms rest Inl n2(3) by (auto split: sum.splits option.splits)
    ultimately show ?thesis using n2(1) len none by (intro exI [of _ "length ?us + n2"]) auto
  qed
qed

lemma attachment_downloads_witness:
  "\<exists>n \<le> 20. length (fst (snd (GetAttachmentBytes
     (keepGets \<lparr>tr_post = (\<lambda>_ _ w. (Inl (ErrText []), w)), tr_get = (\<lambda>_ _ w. (Inr (404, []), w)),
        tr_json = (\<lambda>_. Inl []), tr_type_error = (\<lambda>_. []), tr_log_url = (\<lambda>u. u)\<rparr>)
     ((NewClient ''b'' ''ru'')\<lparr>cli_token := ''tok''\<rparr>)
     \<lparr>att_ID = 7, FileName = ''a.png'', FileSize = 1, Extension = [], att_CreatedAt = [], Content = [], URL = []\<rparr>
     3 [] ([], ())))) = n"
  using attachment_downloads [OF prod.collapse [symmetric]] by (metis (no_types, lifting) append_Nil fst_conv
    length_map length_take min.coboundedI2)

end
