(* ===== verification/Mail_View.thy ===== *)
theory Mail_View
  imports Http_Client
begin

text \<open>
  Reading one mail, \<open>internal/remote/parse.go\<close>: the detail of a mail out of the answer to
  \<open>view\<close>, which may be under \<open>data\<close>, under \<open>data.mail\<close> or at the root.
\<close>

record mail_detail =
  d_ID :: int
  d_Subject :: string
  d_FromName :: string
  d_FromEmail :: string
  d_To :: string
  d_CreatedAt :: string
  d_Message :: string
  Attachments :: "attachment list"
  Attaches :: "attachment list"

definition emptyAttachment :: attachment where
  "emptyAttachment = \<lparr>att_ID = 0, FileName = [], FileSize = 0, Extension = [], att_CreatedAt = [],
     Content = [], URL = []\<rparr>"

definition emptyDetail :: mail_detail where
  "emptyDetail = \<lparr>d_ID = 0, d_Subject = [], d_FromName = [], d_FromEmail = [], d_To = [], d_CreatedAt = [],
     d_Message = [], Attachments = [], Attaches = []\<rparr>"

section \<open>Decoding\<close>

definition set_attachment :: "string \<Rightarrow> json \<Rightarrow> attachment \<Rightarrow> bool \<times> attachment" where
  "set_attachment k v a =
     (if equal_fold k ''id'' then (case dec_int v (att_ID a) of (ok, x) \<Rightarrow> (ok, a\<lparr>att_ID := x\<rparr>))
      else if equal_fold k ''file_name'' then (case dec_string v (FileName a) of (ok, x) \<Rightarrow> (ok, a\<lparr>FileName := x\<rparr>))
      else if equal_fold k ''file_size'' then (case dec_int v (FileSize a) of (ok, x) \<Rightarrow> (ok, a\<lparr>FileSize := x\<rparr>))
      else if equal_fold k ''extension'' then (case dec_string v (Extension a) of (ok, x) \<Rightarrow> (ok, a\<lparr>Extension := x\<rparr>))
      else if equal_fold k ''created_at''
        then (case dec_string v (att_CreatedAt a) of (ok, x) \<Rightarrow> (ok, a\<lparr>att_CreatedAt := x\<rparr>))
      else if equal_fold k ''content'' then (case dec_string v (Content a) of (ok, x) \<Rightarrow> (ok, a\<lparr>Content := x\<rparr>))
      else if equal_fold k ''url'' then (case dec_string v (URL a) of (ok, x) \<Rightarrow> (ok, a\<lparr>URL := x\<rparr>))
      else (True, a))"

definition dec_attachments :: "json \<Rightarrow> attachment list \<Rightarrow> bool \<times> attachment list" where
  "dec_attachments v cur = dec_list (\<lambda>x. dec_struct set_attachment x emptyAttachment) v cur"

definition set_detail :: "string \<Rightarrow> json \<Rightarrow> mail_detail \<Rightarrow> bool \<times> mail_detail" where
  "set_detail k v d =
     (if equal_fold k ''id'' then (case dec_int v (d_ID d) of (ok, x) \<Rightarrow> (ok, d\<lparr>d_ID := x\<rparr>))
      else if equal_fold k ''subject'' then (case dec_string v (d_Subject d) of (ok, x) \<Rightarrow> (ok, d\<lparr>d_Subject := x\<rparr>))
      else if equal_fold k ''from_name'' then (case dec_string v (d_FromName d) of (ok, x) \<Rightarrow> (ok, d\<lparr>d_FromName := x\<rparr>))
      else if equal_fold k ''from_email'' then (case dec_string v (d_FromEmail d) of (ok, x) \<Rightarrow> (ok, d\<lparr>d_FromEmail := x\<rparr>))
      else if equal_fold k ''to'' then (case dec_string v (d_To d) of (ok, x) \<Rightarrow> (ok, d\<lparr>d_To := x\<rparr>))
      else if equal_fold k ''created_at'' then (case dec_string v (d_CreatedAt d) of (ok, x) \<Rightarrow> (ok, d\<lparr>d_CreatedAt := x\<rparr>))
      else if equal_fold k ''message'' then (case dec_string v (d_Message d) of (ok, x) \<Rightarrow> (ok, d\<lparr>d_Message := x\<rparr>))
      else if equal_fold k ''attachments''
        then (case dec_attachments v (Attachments d) of (ok, x) \<Rightarrow> (ok, d\<lparr>Attachments := x\<rparr>))
      else if equal_fold k ''attaches'' then (case dec_attachments v (Attaches d) of (ok, x) \<Rightarrow> (ok, d\<lparr>Attaches := x\<rparr>))
      else (True, d))"

definition dec_detail :: "json \<Rightarrow> bool \<times> mail_detail" where
  "dec_detail j = dec_struct set_detail j emptyDetail"

text \<open>The members \<open>mail\<close>, \<open>attachments\<close> and \<open>attaches\<close> of \<open>data\<close>.\<close>

definition wrap_member ::
    "string \<Rightarrow> json \<Rightarrow> mail_detail \<times> attachment list \<times> attachment list
     \<Rightarrow> bool \<times> (mail_detail \<times> attachment list \<times> attachment list)" where
  "wrap_member k v w =
     (case w of (m, a1, a2) \<Rightarrow>
        if equal_fold k ''mail'' then (case dec_struct set_detail v m of (ok, x) \<Rightarrow> (ok, (x, a1, a2)))
        else if equal_fold k ''attachments'' then (case dec_attachments v a1 of (ok, x) \<Rightarrow> (ok, (m, x, a2)))
        else if equal_fold k ''attaches'' then (case dec_attachments v a2 of (ok, x) \<Rightarrow> (ok, (m, a1, x)))
        else (True, w))"

definition int_status_member :: "string \<Rightarrow> json \<Rightarrow> int \<Rightarrow> bool \<times> int" where
  "int_status_member k v n = (if equal_fold k ''status'' then dec_int v n else (True, n))"

section \<open>The two parsers\<close>

definition ParseMailDetail :: "'w transport \<Rightarrow> response \<Rightarrow> mail_detail result" where
  "ParseMailDetail tr resp =
     (if Status resp \<noteq> 1 then Inl (ErrText (''view failed: '' @ Message resp))
      else case RespData resp of
        None \<Rightarrow> Inl (ErrText ''empty view data'')
      | Some j \<Rightarrow> (case dec_detail j of (ok, d) \<Rightarrow> if ok then Inr d else Inl (ErrText (tr_type_error tr j))))"

text \<open>What \<open>data\<close> gives, if anything.\<close>

definition detail_from_data :: "json \<Rightarrow> mail_detail option" where
  "detail_from_data data =
     (case dec_struct wrap_member data (emptyDetail, [], []) of
        (ok, (m, a1, a2)) \<Rightarrow>
          if ok \<and> d_ID m \<noteq> 0 then Some (if Attachments m = [] then m\<lparr>Attachments := a1 @ a2\<rparr> else m)
          else (case dec_detail data of
            (ok2, inner) \<Rightarrow>
              if ok2 \<and> (d_ID inner \<noteq> 0 \<or> d_Message inner \<noteq> [] \<or> d_Subject inner \<noteq> [] \<or> d_FromEmail inner \<noteq> [])
              then Some inner else None))"

definition ParseMailDetailFromViewBody :: "'w transport \<Rightarrow> string \<Rightarrow> mail_detail result" where
  "ParseMailDetailFromViewBody tr b0 =
     (let b = trim_space b0 in
      if b = [] then Inl (ErrText ''empty view body'')
      else case tr_json tr b of
        Inl e \<Rightarrow> Inl (ErrText e)
      | Inr j \<Rightarrow>
          (case dec_struct int_status_member j 0 of
             (ok, st) \<Rightarrow>
               if \<not> ok then Inl (ErrText (tr_type_error tr j))
               else if st \<noteq> 1 then Inl (ErrText (''view failed: '' @ snd (dec_struct message_member j [])))
               else (case (case (case j of JObj kvs \<Rightarrow> last_member ''data'' kvs | _ \<Rightarrow> None) of
                           None \<Rightarrow> None
                         | Some data \<Rightarrow> if data = JNull then None else detail_from_data data) of
                  Some d \<Rightarrow> Inr d
                | None \<Rightarrow>
                    (case dec_detail j of
                       (ok2, root) \<Rightarrow>
                         if \<not> ok2 then Inl (ErrText (tr_type_error tr j))
                         else if d_ID root \<noteq> 0 then Inr root
                         else Inl (ErrText ''could not parse mail/view payload'')))))"

section \<open>Where the mail may be\<close>

definition view_keys :: "string list" where
  "view_keys = [''id'', ''subject'', ''from_name'', ''from_email'', ''to'', ''created_at'', ''message'',
     ''attachments'', ''attaches'', ''file_name'', ''file_size'', ''extension'', ''content'', ''url'', ''status'',
     ''data'', ''mail'']"

lemma equal_fold_keys_all: "list_all (\<lambda>k. list_all (\<lambda>l. equal_fold k l = (k = l)) view_keys) view_keys"
  by code_simp

lemma equal_fold_keys [simp]: "k \<in> set view_keys \<Longrightarrow> l \<in> set view_keys \<Longrightarrow> equal_fold k l \<longleftrightarrow> k = l"
  using equal_fold_keys_all by (simp only: list_all_iff)

lemma view_keys_members [simp]:
  "''id'' \<in> set view_keys" "''subject'' \<in> set view_keys" "''from_name'' \<in> set view_keys"
  "''from_email'' \<in> set view_keys" "''to'' \<in> set view_keys" "''created_at'' \<in> set view_keys"
  "''message'' \<in> set view_keys" "''attachments'' \<in> set view_keys" "''attaches'' \<in> set view_keys"
  "''file_name'' \<in> set view_keys" "''file_size'' \<in> set view_keys" "''extension'' \<in> set view_keys"
  "''content'' \<in> set view_keys" "''url'' \<in> set view_keys" "''status'' \<in> set view_keys"
  "''data'' \<in> set view_keys" "''mail'' \<in> set view_keys"
  by (simp_all add: view_keys_def)

text \<open>The members that the parsers look at; any other member of an object is passed over.\<close>

definition known_key :: "string \<Rightarrow> bool" where
  "known_key k \<longleftrightarrow> list_ex (equal_fold k) view_keys"

definition known :: "(string \<times> json) list \<Rightarrow> (string \<times> json) list" where
  "known kvs = filter (\<lambda>kv. known_key (fst kv)) kvs"

lemma unknown_key: "\<not> known_key k \<Longrightarrow> l \<in> set view_keys \<Longrightarrow> \<not> equal_fold k l"
  by (auto simp: known_key_def list_ex_iff)

lemma dec_members_known:
  assumes "\<And>k v r. \<not> known_key k \<Longrightarrow> f k v r = (True, r)"
  shows "dec_members f kvs (ok, r) = dec_members f (known kvs) (ok, r)"
  by (induction kvs arbitrary: ok r) (auto simp: known_def assms split: prod.split)

lemma dec_struct_known:
  "dec_struct set_attachment (JObj kvs) a = dec_struct set_attachment (JObj (known kvs)) a"
  "dec_struct set_detail (JObj kvs) d = dec_struct set_detail (JObj (known kvs)) d"
  "dec_struct wrap_member (JObj kvs) w = dec_struct wrap_member (JObj (known kvs)) w"
  "dec_struct int_status_member (JObj kvs) n = dec_struct int_status_member (JObj (known kvs)) n"
  unfolding dec_struct.simps
  by (rule dec_members_known;
      simp add: set_attachment_def set_detail_def wrap_member_def int_status_member_def unknown_key split: prod.split)+

lemma last_member_known: "l \<in> set view_keys \<Longrightarrow> last_member l kvs = last_member l (known kvs)"
proof -
  assume l: "l \<in> set view_keys"
  have "find (\<lambda>kv. equal_fold (fst kv) l) xs = find (\<lambda>kv. equal_fold (fst kv) l) (known xs)" for xs :: "(string \<times> json) list"
    by (induction xs) (use l unknown_key in \<open>auto simp: known_def\<close>)
  from this [of "rev kvs"] show ?thesis by (simp add: last_member_def known_def rev_filter)
qed

text \<open>
  A mail as the service may write it: its members, with any members unknown to the bridge before,
  between and after them, and the same for each attachment.
\<close>

definition writes_attachment :: "attachment \<Rightarrow> json \<Rightarrow> bool" where
  "writes_attachment a j \<longleftrightarrow>
     (\<exists>kvs. j = JObj kvs \<and> known kvs =
       [(''id'', JNum (att_ID a)), (''file_name'', JStr (FileName a)), (''file_size'', JNum (FileSize a)),
        (''extension'', JStr (Extension a)), (''created_at'', JStr (att_CreatedAt a)), (''content'', JStr (Content a)),
        (''url'', JStr (URL a))])"

definition writes_files :: "attachment list \<Rightarrow> json \<Rightarrow> bool" where
  "writes_files as j \<longleftrightarrow> (\<exists>js. j = JArr js \<and> list_all2 writes_attachment as js)"

definition writes_detail :: "mail_detail \<Rightarrow> (string \<times> json) list \<Rightarrow> bool" where
  "writes_detail d kvs \<longleftrightarrow>
     (\<exists>f1 f2. writes_files (Attachments d) f1 \<and> writes_files (Attaches d) f2 \<and> known kvs =
       [(''id'', JNum (d_ID d)), (''subject'', JStr (d_Subject d)), (''from_name'', JStr (d_FromName d)),
        (''from_email'', JStr (d_FromEmail d)), (''to'', JStr (d_To d)), (''created_at'', JStr (d_CreatedAt d)),
        (''message'', JStr (d_Message d)), (''attachments'', f1), (''attaches'', f2)])"

text \<open>The three places: as the object \<open>data\<close>, as \<open>data.mail\<close> with lists of files beside it or not, or at the root.\<close>

definition status_beside :: "(string \<times> json) list \<Rightarrow> (string \<times> json) list \<Rightarrow> bool" where
  "status_beside ms kvs \<longleftrightarrow> known ms = (''status'', JNum 1) # kvs \<or> known ms = kvs @ [(''status'', JNum 1)]"

definition under_data :: "mail_detail \<Rightarrow> (string \<times> json) list \<Rightarrow> bool" where
  "under_data d ms \<longleftrightarrow> (\<exists>data. status_beside ms [(''data'', JObj data)] \<and> writes_detail d data)"

definition under_mail :: "mail_detail \<Rightarrow> attachment list \<Rightarrow> attachment list \<Rightarrow> (string \<times> json) list \<Rightarrow> bool" where
  "under_mail d a1 a2 ms \<longleftrightarrow>
     (\<exists>data mail f1 f2. status_beside ms [(''data'', JObj data)] \<and> writes_detail d mail \<and>
        writes_files a1 f1 \<and> writes_files a2 f2 \<and>
        (known data = [(''mail'', JObj mail), (''attachments'', f1), (''attaches'', f2)] \<or>
         known data = [(''attachments'', f1), (''attaches'', f2), (''mail'', JObj mail)] \<or>
         a1 = [] \<and> a2 = [] \<and> known data = [(''mail'', JObj mail)]))"

definition at_root :: "mail_detail \<Rightarrow> (string \<times> json) list \<Rightarrow> bool" where
  "at_root d ms \<longleftrightarrow> (\<exists>kvs. status_beside ms (known kvs) \<and> writes_detail d kvs)"

definition int_ok :: "int \<Rightarrow> bool" where
  "int_ok n \<longleftrightarrow> - max_int - 1 \<le> n \<and> n \<le> max_int"

definition files_ok :: "attachment list \<Rightarrow> bool" where
  "files_ok as \<longleftrightarrow> (\<forall>a \<in> set as. int_ok (att_ID a) \<and> int_ok (FileSize a))"

definition detail_ok :: "mail_detail \<Rightarrow> bool" where
  "detail_ok d \<longleftrightarrow> int_ok (d_ID d) \<and> d_ID d \<noteq> 0 \<and> files_ok (Attachments d) \<and> files_ok (Attaches d)"

lemma dec_written_attachment:
  assumes "writes_attachment a j" "int_ok (att_ID a)" "int_ok (FileSize a)"
  shows "dec_struct set_attachment j emptyAttachment = (True, a)"
proof -
  obtain kvs where "j = JObj kvs" and k: "known kvs =
       [(''id'', JNum (att_ID a)), (''file_name'', JStr (FileName a)), (''file_size'', JNum (FileSize a)),
        (''extension'', JStr (Extension a)), (''created_at'', JStr (att_CreatedAt a)), (''content'', JStr (Content a)),
        (''url'', JStr (URL a))]"
    using assms(1) by (auto simp: writes_attachment_def)
  then show ?thesis using assms(2,3) dec_struct_known(1) [of kvs]
    by (simp add: set_attachment_def emptyAttachment_def int_ok_def)
qed

lemma dec_written_files:
  assumes "writes_files as j" "files_ok as"
  shows "dec_attachments j cur = (True, as)"
proof -
  obtain js where j: "j = JArr js" and w: "list_all2 writes_attachment as js"
    using assms(1) by (auto simp: writes_files_def)
  from w assms(2) have "list_all (\<lambda>v. fst (dec_struct set_attachment v emptyAttachment)) js \<and>
      map (\<lambda>v. snd (dec_struct set_attachment v emptyAttachment)) js = as"
    by (induction rule: list_all2_induct) (auto simp: files_ok_def dec_written_attachment)
  then show ?thesis by (simp add: dec_attachments_def j)
qed

lemma dec_known_detail:
  assumes "writes_detail d kvs" "detail_ok d"
  shows "dec_members set_detail (known kvs) (True, emptyDetail) = (True, d)"
  using assms dec_written_files
  by (auto simp: writes_detail_def detail_ok_def set_detail_def emptyDetail_def int_ok_def)

lemma dec_written_detail:
  "writes_detail d kvs \<Longrightarrow> detail_ok d \<Longrightarrow> dec_struct set_detail (JObj kvs) emptyDetail = (True, d)"
  unfolding dec_struct_known(2) [of kvs] by (simp add: dec_known_detail)

lemma wrap_direct:
  assumes "writes_detail d kvs" "detail_ok d"
  shows "dec_struct wrap_member (JObj kvs) (emptyDetail, [], []) = (True, (emptyDetail, Attachments d, Attaches d))"
  using assms dec_written_files unfolding dec_struct_known(3) [of kvs]
  by (auto simp: writes_detail_def wrap_member_def detail_ok_def)

lemma detail_from_data_direct:
  assumes "writes_detail d kvs" "detail_ok d"
  shows "detail_from_data (JObj kvs) = Some d"
  using assms
  by (simp add: detail_from_data_def wrap_direct dec_detail_def dec_written_detail del: dec_struct.simps)
    (simp add: emptyDetail_def detail_ok_def)

lemma wrap_mail:
  assumes "writes_detail d mail" "detail_ok d" "writes_files a1 f1" "files_ok a1" "writes_files a2 f2" "files_ok a2"
    and "known data = [(''mail'', JObj mail), (''attachments'', f1), (''attaches'', f2)] \<or>
      known data = [(''attachments'', f1), (''attaches'', f2), (''mail'', JObj mail)] \<or>
      a1 = [] \<and> a2 = [] \<and> known data = [(''mail'', JObj mail)]"
  shows "dec_struct wrap_member (JObj data) (emptyDetail, [], []) = (True, (d, a1, a2))"
  using assms(7) dec_written_detail [OF assms(1,2)] dec_written_files [OF assms(3,4)] dec_written_files [OF assms(5,6)]
  unfolding dec_struct_known(3) [of data] by (auto simp: wrap_member_def)

lemma view_parsed:
  assumes "tr_json tr (trim_space raw) = Inr (JObj ms)" "trim_space raw \<noteq> []" "status_beside ms kvs"
    and "\<And>n. dec_members int_status_member kvs (True, n) = (True, n)"
  shows "ParseMailDetailFromViewBody tr raw =
    (case (case last_member ''data'' ms of None \<Rightarrow> None
           | Some data \<Rightarrow> if data = JNull then None else detail_from_data data) of
       Some d \<Rightarrow> Inr d
     | None \<Rightarrow>
         (case dec_detail (JObj ms) of
            (ok2, root) \<Rightarrow>
              if \<not> ok2 then Inl (ErrText (tr_type_error tr (JObj ms)))
              else if d_ID root \<noteq> 0 then Inr root
              else Inl (ErrText ''could not parse mail/view payload'')))"
proof -
  have app: "dec_members int_status_member (kvs @ xs) (True, 0) = dec_members int_status_member xs (True, 0)" for xs
  proof -
    have "dec_members f (xs @ ys) st = dec_members f ys (dec_members f xs st)"
      for f :: "string \<Rightarrow> json \<Rightarrow> int \<Rightarrow> bool \<times> int" and xs ys st
      by (induction f xs st rule: dec_members.induct) (auto split: prod.split)
    then show ?thesis by (simp add: assms(4))
  qed
  have "dec_struct int_status_member (JObj ms) 0 = (True, 1)"
    using assms(3,4) app unfolding dec_struct_known(4) [of ms]
    by (auto simp: status_beside_def int_status_member_def max_int_def)
  then show ?thesis using assms(1,2) by (simp add: ParseMailDetailFromViewBody_def Let_def del: dec_struct.simps)
qed

lemma beside_data:
  "status_beside ms [(''data'', j)] \<Longrightarrow> last_member ''data'' ms = Some j"
  unfolding last_member_known [OF view_keys_members(16), of ms]
  by (auto simp: status_beside_def last_member_def)

lemma root_data:
  assumes "status_beside ms (known kvs)" "writes_detail d kvs"
  shows "last_member ''data'' ms = None"
  unfolding last_member_known [OF view_keys_members(16), of ms]
  using assms by (auto simp: status_beside_def writes_detail_def last_member_def)

lemma root_detail:
  assumes "status_beside ms (known kvs)" "writes_detail d kvs" "detail_ok d"
  shows "dec_detail (JObj ms) = (True, d)"
proof -
  have app: "dec_members f (xs @ ys) st = dec_members f ys (dec_members f xs st)"
    for f :: "string \<Rightarrow> json \<Rightarrow> mail_detail \<Rightarrow> bool \<times> mail_detail" and xs ys st
    by (induction f xs st rule: dec_members.induct) (auto split: prod.split)
  have "set_detail ''status'' v e = (True, e)" for v e by (simp add: set_detail_def)
  then show ?thesis
    using assms(1) dec_known_detail [OF assms(2,3)] unfolding dec_detail_def dec_struct_known(2) [of ms]
    by (auto simp: status_beside_def app)
qed

lemma known_status_free: "writes_detail d kvs \<Longrightarrow> dec_members int_status_member (known kvs) (True, n) = (True, n)"
  by (auto simp: writes_detail_def int_status_member_def)

text \<open>
  C16: A mail is read back as it was written wherever the service puts it beside a status that is
  the number 1: as the object \<open>data\<close>; as \<open>data.mail\<close>, where the lists of files that stand beside
  the mail are taken, one after the other, if the mail has none of its own; or at the root.  The
  members of the mail and of each attachment are in their usual order, and any members unknown to
  the bridge may stand anywhere; all numbers fit into 64 bits, and the number of the mail is not 0.
\<close>

theorem view_roundtrip:
  assumes "tr_json tr (trim_space raw) = Inr (JObj ms)" "trim_space raw \<noteq> []"
    and "detail_ok d" "files_ok a1" "files_ok a2"
  shows "(under_data d ms \<or> at_root d ms \<longrightarrow> ParseMailDetailFromViewBody tr raw = Inr d) \<and>
    (under_mail d a1 a2 ms \<longrightarrow>
       ParseMailDetailFromViewBody tr raw = Inr (if Attachments d = [] then d\<lparr>Attachments := a1 @ a2\<rparr> else d))"
proof (intro conjI impI, elim disjE)
  have data_status: "dec_members int_status_member [(''data'', j)] (True, n) = (True, n)" for j n
    by (simp add: int_status_member_def)
  show "ParseMailDetailFromViewBody tr raw = Inr d" if "under_data d ms"
  proof -
    obtain data where data: "status_beside ms [(''data'', JObj data)]" "writes_detail d data"
      using \<open>under_data d ms\<close> by (auto simp: under_data_def)
    show ?thesis
      using view_parsed [OF assms(1,2) data(1) data_status] beside_data [OF data(1)]
        detail_from_data_direct [OF data(2) assms(3)] by simp
  qed
  show "ParseMailDetailFromViewBody tr raw = Inr d" if "at_root d ms"
  proof -
    obtain kvs where kvs: "status_beside ms (known kvs)" "writes_detail d kvs"
      using \<open>at_root d ms\<close> by (auto simp: at_root_def)
    show ?thesis
      using view_parsed [OF assms(1,2) kvs(1) known_status_free [OF kvs(2)]] root_data [OF kvs]
        root_detail [OF kvs assms(3)] assms(3) by (simp add: detail_ok_def)
  qed
  show "ParseMailDetailFromViewBody tr raw = Inr (if Attachments d = [] then d\<lparr>Attachments := a1 @ a2\<rparr> else d)"
    if "under_mail d a1 a2 ms"
  proof -
    obtain data mail f1 f2 where w: "status_beside ms [(''data'', JObj data)]" "writes_detail d mail"
        "writes_files a1 f1" "writes_files a2 f2"
      and k: "known data = [(''mail'', JObj mail), (''attachments'', f1), (''attaches'', f2)] \<or>
         known data = [(''attachments'', f1), (''attaches'', f2), (''mail'', JObj mail)] \<or>
         a1 = [] \<and> a2 = [] \<and> known data = [(''mail'', JObj mail)]"
      using \<open>under_mail d a1 a2 ms\<close> unfolding under_mail_def by blast
    have "detail_from_data (JObj data) = Some (if Attachments d = [] then d\<lparr>Attachments := a1 @ a2\<rparr> else d)"
      using wrap_mail [OF w(2) assms(3) w(3) assms(4) w(4) assms(5) k] assms(3)
      by (simp add: detail_from_data_def detail_ok_def del: dec_struct.simps)
    then show ?thesis
      using view_parsed [OF assms(1,2) w(1) data_status] beside_data [OF w(1)] by simp
  qed
qed

definition demo_detail :: mail_detail where
  "demo_detail = emptyDetail\<lparr>d_ID := 17, d_Subject := ''Hello'', d_Message := ''<p>Hi</p>'',
     Attachments := [emptyAttachment\<lparr>att_ID := 3, FileName := ''a.png''\<rparr>]\<rparr>"

text \<open>A transport that always gives one JSON text, and no download.\<close>

definition constTransport :: "json \<Rightarrow> unit transport" where
  "constTransport j = \<lparr>tr_post = (\<lambda>_ _ w. (Inr (200, ''json''), w)), tr_get = (\<lambda>_ _ w. (Inr (404, []), w)),
     tr_json = (\<lambda>_. Inr j), tr_type_error = (\<lambda>_. []), tr_log_url = (\<lambda>u. u)\<rparr>"

lemma demo_detail_ok: "detail_ok demo_detail"
  by (simp add: detail_ok_def files_ok_def demo_detail_def emptyDetail_def emptyAttachment_def int_ok_def max_int_def)

text \<open>A mail without files of its own, with one file beside it and a member that the bridge does not know.\<close>

definition json_file :: json where
  "json_file = JObj [(''id'', JNum 3), (''file_name'', JStr ''a.png''), (''file_size'', JNum 9), (''extension'', JStr []),
     (''created_at'', JStr []), (''content'', JStr []), (''url'', JStr [])]"

definition bare_mail :: mail_detail where
  "bare_mail = emptyDetail\<lparr>d_ID := 17, d_Subject := ''Hello''\<rparr>"

definition json_bare :: "(string \<times> json) list" where
  "json_bare = [(''id'', JNum 17), (''subject'', JStr ''Hello''), (''from_name'', JStr []), (''from_email'', JStr []),
     (''to'', JStr []), (''created_at'', JStr []), (''message'', JStr []), (''attachments'', JArr []), (''attaches'', JArr [])]"

definition json_view :: "(string \<times> json) list" where
  "json_view = [(''status'', JNum 1), (''took'', JNum 5),
     (''data'', JObj [(''mail'', JObj json_bare), (''attachments'', JArr [json_file]), (''attaches'', JArr [])])]"

definition one_file :: attachment where
  "one_file = emptyAttachment\<lparr>att_ID := 3, FileName := ''a.png'', FileSize := 9\<rparr>"

lemma known_keys_code: "list_all known_key view_keys" "\<not> known_key ''took''"
  by code_simp+

lemma known_member [simp]: "k \<in> set view_keys \<Longrightarrow> known_key k"
  using known_keys_code(1) by (simp only: list_all_iff)

lemma json_view_shape: "under_mail bare_mail [one_file] [] json_view"
proof -
  have "writes_attachment one_file json_file"
    by (simp add: writes_attachment_def json_file_def one_file_def emptyAttachment_def known_def)
  then have files: "writes_files [one_file] (JArr [json_file])" "writes_files [] (JArr [])"
    by (simp_all add: writes_files_def)
  have "writes_detail bare_mail json_bare"
    unfolding writes_detail_def
    by (rule exI [of _ "JArr []"], rule exI [of _ "JArr []"])
      (simp add: json_bare_def bare_mail_def emptyDetail_def known_def writes_files_def)
  moreover have "status_beside json_view
      [(''data'', JObj [(''mail'', JObj json_bare), (''attachments'', JArr [json_file]), (''attaches'', JArr [])])]"
    by (simp add: status_beside_def json_view_def known_def known_keys_code(2))
  moreover have "known [(''mail'', JObj json_bare), (''attachments'', JArr [json_file]), (''attaches'', JArr [])] =
      [(''mail'', JObj json_bare), (''attachments'', JArr [json_file]), (''attaches'', JArr [])]"
    by (simp add: known_def)
  ultimately show ?thesis using files unfolding under_mail_def by blast
qed

lemma view_roundtrip_witness:
  "ParseMailDetailFromViewBody (constTransport (JObj json_view)) ''json'' = Inr (bare_mail\<lparr>Attachments := [one_file]\<rparr>)"
proof -
  have trim: "trim_space ''json'' = ''json''" by (simp add: trim_space_all_visible visible_def)
  have "detail_ok bare_mail" "files_ok [one_file]" "files_ok []" "Attachments bare_mail = []"
    by (simp_all add: detail_ok_def files_ok_def bare_mail_def emptyDetail_def one_file_def emptyAttachment_def
        int_ok_def max_int_def)
  then show ?thesis
    using view_roundtrip [of "constTransport (JObj json_view)" "''json''" json_view bare_mail "[one_file]" "[]"]
      json_view_shape by (simp add: trim constTransport_def)
qed

text \<open>
  A status written as a string, which the type \<open>APIStatus\<close> accepts everywhere else, makes the
  view of a mail an error.
\<close>

lemma view_status_string:
  assumes "trim_space raw = raw" "raw \<noteq> []" "tr_json tr raw = Inr (JObj ((''status'', JStr ''1'') # rest))"
  shows "\<exists>e. ParseMailDetailFromViewBody tr raw = Inl e"
proof -
  have "\<not> fst (dec_members f kvs (False, r))" for f :: "string \<Rightarrow> json \<Rightarrow> int \<Rightarrow> bool \<times> int" and kvs r
    by (induction kvs arbitrary: r) (auto simp: split_beta)
  then have "\<not> fst (dec_struct int_status_member (JObj ((''status'', JStr ''1'') # rest)) 0)"
    by (simp add: int_status_member_def [of "''status''"])
  then show ?thesis using assms by (auto simp: ParseMailDetailFromViewBody_def Let_def split: prod.split)
qed

end
