(* ===== verification/Rfc822.thy ===== *)
theory Rfc822
  imports Mail_View
begin

text \<open>
  \<open>internal/imapbackend/rfc822.go\<close>: building the message that an IMAP client sees from the
  detail of a mail, its HTML and its attachments.

  What the standard library contributes is the record \<open>mime_env\<close>: the text of an address
  (\<open>mail.Address\<close>) and of a date, the media type of a file extension, the random boundary of
  a multipart body, and the parser of times.
\<close>

section \<open>Environment\<close>

datatype go_time = GoTime (seconds: int) (zone: int)

record mime_env =
  me_address :: "string \<Rightarrow> string \<Rightarrow> string"
  me_date :: "go_time \<Rightarrow> string"
  me_type :: "string \<Rightarrow> string"
  me_boundary :: string
  me_parse :: "string \<Rightarrow> string \<Rightarrow> go_time option"

record attachment_part =
  fileName :: string
  contentType :: string
  part_data :: string

section \<open>Headers\<close>

definition remoteBridgeMessageID :: "int \<Rightarrow> string" where
  "remoteBridgeMessageID mailID = ''xyecoc-mail-'' @ itoa mailID @ ''@mailbridge''"

definition sanitizeHeader :: "string \<Rightarrow> string" where
  "sanitizeHeader s = trim_space (replace_char (CHR 0x0A) '' '' (replace_char (CHR 0x0D) '' '' s))"

definition isASCII :: "string \<Rightarrow> bool" where
  "isASCII s \<longleftrightarrow> list_all (\<lambda>c. byte c < 128) s"

definition encodeSubject :: "string \<Rightarrow> string" where
  "encodeSubject s = (if isASCII s then s else ''=?UTF-8?B?'' @ b64_encode s @ ''?='')"

definition formatAddr :: "mime_env \<Rightarrow> string \<Rightarrow> string \<Rightarrow> string" where
  "formatAddr M name email0 =
     (let email = trim_space email0 in
      if email = [] then ''unknown@invalid'' else if name = [] then email else me_address M name email)"

definition mimeContentDispositionAttachment :: "string \<Rightarrow> string" where
  "mimeContentDispositionAttachment fileName0 =
     (let f = trim_space fileName0; g = (if f = [] then ''attachment'' else f);
          esc = replace_char (CHR 0x22) [CHR 0x5C, CHR 0x22] (replace_char (CHR 0x5C) [CHR 0x5C, CHR 0x5C] g)
      in ''attachment; filename='' @ [CHR 0x22] @ esc @ [CHR 0x22])"

definition htmlPayload :: "mail_detail \<Rightarrow> string \<Rightarrow> string" where
  "htmlPayload d htmlBody =
     (if 0 < length htmlBody then htmlBody
      else if d_Message d \<noteq> [] then d_Message d
      else ''<html><body></body></html>'')"

text \<open>
  The header fields: those that the two builders have in common, with the fields for the
  content between them.
\<close>

definition messageHeader :: "mime_env \<Rightarrow> mail_detail \<Rightarrow> go_time \<Rightarrow> string \<Rightarrow> string" where
  "messageHeader M d date contentFields =
     (let dest = (if d_To d = [] then ''undisclosed@local'' else d_To d);
          subj = (if d_Subject d = [] then ''(no subject)'' else d_Subject d) in
      ''From: '' @ sanitizeHeader (formatAddr M (d_FromName d) (d_FromEmail d)) @ crlf @
      ''To: '' @ sanitizeHeader dest @ crlf @
      ''Subject: '' @ encodeSubject subj @ crlf @
      ''Date: '' @ me_date M date @ crlf @
      ''MIME-Version: 1.0'' @ crlf @
      contentFields @
      (if 0 < d_ID d then
         ''Message-ID: <'' @ remoteBridgeMessageID (d_ID d) @ ''>'' @ crlf @
         ''X-Remote-Mail-Id: '' @ itoa (d_ID d) @ crlf
       else []) @ crlf)"

definition buildRFC822HTMLOnly :: "mime_env \<Rightarrow> mail_detail \<Rightarrow> string \<Rightarrow> go_time \<Rightarrow> string" where
  "buildRFC822HTMLOnly M d htmlBody date =
     messageHeader M d date
       (''Content-Type: text/html; charset=UTF-8'' @ crlf @ ''Content-Transfer-Encoding: 8bit'' @ crlf) @
     htmlPayload d htmlBody"

section \<open>Attachments\<close>

text \<open>Lines of 76 characters.\<close>

fun chunks :: "nat \<Rightarrow> string \<Rightarrow> string list" where
  "chunks n [] = []"
| "chunks n (c # s) = (c # take (n - 1) s) # chunks n (drop (n - 1) s)"

definition writeMIMEBase64Lines :: "string \<Rightarrow> string" where
  "writeMIMEBase64Lines data = concat (map (\<lambda>l. l @ crlf) (chunks 76 (b64_encode data)))"

text \<open>\<open>multipart.Writer.CreatePart\<close> writes the fields in the order of their names.\<close>

definition partHeader :: "string \<Rightarrow> bool \<Rightarrow> string list \<Rightarrow> string" where
  "partHeader boundary first hs =
     (if first then [] else crlf) @ ''--'' @ boundary @ crlf @ concat (map (\<lambda>f. f @ crlf) hs) @ crlf"

definition attachmentFields :: "attachment_part \<Rightarrow> string list" where
  "attachmentFields a =
     [''Content-Disposition: '' @ mimeContentDispositionAttachment (fileName a),
      ''Content-Transfer-Encoding: base64'',
      ''Content-Type: '' @ (if contentType a = [] then ''application/octet-stream'' else contentType a)]"

definition attachmentSection :: "string \<Rightarrow> attachment_part \<Rightarrow> string" where
  "attachmentSection boundary a =
     partHeader boundary False (attachmentFields a) @ writeMIMEBase64Lines (part_data a)"

definition multipartBody :: "string \<Rightarrow> string \<Rightarrow> attachment_part list \<Rightarrow> string" where
  "multipartBody boundary html attachments =
     partHeader boundary True [''Content-Transfer-Encoding: 8bit'', ''Content-Type: text/html; charset=UTF-8''] @
     html @ concat (map (attachmentSection boundary) attachments) @ crlf @ ''--'' @ boundary @ ''--'' @ crlf"

definition buildRFC822Multipart ::
    "mime_env \<Rightarrow> mail_detail \<Rightarrow> string \<Rightarrow> go_time \<Rightarrow> attachment_part list \<Rightarrow> string" where
  "buildRFC822Multipart M d htmlBody date attachments =
     messageHeader M d date (''Content-Type: multipart/mixed; boundary='' @ me_boundary M @ crlf) @
     multipartBody (me_boundary M) (htmlPayload d htmlBody) attachments"

definition BuildRFC822 ::
    "mime_env \<Rightarrow> mail_detail \<Rightarrow> string \<Rightarrow> go_time \<Rightarrow> attachment_part list \<Rightarrow> string" where
  "BuildRFC822 M d htmlBody date attachments =
     (let nonempty = filter (\<lambda>a. 0 < length (part_data a)) attachments in
      if nonempty = [] then buildRFC822HTMLOnly M d htmlBody date
      else buildRFC822Multipart M d htmlBody date nonempty)"

definition mimeTypeForAttachment :: "mime_env \<Rightarrow> attachment \<Rightarrow> string" where
  "mimeTypeForAttachment M a =
     (let e = trim_space (Extension a);
          ext = (if e \<noteq> [] \<and> \<not> has_prefix e ''.'' then ''.'' @ e else e);
          ct = me_type M (to_lower ext)
      in if ct = [] then ''application/octet-stream'' else ct)"

definition attachmentDisplayName :: "attachment \<Rightarrow> string" where
  "attachmentDisplayName a =
     (if trim_space (FileName a) \<noteq> [] then trim_space (FileName a)
      else let ext = trim_space (Extension a) in
        if ext \<noteq> [] then ''attachment.'' @ trim_prefix ext ''.'' else ''attachment-'' @ itoa (att_ID a))"

section \<open>Times\<close>

text \<open>\<open>strings.Replace(s, " ", "T", 1)\<close>, and the two layouts that are tried.\<close>

definition blank_to_T :: "string \<Rightarrow> string" where
  "blank_to_T s = (case cut_char CHR '' '' s of None \<Rightarrow> s | Some (a, b) \<Rightarrow> a @ ''T'' @ b)"

definition parseTime :: "mime_env \<Rightarrow> go_time \<Rightarrow> string \<Rightarrow> go_time" where
  "parseTime M now s0 =
     (let s = trim_space s0 in
      if s = [] then now
      else case me_parse M ''2006-01-02T15:04:05Z07:00'' (blank_to_T s) of
        Some t \<Rightarrow> t
      | None \<Rightarrow> (case me_parse M ''2006-01-02T15:04:05'' (blank_to_T s) of Some t \<Rightarrow> t | None \<Rightarrow> now))"

section \<open>The message is read back\<close>

text \<open>A line of a header: not empty, and nothing in it that ends it.\<close>

definition one_line :: "string \<Rightarrow> bool" where
  "one_line l \<longleftrightarrow> l \<noteq> [] \<and> CHR 0x0D \<notin> set l \<and> CHR 0x0A \<notin> set l"

definition lines_text :: "string list \<Rightarrow> string" where
  "lines_text ls = concat (map (\<lambda>l. l @ crlf) ls)"

lemma lines_text_simps [simp]:
  "lines_text [] = []" "lines_text (l # ls) = l @ crlf @ lines_text ls" "lines_text (ls @ ks) = lines_text ls @ lines_text ks"
  by (simp_all add: lines_text_def)

lemma cut_blank_skip:
  "CHR 0x0D \<notin> set l \<Longrightarrow> cut (crlf @ crlf) (l @ s) = map_option (\<lambda>(a, b). (l @ a, b)) (cut (crlf @ crlf) s)"
proof (induction l)
  case Nil
  show ?case by (cases "cut (crlf @ crlf) s") auto
next
  case (Cons c l)
  then have "\<not> has_prefix (c # l @ s) (crlf @ crlf)" by (auto simp: crlf_def)
  with Cons show ?case by (cases "cut (crlf @ crlf) s") auto
qed

lemma cut_crlf_line:
  assumes "c \<noteq> CHR 0x0D"
  shows "cut (crlf @ crlf) (crlf @ c # s) = map_option (\<lambda>(a, b). (crlf @ a, b)) (cut (crlf @ crlf) (c # s))"
  using assms by (cases "cut (crlf @ crlf) (c # s)") (auto simp: crlf_def)

lemma cut_blank: "cut (crlf @ crlf) (crlf @ crlf @ b) = Some ([], b)"
  by (simp add: crlf_def)

lemma cut_header:
  assumes "\<forall>l \<in> set ls. one_line l" "ls \<noteq> []"
  shows "cut (crlf @ crlf) (lines_text ls @ crlf @ b) = Some (join_str crlf ls, b)"
  using assms
proof (induction ls)
  case (Cons l ls)
  then have l: "CHR 0x0D \<notin> set l" by (simp add: one_line_def)
  show ?case
  proof (cases ls)
    case Nil
    then show ?thesis using cut_blank_skip [OF l, of "crlf @ crlf @ b"] cut_blank by simp
  next
    case (Cons k ks)
    then have "one_line k" using Cons.prems by simp
    then obtain c t where k: "k = c # t" "c \<noteq> CHR 0x0D" by (cases k) (auto simp: one_line_def)
    have rest: "cut (crlf @ crlf) (lines_text ls @ crlf @ b) = Some (join_str crlf ls, b)"
      using Cons.IH Cons.prems Cons by simp
    have "lines_text ls @ crlf @ b = c # (t @ crlf @ lines_text ks @ crlf @ b)" by (simp add: Cons k(1))
    then have "cut (crlf @ crlf) (crlf @ lines_text ls @ crlf @ b) = Some (crlf @ join_str crlf ls, b)"
      using cut_crlf_line [OF k(2)] rest by simp
    then show ?thesis using cut_blank_skip [OF l, of "crlf @ lines_text ls @ crlf @ b"] Cons by simp
  qed
qed simp

text \<open>The lines of the header.\<close>

definition headerLines :: "mime_env \<Rightarrow> mail_detail \<Rightarrow> go_time \<Rightarrow> string list \<Rightarrow> string list" where
  "headerLines M d date cs =
     [''From: '' @ sanitizeHeader (formatAddr M (d_FromName d) (d_FromEmail d)),
      ''To: '' @ sanitizeHeader (if d_To d = [] then ''undisclosed@local'' else d_To d),
      ''Subject: '' @ encodeSubject (if d_Subject d = [] then ''(no subject)'' else d_Subject d),
      ''Date: '' @ me_date M date, ''MIME-Version: 1.0''] @ cs @
     (if 0 < d_ID d then [''Message-ID: <'' @ remoteBridgeMessageID (d_ID d) @ ''>'', ''X-Remote-Mail-Id: '' @ itoa (d_ID d)]
      else [])"

lemma messageHeader_lines: "messageHeader M d date (lines_text cs) = lines_text (headerLines M d date cs) @ crlf"
  by (simp add: messageHeader_def headerLines_def Let_def)

lemma sanitizeHeader_line: "CHR 0x0D \<notin> set (sanitizeHeader s) \<and> CHR 0x0A \<notin> set (sanitizeHeader s)"
proof -
  have "CHR 0x0D \<notin> set (replace_char (CHR 0x0A) '' '' (replace_char (CHR 0x0D) '' '' s))"
    "CHR 0x0A \<notin> set (replace_char (CHR 0x0A) '' '' (replace_char (CHR 0x0D) '' '' s))"
    using set_replace_char [of "CHR 0x0A" "'' ''" "replace_char (CHR 0x0D) '' '' s"]
      set_replace_char [of "CHR 0x0D" "'' ''" s] by auto
  then show ?thesis using set_trim_space unfolding sanitizeHeader_def by blast
qed

lemma visible_no_newline: "\<forall>c \<in> set s. visible c \<Longrightarrow> CHR 0x0D \<notin> set s \<and> CHR 0x0A \<notin> set s"
  using visible_not_newline by blast

lemma encodeSubject_line:
  "(isASCII s \<longrightarrow> CHR 0x0D \<notin> set s \<and> CHR 0x0A \<notin> set s) \<longleftrightarrow>
   CHR 0x0D \<notin> set (encodeSubject s) \<and> CHR 0x0A \<notin> set (encodeSubject s)"
  using visible_no_newline [OF b64_encode_visible, of s] by (auto simp: encodeSubject_def)

text \<open>The subject brings no line break into the header: it has none, or it is encoded.\<close>

definition subject_fits :: "mail_detail \<Rightarrow> bool" where
  "subject_fits d \<longleftrightarrow> \<not> isASCII (d_Subject d) \<or> CHR 0x0D \<notin> set (d_Subject d) \<and> CHR 0x0A \<notin> set (d_Subject d)"

lemma headerLines_one_line:
  assumes "CHR 0x0D \<notin> set (me_date M date)" "CHR 0x0A \<notin> set (me_date M date)"
    and "\<forall>l \<in> set cs. one_line l"
  shows "(\<forall>l \<in> set (headerLines M d date cs). one_line l) \<longleftrightarrow> subject_fits d"
proof -
  let ?subj = "if d_Subject d = [] then ''(no subject)'' else d_Subject d"
  have "subject_fits d \<longleftrightarrow> (isASCII ?subj \<longrightarrow> CHR 0x0D \<notin> set ?subj \<and> CHR 0x0A \<notin> set ?subj)"
    by (auto simp: subject_fits_def)
  then have "subject_fits d \<longleftrightarrow> one_line (''Subject: '' @ encodeSubject ?subj)"
    unfolding encodeSubject_line by (auto simp: one_line_def)
  then show ?thesis
    using assms sanitizeHeader_line visible_no_newline [OF itoa_visible]
    by (auto simp: headerLines_def one_line_def remoteBridgeMessageID_def)
qed

lemma html_message_lines:
  "buildRFC822HTMLOnly M d html date =
     lines_text (headerLines M d date
       [''Content-Type: text/html; charset=UTF-8'', ''Content-Transfer-Encoding: 8bit'']) @ crlf @ htmlPayload d html"
  using messageHeader_lines [of M d date "[''Content-Type: text/html; charset=UTF-8'', ''Content-Transfer-Encoding: 8bit'']"]
  by (simp add: buildRFC822HTMLOnly_def)

definition html_fields :: "string list" where
  "html_fields = [''Content-Type: text/html; charset=UTF-8'', ''Content-Transfer-Encoding: 8bit'']"

lemma header_cut:
  assumes "CHR 0x0D \<notin> set (me_date M date)" "CHR 0x0A \<notin> set (me_date M date)"
    and "\<forall>l \<in> set cs. one_line l" "subject_fits d"
  shows "cut (crlf @ crlf) (lines_text (headerLines M d date cs) @ crlf @ b) =
    Some (join_str crlf (headerLines M d date cs), b)"
proof (rule cut_header)
  show "\<forall>l \<in> set (headerLines M d date cs). one_line l" using headerLines_one_line [OF assms(1-3)] assms(4) by blast
qed (simp add: headerLines_def)

text \<open>
  C14: The message that is built for a mail without attachment data is the lines of its header,
  a blank line and the HTML, byte for byte.  Whatever sender, recipient, HTML and number are, the
  header lines are single lines exactly if the subject is free of line breaks or not ASCII and
  hence encoded; then, and the field of the date being a single line, the first blank line ends
  the header, so that a reader gets back exactly these lines and the HTML.
\<close>

theorem message_readable:
  assumes "CHR 0x0D \<notin> set (me_date M date)" "CHR 0x0A \<notin> set (me_date M date)"
    and "list_all (\<lambda>a. part_data a = []) attachments"
  shows "BuildRFC822 M d html date attachments =
      lines_text (headerLines M d date html_fields) @ crlf @ htmlPayload d html \<and>
    ((\<forall>l \<in> set (headerLines M d date html_fields). one_line l) \<longleftrightarrow> subject_fits d) \<and>
    (subject_fits d \<longrightarrow> cut (crlf @ crlf) (BuildRFC822 M d html date attachments) =
      Some (join_str crlf (headerLines M d date html_fields), htmlPayload d html))"
proof -
  have f: "\<forall>l \<in> set html_fields. one_line l" by (simp add: html_fields_def one_line_def)
  have "filter (\<lambda>a. 0 < length (part_data a)) attachments = []"
    using assms(3) by (simp add: list_all_iff filter_empty_conv)
  then have eq: "BuildRFC822 M d html date attachments =
      lines_text (headerLines M d date html_fields) @ crlf @ htmlPayload d html"
    by (simp add: BuildRFC822_def html_message_lines html_fields_def)
  show ?thesis unfolding eq
    using headerLines_one_line [OF assms(1,2) f, of d] header_cut [OF assms(1,2) f, of d] by simp
qed

definition demo_mime :: mime_env where
  "demo_mime = \<lparr>me_address = (\<lambda>n e. n @ '' <'' @ e @ ''>''), me_date = (\<lambda>_. ''Mon, 02 Jan 2006 15:04:05 +0000''),
     me_type = (\<lambda>_. []), me_boundary = ''b0undary'', me_parse = (\<lambda>_ _. None)\<rparr>"

lemma demo_mime_sel [simp]: "me_date demo_mime t = ''Mon, 02 Jan 2006 15:04:05 +0000''" "me_boundary demo_mime = ''b0undary''"
  by (simp_all add: demo_mime_def)

lemma demo_detail_subject: "subject_fits demo_detail"
  by (simp add: subject_fits_def demo_detail_def)

lemma message_readable_witness:
  "\<exists>h. cut (crlf @ crlf) (BuildRFC822 demo_mime demo_detail ''<p>Hi</p>'' (GoTime 0 0) []) = Some (h, ''<p>Hi</p>'')"
proof -
  have "htmlPayload demo_detail ''<p>Hi</p>'' = ''<p>Hi</p>''" by (simp add: htmlPayload_def)
  then show ?thesis
    using message_readable [of demo_mime "GoTime 0 0" "[]" demo_detail "''<p>Hi</p>''"] demo_detail_subject
    unfolding demo_mime_sel by (auto simp del: cut.simps)
qed

text \<open>
  With a line break in it the subject brings header fields of its own into the message.
\<close>

lemma subject_injects_header:
  "isASCII extra \<Longrightarrow> buildRFC822HTMLOnly M (d\<lparr>d_Subject := ''Hi'' @ crlf @ extra\<rparr>) html date =
     (''From: '' @ sanitizeHeader (formatAddr M (d_FromName d) (d_FromEmail d)) @ crlf @
      ''To: '' @ sanitizeHeader (if d_To d = [] then ''undisclosed@local'' else d_To d) @ crlf @
      ''Subject: Hi'' @ crlf) @ (extra @ crlf) @
     (''Date: '' @ me_date M date @ crlf @ ''MIME-Version: 1.0'' @ crlf @
      ''Content-Type: text/html; charset=UTF-8'' @ crlf @ ''Content-Transfer-Encoding: 8bit'' @ crlf @
      (if 0 < d_ID d then
         ''Message-ID: <'' @ remoteBridgeMessageID (d_ID d) @ ''>'' @ crlf @
         ''X-Remote-Mail-Id: '' @ itoa (d_ID d) @ crlf
       else []) @ crlf @ htmlPayload d html)"
  by (simp add: buildRFC822HTMLOnly_def messageHeader_def encodeSubject_def isASCII_def crlf_def htmlPayload_def)

end
