(* ===== verification/Imap_Fetch.thy ===== *)
theory Imap_Fetch
  imports Mailbox_Numbers Rfc822
begin

text \<open>
  FETCH and SEARCH: the second half of \<open>internal/imapbackend/mailbox.go\<close>, which builds the
  message of a mail from the service or, failing that, from its entry in the list, and
  \<open>msg.go\<close>, which answers the items of a FETCH from it.

  What the IMAP library contributes (\<open>backendutil\<close>, \<open>textproto\<close>, the names of body sections)
  is the record \<open>fetch_env\<close>, together with the environments of the other parts.
\<close>

section \<open>Environment\<close>

datatype fetch_item =
    FetchEnvelope | FetchBody | FetchBodyStructure | FetchFlags | FetchInternalDate
  | FetchRFC822 | FetchRFC822Header | FetchRFC822Size | FetchRFC822Text | FetchUid | FetchItem string

record msgLiteral =
  lit_Uid :: u32
  lit_Flags :: "string list"
  lit_Date :: go_time
  lit_Size :: u32
  lit_Body :: string

record 'w fetch_env =
  fe_imap :: "'w imap_env"
  fe_http :: "'w transport"
  fe_mime :: mime_env
  fe_now :: go_time
  fe_section :: "fetch_item \<Rightarrow> string option"
  fe_header :: "string \<Rightarrow> go_error option"
  fe_envelope :: "string \<Rightarrow> string"
  fe_structure :: "bool \<Rightarrow> string \<Rightarrow> string"
  fe_body_section :: "string \<Rightarrow> string \<Rightarrow> string"
  fe_match :: "u32 \<Rightarrow> msgLiteral \<Rightarrow> bool result"

section \<open>Messages\<close>

definition htmlEsc :: "string \<Rightarrow> string" where
  "htmlEsc s =
     replace_char CHR ''>'' ''&gt;'' (replace_char CHR ''<'' ''&lt;'' (replace_char CHR ''&'' ''&amp;'' s))"

definition previewDetail :: "mail_summary \<Rightarrow> mail_detail" where
  "previewDetail s =
     (let e = trim_space (FromEmail s) in
      emptyDetail\<lparr>d_ID := mail_ID s, d_Subject := EffectiveSubject s, d_FromName := EffectiveFrom s,
        d_FromEmail := (if e = [] then ''sender@local'' else e), d_To := [], d_CreatedAt := CreatedAt s\<rparr>)"

definition buildLiteralPreview :: "'w fetch_env \<Rightarrow> mailbox \<Rightarrow> mail_summary \<Rightarrow> msgLiteral" where
  "buildLiteralPreview F m s =
     (let t = parseTime (fe_mime F) (fe_now F) (CreatedAt s);
          body = BuildRFC822 (fe_mime F) (previewDetail s)
                   (''<html><body><p>'' @ htmlEsc (Snippet s) @ ''</p></body></html>'') t []
      in \<lparr>lit_Uid = uid_of s, lit_Flags = flagsFor m (uid_of s) s, lit_Date = t,
          lit_Size = word_of_nat (length body), lit_Body = body\<rparr>)"

definition viewRequest :: "user \<Rightarrow> int \<Rightarrow> request" where
  "viewRequest a n =
     emptyRequest\<lparr>Service := ''mail'', Action := ''view'',
       Params := [''mail_id'' \<mapsto> JStr (itoa n), ''param_1'' \<mapsto> JStr (itoa n)],
       Token := cli_token (user_cli a), CurrentLang := user_viewLang a\<rparr>"

text \<open>The loop over the attachments; one that cannot be downloaded is left out.\<close>

fun downloadParts ::
    "'w fetch_env \<Rightarrow> client \<Rightarrow> int \<Rightarrow> string \<Rightarrow> attachment list \<Rightarrow> 'w \<Rightarrow> attachment_part list \<times> 'w" where
  "downloadParts F c mailID mailCreated [] w = ([], w)"
| "downloadParts F c mailID mailCreated (a # as) w =
     (case GetAttachmentBytes (fe_http F) c a mailID mailCreated w of
        (Inl _, w1) \<Rightarrow> downloadParts F c mailID mailCreated as w1
      | (Inr blob, w1) \<Rightarrow>
          (case downloadParts F c mailID mailCreated as w1 of
             (ps, w2) \<Rightarrow>
               (\<lparr>fileName = attachmentDisplayName a, contentType = mimeTypeForAttachment (fe_mime F) a,
                 part_data = blob\<rparr> # ps, w2)))"

definition buildLiteral ::
    "'w fetch_env \<Rightarrow> mailbox \<Rightarrow> mail_summary \<Rightarrow> 'w imap_user \<Rightarrow> msgLiteral result \<times> 'w imap_user" where
  "buildLiteral F m s u =
     (let c = user_cli (acct u) in
      case DoRaw (fe_http F) c (viewRequest (acct u) (mail_ID s)) (api u) of
        (Inl e, w) \<Rightarrow> (Inl e, u\<lparr>api := w\<rparr>)
      | (Inr raw, w) \<Rightarrow>
          (case ParseMailDetailFromViewBody (fe_http F) raw of
             Inl e \<Rightarrow> (Inl e, u\<lparr>api := w\<rparr>)
           | Inr detail0 \<Rightarrow>
               (let detail = detail0\<lparr>d_ID := mail_ID s\<rparr> in
                case DownloadGET (fe_http F) c (MailHTMLURL (MailAssetOrigin c) (cli_token c) (mail_ID s)) w of
                  (html0, w1) \<Rightarrow>
                    (let html = (case html0 of Inl _ \<Rightarrow> [] | Inr h \<Rightarrow> h);
                         atts = Attachments detail @ Attaches detail;
                         created = trim_space (d_CreatedAt detail);
                         mailCreated = (if created = [] then trim_space (CreatedAt s) else created) in
                     case downloadParts F c (mail_ID s) mailCreated atts w1 of
                       (parts, w2) \<Rightarrow>
                         (let t = parseTime (fe_mime F) (fe_now F) (d_CreatedAt detail);
                              body = BuildRFC822 (fe_mime F) (detail\<lparr>Attachments := atts\<rparr>) html t parts;
                              sz = word_of_nat (length body)
                          in (Inr \<lparr>lit_Uid = uid_of s, lit_Flags = flagsFor m (uid_of s) s, lit_Date = t,
                                   lit_Size = (if sz = 0 then 1 else sz), lit_Body = body\<rparr>,
                              u\<lparr>api := w2\<rparr>))))))"

text \<open>The message of a mail, or its preview if it cannot be had.\<close>

definition literalOrPreview ::
    "'w fetch_env \<Rightarrow> mailbox \<Rightarrow> mail_summary \<Rightarrow> 'w imap_user \<Rightarrow> msgLiteral \<times> 'w imap_user" where
  "literalOrPreview F m s u =
     (case buildLiteral F m s u of
        (Inl _, v) \<Rightarrow> (buildLiteralPreview F m s, v)
      | (Inr lit, v) \<Rightarrow> (lit, v))"

section \<open>FETCH\<close>

definition needsFullRFC822 :: "'w fetch_env \<Rightarrow> fetch_item list \<Rightarrow> bool" where
  "needsFullRFC822 F items \<longleftrightarrow>
     list_ex (\<lambda>it. it \<in> {FetchRFC822, FetchRFC822Header, FetchRFC822Text, FetchBody, FetchBodyStructure} \<or>
                  fe_section F it \<noteq> None) items"

record fetched =
  fm_seq :: u32
  fm_items :: "fetch_item list"
  fm_Envelope :: "string option"
  fm_BodyStructure :: "string option"
  fm_Flags :: "string list"
  fm_InternalDate :: "go_time option"
  fm_Size :: u32
  fm_Uid :: u32
  fm_Body :: "(string \<times> string) list"

definition fetchItem ::
    "'w fetch_env \<Rightarrow> msgLiteral \<Rightarrow> fetch_item \<Rightarrow> fetched \<Rightarrow> go_error option \<times> fetched" where
  "fetchItem F lit item f =
     (case item of
        FetchEnvelope \<Rightarrow> (None, f\<lparr>fm_Envelope := Some (fe_envelope F (lit_Body lit))\<rparr>)
      | FetchBody \<Rightarrow> (None, f\<lparr>fm_BodyStructure := Some (fe_structure F False (lit_Body lit))\<rparr>)
      | FetchBodyStructure \<Rightarrow> (None, f\<lparr>fm_BodyStructure := Some (fe_structure F True (lit_Body lit))\<rparr>)
      | FetchFlags \<Rightarrow> (None, f\<lparr>fm_Flags := lit_Flags lit\<rparr>)
      | FetchInternalDate \<Rightarrow> (None, f\<lparr>fm_InternalDate := Some (lit_Date lit)\<rparr>)
      | FetchRFC822Size \<Rightarrow> (None, f\<lparr>fm_Size := lit_Size lit\<rparr>)
      | FetchUid \<Rightarrow> (None, f\<lparr>fm_Uid := lit_Uid lit\<rparr>)
      | _ \<Rightarrow>
          (case fe_section F item of
             None \<Rightarrow> (None, f)
           | Some sect \<Rightarrow>
               (case fe_header F (lit_Body lit) of
                  Some e \<Rightarrow> (Some e, f)
                | None \<Rightarrow> (None, f\<lparr>fm_Body := fm_Body f @ [(sect, fe_body_section F sect (lit_Body lit))]\<rparr>))))"

definition Fetch :: "'w fetch_env \<Rightarrow> msgLiteral \<Rightarrow> u32 \<Rightarrow> fetch_item list \<Rightarrow> fetched result" where
  "Fetch F lit seqNum items =
     (case for_each (fetchItem F lit) items
             \<lparr>fm_seq = seqNum, fm_items = items, fm_Envelope = None, fm_BodyStructure = None, fm_Flags = [],
              fm_InternalDate = None, fm_Size = 0, fm_Uid = 0, fm_Body = []\<rparr> of
        (Some e, _) \<Rightarrow> Inl e
      | (None, f) \<Rightarrow> Inr f)"

text \<open>The messages sent for the addressed mails; a failing one is left out.\<close>

fun fetchEach ::
    "'w fetch_env \<Rightarrow> mailbox \<Rightarrow> fetch_item list \<Rightarrow> (u32 \<times> mail_summary) list \<Rightarrow> 'w imap_user
     \<Rightarrow> fetched list \<times> 'w imap_user" where
  "fetchEach F m items [] u = ([], u)"
| "fetchEach F m items ((seqNum, s) # rest) u =
     (case (if needsFullRFC822 F items then literalOrPreview F m s u else (buildLiteralPreview F m s, u)) of
        (lit, v) \<Rightarrow>
          (case fetchEach F m items rest v of
             (msgs, w) \<Rightarrow>
               (case Fetch F lit seqNum items of Inl _ \<Rightarrow> (msgs, w) | Inr msg \<Rightarrow> (msg # msgs, w))))"

definition ListMessages ::
    "'w fetch_env \<Rightarrow> bool \<Rightarrow> seq_set option \<Rightarrow> fetch_item list \<Rightarrow> mailbox \<Rightarrow> 'w imap_user
     \<Rightarrow> (go_error option \<times> fetched list) \<times> 'w imap_user" where
  "ListMessages F uid seqSet items m u =
     (case loadSummaries (fe_imap F) (mb_spec m) u of
        (Inl e, v) \<Rightarrow> ((Some e, []), v)
      | (Inr sums, v) \<Rightarrow>
          (case fetchEach F m items (addressed uid seqSet sums) v of (msgs, w) \<Rightarrow> ((None, msgs), w)))"

section \<open>SEARCH\<close>

fun searchEach ::
    "'w fetch_env \<Rightarrow> mailbox \<Rightarrow> bool \<Rightarrow> (u32 \<times> mail_summary) list \<Rightarrow> 'w imap_user \<Rightarrow> u32 list \<times> 'w imap_user" where
  "searchEach F m uid [] u = ([], u)"
| "searchEach F m uid ((seqNum, s) # rest) u =
     (case literalOrPreview F m s u of
        (lit, v) \<Rightarrow>
          (case searchEach F m uid rest v of
             (found, w) \<Rightarrow>
               (if fe_match F seqNum lit = Inr True then (if uid then uid_of s else seqNum) # found else found, w)))"

definition SearchMessages ::
    "'w fetch_env \<Rightarrow> bool \<Rightarrow> mailbox \<Rightarrow> 'w imap_user \<Rightarrow> u32 list result \<times> 'w imap_user" where
  "SearchMessages F uid m u =
     (case loadSummaries (fe_imap F) (mb_spec m) u of
        (Inl e, v) \<Rightarrow> (Inl e, v)
      | (Inr sums, v) \<Rightarrow>
          (case searchEach F m uid (numbered (byID sums)) v of (found, w) \<Rightarrow> (Inr found, w)))"

section \<open>Every addressed message is answered\<close>

text \<open>
  The message that is made for a mail: the one built from the service, or the entry of the
  list when that fails; and, without a body item, always the entry of the list.
\<close>

definition full_message :: "'w fetch_env \<Rightarrow> user \<Rightarrow> mailbox \<Rightarrow> mail_summary \<Rightarrow> msgLiteral \<Rightarrow> bool" where
  "full_message F a m s lit \<longleftrightarrow>
     (\<exists>u v. acct u = a \<and>
        (buildLiteral F m s u = (Inr lit, v) \<or>
         (\<exists>e. buildLiteral F m s u = (Inl e, v)) \<and> lit = buildLiteralPreview F m s))"

definition offered :: "'w fetch_env \<Rightarrow> user \<Rightarrow> mailbox \<Rightarrow> fetch_item list \<Rightarrow> u32 \<times> mail_summary \<Rightarrow> msgLiteral \<Rightarrow> bool" where
  "offered F a m items ns lit \<longleftrightarrow>
     (if needsFullRFC822 F items then full_message F a m (snd ns) lit
      else lit = buildLiteralPreview F m (snd ns))"

text \<open>The body sections among the items, in order, with what the library cuts out of a message.\<close>

definition plain_item :: "fetch_item \<Rightarrow> bool" where
  "plain_item it \<longleftrightarrow> it \<in> {FetchEnvelope, FetchBody, FetchBodyStructure, FetchFlags, FetchInternalDate,
     FetchRFC822Size, FetchUid}"

definition section_of :: "'w fetch_env \<Rightarrow> fetch_item \<Rightarrow> string list" where
  "section_of F it =
     (if plain_item it then [] else case fe_section F it of None \<Rightarrow> [] | Some sect \<Rightarrow> [sect])"

definition sections :: "'w fetch_env \<Rightarrow> fetch_item list \<Rightarrow> string list" where
  "sections F items = concat (map (section_of F) items)"

text \<open>A message answers an entry of the list, item by item.\<close>

definition answers ::
    "'w fetch_env \<Rightarrow> mailbox \<Rightarrow> fetch_item list \<Rightarrow> u32 \<times> mail_summary \<Rightarrow> msgLiteral \<Rightarrow> fetched \<Rightarrow> bool" where
  "answers F m items ns lit f \<longleftrightarrow>
     (case ns of (n, s) \<Rightarrow>
        fm_seq f = n \<and> (FetchUid \<in> set items \<longrightarrow> fm_Uid f = uid_of s) \<and>
        (FetchFlags \<in> set items \<longrightarrow> fm_Flags f = flagsFor m (uid_of s) s) \<and>
        (FetchInternalDate \<in> set items \<longrightarrow> fm_InternalDate f = Some (lit_Date lit)) \<and>
        (FetchRFC822Size \<in> set items \<longrightarrow> fm_Size f = lit_Size lit) \<and>
        (FetchEnvelope \<in> set items \<longrightarrow> fm_Envelope f = Some (fe_envelope F (lit_Body lit))) \<and>
        fm_Body f = map (\<lambda>sect. (sect, fe_body_section F sect (lit_Body lit))) (sections F items))"

text \<open>No body section is asked for, or the library can read the header of the message.\<close>

definition readable :: "'w fetch_env \<Rightarrow> fetch_item list \<Rightarrow> msgLiteral \<Rightarrow> bool" where
  "readable F items lit \<longleftrightarrow> sections F items = [] \<or> fe_header F (lit_Body lit) = None"

lemma sections_Cons: "sections F (it # items) = section_of F it @ sections F items"
  by (simp add: sections_def)

lemma fetchItem_error:
  "fst (fetchItem F lit item f) = (if section_of F item = [] then None else fe_header F (lit_Body lit))"
  by (auto simp: fetchItem_def section_of_def plain_item_def split: fetch_item.split option.split)

lemma fetchItem_fields:
  assumes "section_of F item = [] \<or> fe_header F (lit_Body lit) = None"
  shows "fm_seq (snd (fetchItem F lit item f)) = fm_seq f"
    "fm_Uid (snd (fetchItem F lit item f)) = (if item = FetchUid then lit_Uid lit else fm_Uid f)"
    "fm_Flags (snd (fetchItem F lit item f)) = (if item = FetchFlags then lit_Flags lit else fm_Flags f)"
    "fm_InternalDate (snd (fetchItem F lit item f)) =
       (if item = FetchInternalDate then Some (lit_Date lit) else fm_InternalDate f)"
    "fm_Size (snd (fetchItem F lit item f)) = (if item = FetchRFC822Size then lit_Size lit else fm_Size f)"
    "fm_Envelope (snd (fetchItem F lit item f)) =
       (if item = FetchEnvelope then Some (fe_envelope F (lit_Body lit)) else fm_Envelope f)"
    "fm_Body (snd (fetchItem F lit item f)) =
       fm_Body f @ map (\<lambda>sect. (sect, fe_body_section F sect (lit_Body lit))) (section_of F item)"
  using assms
  by (cases item; simp add: fetchItem_def section_of_def plain_item_def split: option.splits)+

text \<open>What the items do to a message on the way, when none of them fails.\<close>

definition filled :: "'w fetch_env \<Rightarrow> msgLiteral \<Rightarrow> fetch_item list \<Rightarrow> fetched \<Rightarrow> fetched \<Rightarrow> bool" where
  "filled F lit items f g \<longleftrightarrow>
     fm_seq g = fm_seq f \<and>
     fm_Uid g = (if FetchUid \<in> set items then lit_Uid lit else fm_Uid f) \<and>
     fm_Flags g = (if FetchFlags \<in> set items then lit_Flags lit else fm_Flags f) \<and>
     fm_InternalDate g = (if FetchInternalDate \<in> set items then Some (lit_Date lit) else fm_InternalDate f) \<and>
     fm_Size g = (if FetchRFC822Size \<in> set items then lit_Size lit else fm_Size f) \<and>
     fm_Envelope g = (if FetchEnvelope \<in> set items then Some (fe_envelope F (lit_Body lit)) else fm_Envelope f) \<and>
     fm_Body g = fm_Body f @ map (\<lambda>sect. (sect, fe_body_section F sect (lit_Body lit))) (sections F items)"

lemma fetchItems_ok:
  assumes "readable F items lit"
  shows "\<exists>g. for_each (fetchItem F lit) items f = (None, g) \<and> filled F lit items f g"
  using assms
proof (induction items arbitrary: f)
  case (Cons x xs)
  have x: "section_of F x = [] \<or> fe_header F (lit_Body lit) = None" and xs: "readable F xs lit"
    using Cons.prems by (auto simp: readable_def sections_Cons)
  obtain f1 where f1: "fetchItem F lit x f = (None, f1)"
    using fetchItem_error [of F lit x f] x by (cases "fetchItem F lit x f") auto
  obtain g where g: "for_each (fetchItem F lit) xs f1 = (None, g)" "filled F lit xs f1 g"
    using Cons.IH [OF xs] by blast
  note fields = fetchItem_fields [OF x, of f, unfolded f1 snd_conv]
  have "filled F lit (x # xs) f g" using g(2) unfolding filled_def
    by (simp add: fields sections_Cons)
  with g(1) f1 show ?case by simp
qed (simp add: filled_def sections_def)

lemma fetchItems_error:
  assumes "\<not> readable F items lit"
  shows "fst (for_each (fetchItem F lit) items f) \<noteq> None"
  using assms
proof (induction items arbitrary: f)
  case (Cons x xs)
  obtain e f1 where f1: "fetchItem F lit x f = (e, f1)" by (cases "fetchItem F lit x f")
  have "e = None \<Longrightarrow> \<not> readable F xs lit"
    using Cons.prems fetchItem_error [of F lit x f] f1
    by (auto simp: readable_def sections_Cons split: if_split_asm)
  with Cons.IH f1 show ?case by (cases e) auto
qed (simp add: readable_def sections_def)

lemma Fetch_answers:
  assumes "readable F items lit" "lit_Uid lit = uid_of s" "lit_Flags lit = flagsFor m (uid_of s) s"
  shows "\<exists>f. Fetch F lit n items = Inr f \<and> answers F m items (n, s) lit f"
  using fetchItems_ok [OF assms(1), of
      "\<lparr>fm_seq = n, fm_items = items, fm_Envelope = None, fm_BodyStructure = None, fm_Flags = [],
        fm_InternalDate = None, fm_Size = 0, fm_Uid = 0, fm_Body = []\<rparr>"] assms(2,3)
  by (auto simp: Fetch_def answers_def filled_def)

lemma Fetch_error: "\<not> readable F items lit \<Longrightarrow> \<exists>e. Fetch F lit n items = Inl e"
  using fetchItems_error [of F items lit
      "\<lparr>fm_seq = n, fm_items = items, fm_Envelope = None, fm_BodyStructure = None, fm_Flags = [],
        fm_InternalDate = None, fm_Size = 0, fm_Uid = 0, fm_Body = []\<rparr>"]
  by (auto simp: Fetch_def split: prod.split option.split)

lemma literal_fields:
  "lit_Uid (buildLiteralPreview F m s) = uid_of s" "lit_Flags (buildLiteralPreview F m s) = flagsFor m (uid_of s) s"
  "buildLiteral F m s u = (Inr lit, v) \<Longrightarrow> lit_Uid lit = uid_of s \<and> lit_Flags lit = flagsFor m (uid_of s) s"
  by (auto simp: buildLiteralPreview_def buildLiteral_def Let_def split: prod.splits sum.splits)

lemma offered_fields:
  "offered F a m items (n, s) lit \<Longrightarrow> lit_Uid lit = uid_of s \<and> lit_Flags lit = flagsFor m (uid_of s) s"
  using literal_fields [of F m s] by (auto simp: offered_def full_message_def split: if_split_asm)

lemma literalOrPreview_acct: "literalOrPreview F m s u = (lit, v) \<Longrightarrow> acct v = acct u"
  by (auto simp: literalOrPreview_def buildLiteral_def Let_def split: prod.splits sum.splits)

lemma literalOrPreview_full: "literalOrPreview F m s u = (lit, v) \<Longrightarrow> full_message F (acct u) m s lit"
  unfolding full_message_def by (cases "buildLiteral F m s u") (auto simp: literalOrPreview_def split: sum.splits)

text \<open>
  A message of which a body section is asked, and of which the library cannot read the header, is
  left out; all others are answered.
\<close>

definition answered ::
    "'w fetch_env \<Rightarrow> user \<Rightarrow> mailbox \<Rightarrow> fetch_item list \<Rightarrow> (u32 \<times> mail_summary) list \<Rightarrow> msgLiteral list \<Rightarrow> fetched list \<Rightarrow> bool" where
  "answered F a m items xs lits msgs \<longleftrightarrow> list_all2 (offered F a m items) xs lits \<and>
     list_all2 (\<lambda>(ns, lit). answers F m items ns lit) (filter (\<lambda>(_, lit). readable F items lit) (zip xs lits)) msgs"

lemma fetchEach_answers:
  assumes "acct u = a"
  shows "(\<exists>lits. answered F a m items xs lits (fst (fetchEach F m items xs u))) \<and>
   (\<not> needsFullRFC822 F items \<longrightarrow> snd (fetchEach F m items xs u) = u)"
  using assms
proof (induction xs arbitrary: u)
  case (Cons x xs)
  obtain n s where x: "x = (n, s)" by (cases x)
  obtain lit v where l: "(if needsFullRFC822 F items then literalOrPreview F m s u else (buildLiteralPreview F m s, u)) = (lit, v)"
    by (metis surj_pair)
  have off: "offered F a m items x lit" and a: "acct v = a"
    using l literalOrPreview_full [of F m s u lit v] literalOrPreview_acct [of F m s u lit v] Cons.prems
    by (auto simp: offered_def x split: if_split_asm)
  obtain msgs w where f: "fetchEach F m items xs v = (msgs, w)" by (cases "fetchEach F m items xs v")
  then obtain lits where lits: "answered F a m items xs lits msgs" using Cons.IH [OF a] by auto
  have "answered F a m items (x # xs) (lit # lits) (fst (fetchEach F m items (x # xs) u))"
  proof (cases "readable F items lit")
    case True
    then obtain g where "Fetch F lit n items = Inr g" "answers F m items x lit g"
      using Fetch_answers [of F items lit s m n] offered_fields off x by blast
    with lits off True show ?thesis by (simp add: answered_def x l f)
  next
    case False
    then obtain e where "Fetch F lit n items = Inl e" using Fetch_error by blast
    with lits off False show ?thesis by (simp add: answered_def x l f)
  qed
  moreover have "snd (fetchEach F m items (x # xs) u) = w"
    by (auto simp: x l f split: sum.split)
  moreover have "\<not> needsFullRFC822 F items \<longrightarrow> w = u" using Cons.IH [OF a] l f by auto
  ultimately show ?case by blast
qed (auto simp: answered_def)

text \<open>
  C6: When the list loads, FETCH makes one message for each addressed mail, in order, and sends
  its answers for exactly those whose header the library can read, if a body section is asked
  for, and for all of them otherwise: each once, in the same order, with its number, its UID, its
  flags, its date, its size, its envelope and the sections asked for, in order.  A failure at one
  mail neither ends the FETCH nor touches the others: a mail that cannot be viewed is answered
  from the list.  Without a body item nothing is asked of the service beyond the list.
\<close>

theorem fetch_answers_all:
  assumes "ListMessages F uid ss items m u = ((err, msgs), v)" "loadSummaries (fe_imap F) (mb_spec m) u = (Inr sums, u1)"
  shows "err = None \<and>
    (\<exists>lits. list_all2 (offered F (acct u) m items) (addressed uid ss sums) lits \<and>
       list_all2 (\<lambda>(ns, lit). answers F m items ns lit)
         (filter (\<lambda>(_, lit). readable F items lit) (zip (addressed uid ss sums) lits)) msgs) \<and>
    (\<not> needsFullRFC822 F items \<longrightarrow> v = u1)"
  using assms fetchEach_answers [of u1 "acct u" F m items "addressed uid ss sums"] loadSummaries_frame [OF assms(2)]
  by (auto simp: ListMessages_def answered_def split: prod.splits)

text \<open>An environment for examples, in which no mail can be viewed.\<close>

definition demo_fetch :: "(request list \<times> unit) fetch_env" where
  "demo_fetch = \<lparr>fe_imap = logged (boxed demo_mails),
     fe_http = \<lparr>tr_post = (\<lambda>_ _ w. (Inr (500, []), w)), tr_get = (\<lambda>_ _ w. (Inr (404, []), w)), tr_json = (\<lambda>_. Inl []),
       tr_type_error = (\<lambda>_. []), tr_log_url = (\<lambda>u. u)\<rparr>,
     fe_mime = demo_mime, fe_now = GoTime 0 0, fe_section = (\<lambda>it. if it = FetchRFC822 then Some ''BODY[]'' else None),
     fe_header = (\<lambda>_. None), fe_envelope = (\<lambda>b. b), fe_structure = (\<lambda>_ b. b), fe_body_section = (\<lambda>_ b. b),
     fe_match = (\<lambda>_ _. Inr True)\<rparr>"

lemma fetch_answers_all_witness:
  "\<exists>f. snd (fst (ListMessages demo_fetch True (Some star) [FetchUid, FetchRFC822] inboxOf fresh)) = [f] \<and> fm_Uid f = 30"
proof -
  obtain u1 where l: "loadSummaries (fe_imap demo_fetch) (mb_spec inboxOf) fresh = (Inr demo_mails, u1)"
    using boxed_loaded [of demo_mails] by (auto simp: demo_mails_def demo_fetch_def)
  obtain err msgs v where f: "ListMessages demo_fetch True (Some star) [FetchUid, FetchRFC822] inboxOf fresh = ((err, msgs), v)"
    by (metis surj_pair)
  have r: "readable demo_fetch items lit" for items lit by (simp add: readable_def demo_fetch_def)
  show ?thesis using fetch_answers_all [OF f l]
    by (auto simp: f star_demo r answers_def list_all2_Cons1 uid_of_def)
qed

text \<open>
  What FETCH reports as the size of a mail depends on what else is asked: together with a body
  item it is the size of the message, alone it is that of the preview.
\<close>

lemma fetch_size_of_preview:
  "\<not> needsFullRFC822 F [FetchRFC822Size] \<Longrightarrow>
   fetchEach F m [FetchRFC822Size] [(n, s)] u =
     ([\<lparr>fm_seq = n, fm_items = [FetchRFC822Size], fm_Envelope = None, fm_BodyStructure = None, fm_Flags = [],
        fm_InternalDate = None, fm_Size = word_of_nat (length (lit_Body (buildLiteralPreview F m s))), fm_Uid = 0,
        fm_Body = []\<rparr>], u)"
  by (simp add: Fetch_def fetchItem_def) (simp add: buildLiteralPreview_def Let_def)

section \<open>What SEARCH finds\<close>

lemma subseq_sorted_wrt:
  assumes "subseq xs ys" "sorted_wrt P ys"
  shows "sorted_wrt P xs \<and> set xs \<subseteq> set ys"
  using assms by (induction rule: list_emb.induct) auto

definition searchKey :: "bool \<Rightarrow> u32 \<times> mail_summary \<Rightarrow> u32" where
  "searchKey uid ns = (if uid then uid_of (snd ns) else fst ns)"

lemma searchEach_found:
  assumes "acct u = a"
  shows "\<exists>lits. list_all2 (\<lambda>(_, s). full_message F a m s) xs lits \<and>
     fst (searchEach F m uid xs u) =
       map (\<lambda>(ns, _). searchKey uid ns) (filter (\<lambda>((n, _), lit). fe_match F n lit = Inr True) (zip xs lits))"
  using assms
proof (induction xs arbitrary: u)
  case (Cons x xs)
  obtain n s where x: "x = (n, s)" by (cases x)
  obtain lit v where l: "literalOrPreview F m s u = (lit, v)" by (metis surj_pair)
  have a: "acct v = a" using literalOrPreview_acct [OF l] Cons.prems by simp
  obtain found w where e: "searchEach F m uid xs v = (found, w)"
    by (cases "searchEach F m uid xs v")
  obtain lits where lits: "list_all2 (\<lambda>(_, s). full_message F a m s) xs lits"
    "found = map (\<lambda>(ns, _). searchKey uid ns) (filter (\<lambda>((n, _), lit). fe_match F n lit = Inr True) (zip xs lits))"
    using Cons.IH [OF a] e by auto
  have "fst (searchEach F m uid (x # xs) u) = (if fe_match F n lit = Inr True then searchKey uid x # found else found)"
    by (simp add: x l e searchKey_def)
  with lits literalOrPreview_full [OF l] Cons.prems show ?case
    by (intro exI [of _ "lit # lits"]) (simp add: x)
qed simp

lemma found_subseq:
  "list_all2 R xs lits \<Longrightarrow> subseq (map (\<lambda>(ns, _). f ns) (filter p (zip xs lits))) (map f xs)"
  by (induction rule: list_all2_induct) (auto intro: list_emb_Cons)

lemma keys_sorted:
  assumes "if uid then uids_fit sums else length sums < 2 ^ 32 - 1"
  shows "sorted_wrt (<) (map (searchKey uid) (numbered (byID sums)))"
proof -
  have "map (searchKey uid) (numbered (byID sums)) =
      (if uid then map (uid_of \<circ> snd) (numbered (byID sums)) else map fst (numbered (byID sums)))"
    by (simp add: searchKey_def [abs_def] comp_def del: map_numbered)
  then show ?thesis using assms numbered_uids [of sums] seqs_sorted [of sums] by (simp split: if_split_asm)
qed

text \<open>
  C13: When the list loads, SEARCH makes the message of each mail, in the order of the numbers,
  and returns the sequence number or the UID of exactly those that match, in that order; a message
  that the library cannot match is left out.  Sequence numbers therefore ascend and none is
  repeated, as long as there are fewer than 2 ^ 32 - 1 of them; UIDs do when, besides, the numbers
  of the mails are positive and below 2 ^ 32 - 1 and the service lists no mail twice.
\<close>

theorem search_ascending:
  assumes "SearchMessages F uid m u = (Inr found, v)" "fst (loadSummaries (fe_imap F) (mb_spec m) u) = Inr sums"
  shows "(\<exists>lits. list_all2 (\<lambda>(_, s). full_message F (acct u) m s) (numbered (byID sums)) lits \<and>
      found = map (\<lambda>((n, s), _). if uid then uid_of s else n)
        (filter (\<lambda>((n, _), lit). fe_match F n lit = Inr True) (zip (numbered (byID sums)) lits))) \<and>
    ((if uid then uids_fit sums else length sums < 2 ^ 32 - 1) \<longrightarrow> sorted_wrt (<) found)"
proof -
  obtain u1 where l: "loadSummaries (fe_imap F) (mb_spec m) u = (Inr sums, u1)"
    using assms(2) by (cases "loadSummaries (fe_imap F) (mb_spec m) u") auto
  have "found = fst (searchEach F m uid (numbered (byID sums)) u1)"
    using assms(1) l by (auto simp: SearchMessages_def split: prod.splits)
  then obtain lits where lits: "list_all2 (\<lambda>(_, s). full_message F (acct u) m s) (numbered (byID sums)) lits"
    "found = map (\<lambda>(ns, _). searchKey uid ns)
       (filter (\<lambda>((n, _), lit). fe_match F n lit = Inr True) (zip (numbered (byID sums)) lits))"
    using searchEach_found [of u1 "acct u" F m "numbered (byID sums)" uid] loadSummaries_frame [OF l] by auto
  have "(\<lambda>(ns :: u32 \<times> mail_summary, _ :: msgLiteral). searchKey uid ns) = (\<lambda>((n, s), _). if uid then uid_of s else n)"
    by (auto simp: searchKey_def fun_eq_iff)
  moreover have "sorted_wrt (<) found" if "if uid then uids_fit sums else length sums < 2 ^ 32 - 1"
    using subseq_sorted_wrt [OF found_subseq [OF lits(1)] keys_sorted [OF that]] lits(2) by blast
  ultimately show ?thesis using lits by auto
qed

lemma search_ascending_witness:
  "\<exists>found. fst (SearchMessages demo_fetch True inboxOf fresh) = Inr found \<and> sorted_wrt (<) found"
proof -
  have l: "fst (loadSummaries (fe_imap demo_fetch) (mb_spec inboxOf) fresh) = Inr demo_mails"
    by (simp add: boxed_load demo_mails_def demo_fetch_def)
  obtain found v where s: "SearchMessages demo_fetch True inboxOf fresh = (Inr found, v)"
    using l by (cases "loadSummaries (fe_imap demo_fetch) (mb_spec inboxOf) fresh";
      cases "searchEach demo_fetch inboxOf True (numbered (byID demo_mails)) (snd (loadSummaries (fe_imap demo_fetch) (mb_spec inboxOf) fresh))")
      (simp add: SearchMessages_def)
  show ?thesis using search_ascending [OF s l] demo_mails_fit by (auto simp: s)
qed

end
