(* ===== verification/Imap_Connection.thy ===== *)
theory Imap_Connection
  imports Imap_Fetch
begin

text \<open>
  A whole IMAP connection: after the login the library calls the operations of \<open>user.go\<close> and
  \<open>mailbox.go\<close> of \<open>internal/imapbackend\<close> in any order, on any of the mailboxes it has been
  given.  What holds in every state that can be reached: the mailboxes, the name index and the
  cached lists are well formed and belong together, and whatever is sent carries the token of
  the login.
\<close>

section \<open>The connection\<close>

text \<open>The mailboxes that the library holds, and the user they belong to.\<close>

record 'w connection =
  held :: "mailbox list"
  usr :: "'w imap_user"

inductive conn_step :: "'w fetch_env \<Rightarrow> 'w connection \<Rightarrow> 'w connection \<Rightarrow> bool" for F where
  listed: "ListMailboxes (fe_imap F) u = (ms, v) \<Longrightarrow>
    conn_step F \<lparr>held = hs, usr = u\<rparr> \<lparr>held = hs @ ms, usr = v\<rparr>"
| got: "GetMailbox (fe_imap F) n u = (r, v) \<Longrightarrow>
    conn_step F \<lparr>held = hs, usr = u\<rparr> \<lparr>held = hs @ (case r of Inl _ \<Rightarrow> [] | Inr m \<Rightarrow> [m]), usr = v\<rparr>"
| changed: "run_command (fe_imap F) c u = (err, v) \<Longrightarrow>
    conn_step F \<lparr>held = hs, usr = u\<rparr> \<lparr>held = hs, usr = v\<rparr>"
| status: "m \<in> set hs \<Longrightarrow> Status_of (fe_imap F) m items u = (r, v) \<Longrightarrow>
    conn_step F \<lparr>held = hs, usr = u\<rparr> \<lparr>held = hs, usr = v\<rparr>"
| appended: "m \<in> set hs \<Longrightarrow> CreateMessage (fe_imap F) flags body m u = (err, v) \<Longrightarrow>
    conn_step F \<lparr>held = hs, usr = u\<rparr> \<lparr>held = hs, usr = v\<rparr>"
| stored: "i < length hs \<Longrightarrow> UpdateMessagesFlags (fe_imap F) uid ss op flags (hs ! i, u) = (err, m, v) \<Longrightarrow>
    conn_step F \<lparr>held = hs, usr = u\<rparr> \<lparr>held = hs[i := m], usr = v\<rparr>"
| expunged: "i < length hs \<Longrightarrow> Expunge (fe_imap F) (hs ! i, u) = (err, m, v) \<Longrightarrow>
    conn_step F \<lparr>held = hs, usr = u\<rparr> \<lparr>held = hs[i := m], usr = v\<rparr>"
| copied: "m \<in> set hs \<Longrightarrow> CopyMessages (fe_imap F) uid ss dest m u = (err, v) \<Longrightarrow>
    conn_step F \<lparr>held = hs, usr = u\<rparr> \<lparr>held = hs, usr = v\<rparr>"
| moved: "m \<in> set hs \<Longrightarrow> MoveMessages (fe_imap F) uid ss dest m u = (err, v) \<Longrightarrow>
    conn_step F \<lparr>held = hs, usr = u\<rparr> \<lparr>held = hs, usr = v\<rparr>"
| fetched: "m \<in> set hs \<Longrightarrow> ListMessages F uid ss items m u = (r, v) \<Longrightarrow>
    conn_step F \<lparr>held = hs, usr = u\<rparr> \<lparr>held = hs, usr = v\<rparr>"
| searched: "m \<in> set hs \<Longrightarrow> SearchMessages F uid m u = (r, v) \<Longrightarrow>
    conn_step F \<lparr>held = hs, usr = u\<rparr> \<lparr>held = hs, usr = v\<rparr>"

inductive conn_reach :: "'w fetch_env \<Rightarrow> user \<Rightarrow> 'w \<Rightarrow> 'w connection \<Rightarrow> bool" for F a w where
  login: "conn_reach F a w \<lparr>held = [], usr = loggedIn a w\<rparr>"
| onward: "conn_reach F a w c \<Longrightarrow> conn_step F c d \<Longrightarrow> conn_reach F a w d"

section \<open>Types\<close>

text \<open>
  A mailbox is a standard one, without a number, or a folder or tag with a number: one that was
  read from a name, or one that the service gave.
\<close>

definition numeral :: "string \<Rightarrow> bool" where
  "numeral s \<longleftrightarrow> snd (atoi s) \<or> (\<exists>n. s = itoa n)"

definition spec_typed :: "MailboxSpec \<Rightarrow> bool" where
  "spec_typed sp \<longleftrightarrow> (Param1 sp \<in> set standard_params \<and> Param2 sp = []) \<or>
     (Param1 sp \<in> {''folders'', ''tags''} \<and> numeral (Param2 sp))"

definition index_typed :: "spec_map \<Rightarrow> bool" where
  "index_typed m \<longleftrightarrow> (\<forall>n sp. m n = Some sp \<longrightarrow> spec_typed sp)"

definition cache_typed :: "(string \<rightharpoonup> summary_cache) \<Rightarrow> bool" where
  "cache_typed c \<longleftrightarrow> (\<forall>k e. c k = Some e \<longrightarrow> spec_typed (sc_spec e) \<and> k = specCacheKey (sc_spec e))"

definition user_typed :: "user \<Rightarrow> 'w imap_user \<Rightarrow> bool" where
  "user_typed a u \<longleftrightarrow> acct u = a \<and> index_typed (nameIndex u) \<and> cache_typed (listCache u)"

definition box_typed :: "user \<Rightarrow> mailbox \<Rightarrow> bool" where
  "box_typed a m \<longleftrightarrow> spec_typed (mb_spec m) \<and> uidValidity m = fnv32a (user_email a @ ''|'' @ mb_name m @ ''|v1'')"

definition conn_typed :: "user \<Rightarrow> 'w connection \<Rightarrow> bool" where
  "conn_typed a c \<longleftrightarrow> list_all (box_typed a) (held c) \<and> user_typed a (usr c)"

text \<open>The outside world is in order too.\<close>

definition user_good :: "('w \<Rightarrow> bool) \<Rightarrow> user \<Rightarrow> 'w imap_user \<Rightarrow> bool" where
  "user_good good a u \<longleftrightarrow> user_typed a u \<and> good (api u)"

definition resolver_good :: "('w \<Rightarrow> bool) \<Rightarrow> 'w resolver \<Rightarrow> bool" where
  "resolver_good good v \<longleftrightarrow> index_typed (ix_map v) \<and> good (ix_world v)"

lemma spec_ok_typed: "spec_ok sp \<Longrightarrow> spec_typed sp"
  by (auto simp: spec_ok_def spec_typed_def numeral_def)

lemma parsed_typed: "ParseMailboxName n = Inr sp \<Longrightarrow> spec_typed sp"
  by (rule spec_ok_typed) (rule ParseMailboxName_ok)

lemma service_specs_typed [simp]: "spec_typed (folder_spec f)" "spec_typed (tag_spec t)"
  by (auto simp: spec_typed_def folder_spec_def tag_spec_def numeral_def)

lemma index_typed_upd [simp]: "index_typed m \<Longrightarrow> spec_typed sp \<Longrightarrow> index_typed (m(k \<mapsto> sp))"
  by (simp add: index_typed_def)

lemma index_typed_standard: "index_typed standardIndex"
proof -
  have "index_typed Map.empty" by (simp add: index_typed_def)
  moreover have "index_typed (index_standard n m)" if "index_typed m" for n m
    using that parsed_typed by (auto simp: index_standard_def split: sum.split)
  ultimately show ?thesis unfolding standardIndex_def by (metis fold_invariant_index)
qed

lemma index_typed_rebuild: "index_typed (specByListName (rebuildMailboxNameIndex ft))"
  unfolding rebuildMailboxNameIndex_def Let_def
  by (auto split: option.split
      intro!: fold_invariant_index [where P = "\<lambda>ix. index_typed (specByListName ix)"]
      simp: index_folder_def index_tag_def index_one_def index_typed_standard split: prod.split)

lemma cache_typed_drop [simp]:
  "cache_typed c \<Longrightarrow> cache_typed (invalidateSpec sp c)"
  "cache_typed c \<Longrightarrow> cache_typed (invalidateFolderTagListCaches c)"
  by (auto simp: cache_typed_def invalidateSpec_def invalidateFolderTagListCaches_def)

lemma cache_typed_keep [simp]:
  "cache_typed c \<Longrightarrow> spec_typed sp \<Longrightarrow>
   cache_typed (c(specCacheKey sp \<mapsto> \<lparr>sc_at = t, sc_summaries = ms, sc_spec = sp\<rparr>))"
  by (auto simp: cache_typed_def)

text \<open>The key of a cached list determines the mailbox.\<close>

lemma numeral_no_slash: "numeral s \<Longrightarrow> s \<noteq> [] \<and> CHR ''/'' \<notin> set s"
proof -
  have "CHR ''/'' \<notin> set (nat_str n) \<and> nat_str n \<noteq> []" for n
    using nat_str_digits [of n] by (auto simp: is_digit_def)
  then have "CHR ''/'' \<notin> set (itoa n) \<and> itoa n \<noteq> []" for n by (auto simp: itoa_def)
  then show "numeral s \<Longrightarrow> s \<noteq> [] \<and> CHR ''/'' \<notin> set s"
    using atoi_ok_lower(2,4) unfolding numeral_def by metis
qed

lemma split_typed_key:
  assumes "spec_typed sp"
  shows "split_char CHR ''/'' (specCacheKey sp) = (if Param2 sp = [] then [Param1 sp] else [Param1 sp, Param2 sp])"
proof -
  have "CHR ''/'' \<notin> set (Param1 sp)" "Param2 sp = [] \<or> CHR ''/'' \<notin> set (Param2 sp)"
    using assms numeral_no_slash by (auto simp: spec_typed_def standard_params_def)
  then show ?thesis by (auto simp: specCacheKey_def split_char_cut split_char_no_sep)
qed

lemma typed_key_inject:
  assumes "spec_typed s" "spec_typed t" "specCacheKey s = specCacheKey t"
  shows "s = t"
  using arg_cong [OF assms(3), of "split_char CHR ''/''"]
  unfolding split_typed_key [OF assms(1)] split_typed_key [OF assms(2)]
  by (intro MailboxSpec_eqI) (simp_all split: if_split_asm)

section \<open>Resolution\<close>

text \<open>What resolving a name relies on: fetching the folders and tags keeps the world in order.\<close>

locale kept_fetch =
  fixes fetch :: "'w fetch" and good :: "'w \<Rightarrow> bool"
  assumes fetch_kept: "good w \<Longrightarrow> good (snd (fetch w))"
begin

lemma refresh_kept: "resolver_good good v \<Longrightarrow> resolver_good good (refreshFolderTagNameIndex fetch v)"
  using fetch_kept [of "ix_world v"]
  by (auto simp: refreshFolderTagNameIndex_def resolver_good_def index_typed_rebuild split: prod.split option.split)

lemma resolveFromIndex_kept:
  assumes "resolver_good good v" "resolveFromIndex fetch visit n v = (r, t)"
  shows "resolver_good good t \<and> (\<forall>sp. r = Some sp \<longrightarrow> spec_typed sp)"
  using assms refresh_kept [OF assms(1)]
  by (auto simp: resolveFromIndex_def Let_def resolver_good_def index_typed_def split: option.splits)

lemma once_kept:
  assumes "resolver_good good v" "resolveMailboxSpecOnce fetch visit n v = (r, t)"
  shows "resolver_good good t \<and> (\<forall>sp. r = Inr sp \<longrightarrow> spec_typed sp)"
proof (cases "trim_space n = []")
  case True
  with assms show ?thesis by (auto simp: resolveMailboxSpecOnce_def)
next
  case False
  let ?c = "trim_space n"
  obtain q y where y: "resolveFromIndex fetch visit ?c v = (q, y)" by (cases "resolveFromIndex fetch visit ?c v")
  note k = resolveFromIndex_kept [OF assms(1) y]
  have "t \<in> {v, y} \<and> (\<forall>sp. r = Inr sp \<longrightarrow> q = Some sp \<or> ParseMailboxName ?c = Inr sp)"
    using assms(2) False
    by (cases q; cases "ParseMailboxName ?c"; cases "has_prefix (to_lower ?c) ''tag-''")
      (auto simp: resolveMailboxSpecOnce_def y)
  then show ?thesis using k assms(1) parsed_typed by blast
qed

lemma candidates_kept:
  assumes "resolver_good good v" "resolve_candidates fetch visit tried ns v = (r, t)"
  shows "resolver_good good t \<and> (\<forall>sp. r = Inr sp \<longrightarrow> spec_typed sp)"
  using assms
proof (induction ns arbitrary: tried v)
  case (Cons c cs)
  obtain q y where y: "resolveMailboxSpecOnce fetch visit (trim_space c) v = (q, y)"
    by (cases "resolveMailboxSpecOnce fetch visit (trim_space c) v")
  show ?case
    using Cons.prems Cons.IH [OF Cons.prems(1)] Cons.IH [of y] once_kept [OF Cons.prems(1) y] y
    by (auto simp: Let_def split: if_split_asm sum.splits)
qed auto

lemma resolve_kept:
  assumes "resolver_good good v" "ResolveMailboxSpec fetch visit n v = (r, t)"
  shows "resolver_good good t \<and> (\<forall>sp. r = Inr sp \<longrightarrow> spec_typed sp)"
  using assms(2) assms(1) candidates_kept [OF assms(1), of visit "[]" "[trim_space n, imapMailboxLeaf (trim_space n)]" r t]
  by (auto simp: ResolveMailboxSpec_def Let_def simp del: resolve_candidates.simps split: if_split_asm)

end

section \<open>Downloads\<close>

text \<open>An attachment that an answer of the service to a POST names.\<close>

definition view_attachment :: "'w transport \<Rightarrow> attachment \<Rightarrow> bool" where
  "view_attachment tr at \<longleftrightarrow>
     (\<exists>url req w raw d. fst (tr_post tr url req w) = Inr (200, raw) \<and>
        ParseMailDetailFromViewBody tr raw = Inr d \<and> at \<in> set (Attachments d @ Attaches d))"

text \<open>The token in a header, if there is a token.\<close>

definition bearer_or_none :: "string \<Rightarrow> string option \<Rightarrow> bool" where
  "bearer_or_none tok auth \<longleftrightarrow> auth = None \<or> tok \<noteq> [] \<and> auth = Some (''Bearer '' @ tok)"

text \<open>
  The three GETs of a connection: the HTML of a mail, with the token in the path and no header;
  an attachment in the store of the service, with the token in the query; and an attachment at
  the address that the service gave for it, where the token is in the header if anywhere.
\<close>

definition html_get :: "client \<Rightarrow> string \<Rightarrow> string option \<Rightarrow> bool" where
  "html_get c url auth \<longleftrightarrow> auth = None \<and>
     (\<exists>n. url = trim_right_char CHR ''/'' (MailAssetOrigin c) @ ''/mail/'' @ PathEscape (cli_token c) @ ''/'' @ itoa n)"

definition stored_get :: "'w transport \<Rightarrow> client \<Rightarrow> string \<Rightarrow> string option \<Rightarrow> bool" where
  "stored_get tr c url auth \<longleftrightarrow> bearer_or_none (cli_token c) auth \<and>
     (\<exists>at base path. view_attachment tr at \<and> base \<in> set (attachmentHTTPOrigins c) \<and>
        url = trim_right_char CHR ''/'' base @ ''/data/attachments/mails/'' @ path @ itoa (att_ID at) @ ''.'' @
          attachmentPathExt at @ ''?token='' @ QueryEscape (cli_token c))"

definition named_get :: "'w transport \<Rightarrow> client \<Rightarrow> string \<Rightarrow> string option \<Rightarrow> bool" where
  "named_get tr c url auth \<longleftrightarrow> bearer_or_none (cli_token c) auth \<and>
     (\<exists>at base. view_attachment tr at \<and> base \<in> set (attachmentHTTPOrigins c) \<and>
        url = resolveMaybeRelativeURL (trim_space (URL at)) base)"

definition may_get :: "'w transport \<Rightarrow> client \<Rightarrow> string \<Rightarrow> string option \<Rightarrow> bool" where
  "may_get tr c url auth \<longleftrightarrow> html_get c url auth \<or> stored_get tr c url auth \<or> named_get tr c url auth"

lemma html_get_MailHTMLURL: "html_get c (MailHTMLURL (MailAssetOrigin c) (cli_token c) n) None"
  by (auto simp: html_get_def MailHTMLURL_def)

lemma candidate_url:
  assumes "url \<in> set (AttachmentURLCandidates base at tok created n)"
  obtains path where "url = trim_right_char CHR ''/'' base @ ''/data/attachments/mails/'' @ path @ itoa (att_ID at) @ ''.'' @
    attachmentPathExt at @ ''?token='' @ QueryEscape tok"
proof -
  let ?url = "\<lambda>path. trim_right_char CHR ''/'' base @ ''/data/attachments/mails/'' @ path @ itoa (att_ID at) @ ''.'' @
    attachmentPathExt at @ ''?token='' @ QueryEscape tok"
  have "set (AttachmentURLCandidates base at tok created n) \<subseteq> range ?url"
  proof -
    have "?url (d @ ''/'') \<in> range ?url" "?url [] \<in> range ?url" for d by blast+
    then show ?thesis unfolding AttachmentURLCandidates_def Let_def add_new_def by simp
  qed
  with assms that show ?thesis by blast
qed

lemma candidates_may_get:
  assumes "view_attachment tr at" "(url, b) \<in> set (candidateAttempts c at n created)"
    and "bearer_or_none (cli_token c) auth"
  shows "may_get tr c url auth"
proof -
  obtain base where base: "base \<in> set (attachmentHTTPOrigins c)"
    "url \<in> set (AttachmentURLCandidates base at (cli_token c) created n)"
    using assms(2) by (auto simp: candidateAttempts_def both_ways_def)
  from candidate_url [OF base(2)] show ?thesis
    using assms(1,3) base(1) unfolding may_get_def stored_get_def by metis
qed

lemma urls_may_get:
  assumes "view_attachment tr at" "(url, b) \<in> set (urlAttempts c at)" "bearer_or_none (cli_token c) auth"
  shows "may_get tr c url auth"
  using assms by (auto simp: may_get_def named_get_def urlAttempts_def both_ways_def Let_def split: if_split_asm)

lemma DoRaw_answer:
  "DoRaw tr c req w = (Inr raw, w1) \<Longrightarrow> \<exists>url r. fst (tr_post tr url r w) = Inr (200, raw)"
  unfolding DoRaw_def postJSONBody_def
  by (auto split: prod.splits sum.splits if_split_asm) (metis fst_conv)

section \<open>Operations\<close>

text \<open>
  What the operations of a connection rely on: a request with the token of the login, and a
  download of the three kinds, keeps the world in order.
\<close>

locale one_login =
  fixes F :: "'w fetch_env" and a :: user and good :: "'w \<Rightarrow> bool"
  assumes service_keeps: "good w \<Longrightarrow> Token req = cli_token (user_cli a) \<Longrightarrow>
      good (snd (ie_service (fe_imap F) req w))"
    and post_keeps: "good w \<Longrightarrow> Token req = cli_token (user_cli a) \<Longrightarrow>
      good (snd (tr_post (fe_http F) url req w))"
    and get_keeps: "good w \<Longrightarrow> may_get (fe_http F) (user_cli a) url auth \<Longrightarrow>
      good (snd (tr_get (fe_http F) url auth w))"
begin

lemma Do_keeps:
  "good w \<Longrightarrow> Token req = cli_token (user_cli a) \<Longrightarrow> good (snd (Do (ie_service (fe_imap F)) (user_cli a) req w))"
  by (simp add: Do_def service_keeps)

lemma fetchFoldersTags_keeps: "good w \<Longrightarrow> good (snd (fetchFoldersTags (fe_imap F) a w))"
  by (simp add: fetchFoldersTags_world Do_keeps foldersTagsRequest_def)

lemma call_keeps:
  assumes "user_good good a u" "call (fe_imap F) req u = (r, v)" "Token req = cli_token (user_cli a)"
  shows "user_good good a v"
  using assms Do_keeps [of "api u" req]
  by (auto simp: call_def user_good_def user_typed_def split: prod.splits)

end

sublocale one_login \<subseteq> fetching: kept_fetch "fetchFoldersTags (fe_imap F) a" good
  by unfold_locales (rule fetchFoldersTags_keeps)

lemma getIndex_good: "user_good good a u \<Longrightarrow> resolver_good good (getIndex u)"
  by (simp add: user_good_def user_typed_def resolver_good_def getIndex_def)

lemma setIndex_good: "user_good good a u \<Longrightarrow> resolver_good good v \<Longrightarrow> user_good good a (setIndex v u)"
  by (simp add: user_good_def user_typed_def resolver_good_def setIndex_def)

lemma user_good_acct: "user_good good a u \<Longrightarrow> acct u = a"
  by (simp add: user_good_def user_typed_def)

lemma user_good_cache: "user_good good a u \<Longrightarrow> cache_typed c \<Longrightarrow> user_good good a (u\<lparr>listCache := c\<rparr>)"
  by (simp add: user_good_def user_typed_def)

lemma user_good_drop:
  "user_good good a u \<Longrightarrow> user_good good a (invalidate sp u)"
  "user_good good a u \<Longrightarrow> user_good good a (u\<lparr>listCache := invalidateSpec sp (listCache u)\<rparr>)"
  "user_good good a u \<Longrightarrow> user_good good a (u\<lparr>listCache := invalidateFolderTagListCaches (listCache u)\<rparr>)"
  by (simp_all add: user_good_def user_typed_def invalidate_def)

context one_login
begin

lemma resolveSpec_keeps:
  assumes "user_good good a u" "resolveSpec (fe_imap F) n u = (r, v)"
  shows "user_good good a v" "r = Inr sp \<Longrightarrow> spec_typed sp"
proof -
  obtain q t where t: "ResolveMailboxSpec (fetchFoldersTags (fe_imap F) a) (ie_names (fe_imap F)) n (getIndex u) = (q, t)"
    by (metis surj_pair)
  then have v: "r = q" "v = setIndex t u"
    using assms by (auto simp: resolveSpec_def user_good_acct)
  show "user_good good a v" "r = Inr sp \<Longrightarrow> spec_typed sp"
    using fetching.resolve_kept [OF getIndex_good [OF assms(1)] t] setIndex_good [OF assms(1)] by (auto simp: v)
qed

lemma refreshIndex_keeps: "user_good good a u \<Longrightarrow> user_good good a (refreshIndex (fe_imap F) u)"
  by (simp add: refreshIndex_def user_good_acct setIndex_good fetching.refresh_kept getIndex_good)

lemma afterChange_keeps: "user_good good a u \<Longrightarrow> user_good good a (afterChange (fe_imap F) u)"
  unfolding afterChange_def by (intro refreshIndex_keeps user_good_drop)

lemma folderByID_keeps: "user_good good a u \<Longrightarrow> folderByID (fe_imap F) n u = (r, v) \<Longrightarrow> user_good good a v"
  using fetchFoldersTags_keeps [of "api u"]
  by (auto simp: folderByID_def user_good_def user_typed_def split: prod.splits)

lemma mailAction_keeps:
  assumes "user_good good a u" "mailAction (fe_imap F) sp n act x u = (e, v)"
  shows "user_good good a v"
proof -
  obtain r u1 where c: "call (fe_imap F) (actionRequest (acct u) sp n act x) u = (r, u1)"
    by (cases "call (fe_imap F) (actionRequest (acct u) sp n act x) u")
  moreover have "u1 = v" using assms(2) c by (auto simp: mailAction_def split: sum.splits if_split_asm)
  ultimately show ?thesis
    using call_keeps [OF assms(1) c] by (simp add: actionRequest_def user_good_acct [OF assms(1)])
qed

lemma CreateMailbox_keeps:
  assumes "user_good good a u" "CreateMailbox (fe_imap F) n u = (err, v)"
  shows "user_good good a v"
proof (cases "createName n")
  case (Inr tn)
  obtain t k where tn: "tn = (t, k)" by (cases tn)
  obtain r u1 where r: "resolveSpec (fe_imap F) k (refreshIndex (fe_imap F) u) = (r, u1)"
    by (cases "resolveSpec (fe_imap F) k (refreshIndex (fe_imap F) u)")
  note u1 = resolveSpec_keeps(1) [OF refreshIndex_keeps [OF assms(1)] r]
  obtain q u2 where q: "call (fe_imap F) (createRequest (acct u) t k) u1 = (q, u2)"
    by (cases "call (fe_imap F) (createRequest (acct u) t k) u1")
  have "user_good good a u2"
    by (rule call_keeps [OF u1 q]) (simp add: createRequest_def user_good_acct [OF assms(1)])
  then show ?thesis using assms(2) u1 afterChange_keeps
    by (auto simp: CreateMailbox_def Inr tn r q split: if_split_asm sum.splits)
qed (use assms in \<open>simp add: CreateMailbox_def\<close>)

lemma DeleteMailbox_keeps:
  assumes "user_good good a u" "DeleteMailbox (fe_imap F) n u = (err, v)"
  shows "user_good good a v"
proof -
  obtain r u1 where r: "resolveSpec (fe_imap F) n u = (r, u1)" by (cases "resolveSpec (fe_imap F) n u")
  note u1 = resolveSpec_keeps(1) [OF assms(1) r]
  have c: "user_good good a u2" if "call (fe_imap F) (deleteRequest (acct u) b k) u1 = (q, u2)" for q u2 b k
    by (rule call_keeps [OF u1 that]) (simp add: deleteRequest_def user_good_acct [OF assms(1)])
  show ?thesis using assms(2) u1
    by (auto simp: DeleteMailbox_def r Let_def split: if_split_asm sum.splits prod.splits
        dest!: c intro!: afterChange_keeps user_good_drop)
qed

lemma RenameMailbox_keeps:
  assumes "user_good good a u" "RenameMailbox (fe_imap F) old new u = (err, v)"
  shows "user_good good a v"
proof -
  obtain r u1 where r: "resolveSpec (fe_imap F) old u = (r, u1)" by (cases "resolveSpec (fe_imap F) old u")
  note u1 = resolveSpec_keeps(1) [OF assms(1) r]
  have c: "user_good good a u3" if "folderByID (fe_imap F) k u1 = (fo, u2)"
      "call (fe_imap F) (renameRequest (acct u) j nm f) u2 = (q, u3)" for k fo u2 j nm f q u3
    by (rule call_keeps [OF folderByID_keeps [OF u1 that(1)] that(2)])
      (simp add: renameRequest_def user_good_acct [OF assms(1)])
  show ?thesis using assms(2) u1 folderByID_keeps [OF u1]
    by (auto simp: RenameMailbox_def r split: if_split_asm sum.splits prod.splits option.splits
        dest: c intro!: afterChange_keeps user_good_drop)
qed

lemma run_command_keeps:
  "user_good good a u \<Longrightarrow> run_command (fe_imap F) c u = (err, v) \<Longrightarrow> user_good good a v"
  by (cases c) (auto dest: CreateMailbox_keeps DeleteMailbox_keeps RenameMailbox_keeps)

lemma GetMailbox_keeps:
  assumes "user_good good a u" "GetMailbox (fe_imap F) n u = (r, v)"
  shows "user_good good a v \<and> (\<forall>m. r = Inr m \<longrightarrow> box_typed a m)"
proof -
  obtain q u1 where q: "resolveSpec (fe_imap F) n u = (q, u1)" by (cases "resolveSpec (fe_imap F) n u")
  show ?thesis using assms(2) resolveSpec_keeps [OF assms(1) q]
    by (auto simp: GetMailbox_def q box_typed_def newMailbox_def user_good_acct split: sum.splits)
qed

lemma loadPages_keeps:
  "loadPages (fe_imap F) sp page sofar u = (r, v) \<Longrightarrow> user_good good a u \<Longrightarrow> user_good good a v"
  by (induction rule: loadPages_induct) (auto dest: call_keeps simp: listRequest_def user_good_acct)

lemma loadSummaries_keeps:
  assumes "loadSummaries (fe_imap F) sp u = (r, v)" "user_good good a u" "spec_typed sp"
  shows "user_good good a v"
  using assms(1)
proof (cases rule: loadSummaries_cases)
  case (hit ent)
  then show ?thesis using assms(2) by (simp add: user_good_def user_typed_def)
next
  case (fresh u1)
  have u1: "user_good good a u1" using assms(2) fresh(1-4) by (simp add: user_good_def user_typed_def)
  from fresh(5) show ?thesis
  proof (cases rule: freshList_cases)
    case (failed e)
    then show ?thesis using loadPages_keeps u1 by blast
  next
    case (loaded ms v1)
    then show ?thesis using loadPages_keeps [OF loaded(1) u1] assms(3)
      by (simp add: user_good_def user_typed_def)
  qed
qed

lemma Status_keeps:
  "Status_of (fe_imap F) m items u = (r, v) \<Longrightarrow> user_good good a u \<Longrightarrow> box_typed a m \<Longrightarrow> user_good good a v"
  by (auto simp: Status_of_def box_typed_def dest: loadSummaries_keeps split: prod.splits sum.splits)

lemma CreateMessage_keeps:
  assumes "user_good good a u" "CreateMessage (fe_imap F) flags body m u = (err, v)"
  shows "user_good good a v"
proof -
  have c: "user_good good a u2" if "call (fe_imap F) (draftRequest (acct u) s h rs) u = (q, u2)" for q u2 s h rs
    by (rule call_keeps [OF assms(1) that]) (simp add: draftRequest_def user_good_acct [OF assms(1)])
  show ?thesis using assms
    by (auto simp: CreateMessage_def split: if_split_asm sum.splits prod.splits dest!: c intro: user_good_drop)
qed

text \<open>The loops over messages: a mailbox and its user, both in order.\<close>

lemma loop_keeps:
  assumes "for_each f xs s = (e, t)" "\<And>x s. P s \<Longrightarrow> P (snd (f x s))" "P s"
  shows "P t"
  using for_each_invariant [of xs P f s] assms by simp

lemma applyFlag_keeps:
  assumes "box_typed a (fst mu) \<and> user_good good a (snd mu)"
  shows "box_typed a (fst (snd (applyFlag (fe_imap F) n op f mu))) \<and>
    user_good good a (snd (snd (applyFlag (fe_imap F) n op f mu)))"
proof -
  obtain m u where mu: "mu = (m, u)" by (cases mu)
  have k: "user_good good a v" if "mailAction (fe_imap F) sp n act x u = (e, v)" for sp act x e v
    using mailAction_keeps [OF _ that] assms mu by simp
  show ?thesis using assms
    by (auto simp: mu applyFlag_def Let_def box_typed_def split: prod.splits option.splits dest: k)
qed

lemma applyFlagOp_keeps:
  assumes "box_typed a (fst mu) \<and> user_good good a (snd mu)"
  shows "box_typed a (fst (snd (applyFlagOp (fe_imap F) n op flags mu))) \<and>
    user_good good a (snd (snd (applyFlagOp (fe_imap F) n op flags mu)))"
  unfolding applyFlagOp_def
  by (rule for_each_invariant [where P = "\<lambda>mu. box_typed a (fst mu) \<and> user_good good a (snd mu)"])
    (use assms applyFlag_keeps in blast)+

lemma UpdateMessagesFlags_keeps:
  assumes "box_typed a m" "user_good good a u" "UpdateMessagesFlags (fe_imap F) uid ss op flags (m, u) = (err, m1, v)"
  shows "box_typed a m1 \<and> user_good good a v"
proof -
  obtain r u1 where l: "loadSummaries (fe_imap F) (mb_spec m) u = (r, u1)"
    by (cases "loadSummaries (fe_imap F) (mb_spec m) u")
  have u1: "user_good good a u1" using loadSummaries_keeps [OF l assms(2)] assms(1) by (simp add: box_typed_def)
  have loop: "box_typed a m2 \<and> user_good good a u2"
    if "for_each (\<lambda>(_, s). applyFlagOp (fe_imap F) (mail_ID s) op flags) xs (m, u1) = (e, m2, u2)"
    for xs :: "(u32 \<times> mail_summary) list" and e m2 u2
    using loop_keeps [OF that, where P = "\<lambda>mu. box_typed a (fst mu) \<and> user_good good a (snd mu)"]
      applyFlagOp_keeps assms(1) u1 by (simp add: split_beta)
  show ?thesis using assms(1,3) u1
    by (auto simp: UpdateMessagesFlags_def l split: sum.splits prod.splits option.splits
        dest!: loop intro: user_good_drop)
qed

lemma Expunge_keeps:
  assumes "box_typed a m" "user_good good a u" "Expunge (fe_imap F) (m, u) = (err, m1, v)"
  shows "box_typed a m1 \<and> user_good good a v"
proof -
  let ?P = "\<lambda>mu. box_typed a (fst mu) \<and> user_good good a (snd mu)"
  have "?P (snd (expungeOne (fe_imap F) x mu))" if "?P mu" for x mu
    using that by (auto simp: expungeOne_def box_typed_def split: prod.splits option.splits dest: mailAction_keeps)
  then have "?P t" if "for_each (expungeOne (fe_imap F)) xs (m, u) = (e, t)" for xs e t
    using loop_keeps [OF that, where P = ?P] assms(1,2) by simp
  then have loop: "box_typed a m2 \<and> user_good good a u2"
    if "for_each (expungeOne (fe_imap F)) xs (m, u) = (e, m2, u2)" for xs e m2 u2 using that by fastforce
  show ?thesis using assms(3)
    by (auto simp: Expunge_def split: prod.splits option.splits dest!: loop intro: user_good_drop)
qed

lemma each_keeps:
  assumes "\<And>s u. user_good good a u \<Longrightarrow> user_good good a (snd (f s u))" "user_good good a u"
    and "for_each (\<lambda>(_, s). f s) xs u = (e, v)"
  shows "user_good good a v"
  using loop_keeps [OF assms(3), where P = "user_good good a"] assms(1,2) by (simp add: split_beta)

lemma action_keeps: "user_good good a u \<Longrightarrow> user_good good a (snd (mailAction (fe_imap F) sp n act x u))"
  using mailAction_keeps [OF _ prod.collapse [symmetric]] .

lemma CopyMessages_keeps:
  assumes "box_typed a m" "user_good good a u" "CopyMessages (fe_imap F) uid ss n m u = (err, v)"
  shows "user_good good a v"
proof -
  obtain r u1 where r: "resolveSpec (fe_imap F) n u = (r, u1)" by (cases "resolveSpec (fe_imap F) n u")
  note u1 = resolveSpec_keeps(1) [OF assms(2) r]
  obtain q u2 where q: "loadSummaries (fe_imap F) (mb_spec m) u1 = (q, u2)"
    by (cases "loadSummaries (fe_imap F) (mb_spec m) u1")
  have u2: "user_good good a u2" using loadSummaries_keeps [OF q u1] assms(1) by (simp add: box_typed_def)
  have "user_good good a v"
    if "for_each (\<lambda>(_, s). copyOne (fe_imap F) (mb_spec m) dest n (mail_ID s)) xs u2 = (e, v)"
    for xs :: "(u32 \<times> mail_summary) list" and dest e v
    by (rule each_keeps [OF _ u2 that]) (simp add: copyOne_def action_keeps)
  then show ?thesis using assms(3) u1 u2 by (auto simp: CopyMessages_def r q split: sum.splits)
qed

lemma MoveMessages_keeps:
  assumes "box_typed a m" "user_good good a u" "MoveMessages (fe_imap F) uid ss n m u = (err, v)"
  shows "user_good good a v"
proof -
  obtain r u1 where r: "resolveSpec (fe_imap F) n u = (r, u1)" by (cases "resolveSpec (fe_imap F) n u")
  note u1 = resolveSpec_keeps(1) [OF assms(2) r]
  obtain q u2 where q: "loadSummaries (fe_imap F) (mb_spec m) u1 = (q, u2)"
    by (cases "loadSummaries (fe_imap F) (mb_spec m) u1")
  have u2: "user_good good a u2" using loadSummaries_keeps [OF q u1] assms(1) by (simp add: box_typed_def)
  have loop: "user_good good a t"
    if "for_each (\<lambda>(_, s). moveOne (fe_imap F) (mb_spec m) dest n (mail_ID s)) xs u2 = (e, t)"
    for xs :: "(u32 \<times> mail_summary) list" and dest e t
    by (rule each_keeps [OF _ u2 that]) (simp add: moveOne_def action_keeps)
  show ?thesis using assms(3) u1 u2
    by (auto simp: MoveMessages_def r q split: if_split_asm sum.splits prod.splits option.splits
        dest!: loop intro!: user_good_drop)
qed

lemma downloadGET_keeps:
  assumes "downloadGET (fe_http F) (user_cli a) url b w = (q, w1)" "good w"
    and "\<And>auth. bearer_or_none (cli_token (user_cli a)) auth \<Longrightarrow> may_get (fe_http F) (user_cli a) url auth"
  shows "good w1"
proof -
  let ?auth = "if b \<and> cli_token (user_cli a) \<noteq> [] then Some (''Bearer '' @ cli_token (user_cli a)) else None"
  have "bearer_or_none (cli_token (user_cli a)) ?auth" by (simp add: bearer_or_none_def)
  then have "good (snd (tr_get (fe_http F) url ?auth w))" using assms(2,3) by (intro get_keeps)
  then show ?thesis using assms(1) by (auto simp: downloadGET_def split: prod.splits sum.splits if_split_asm)
qed

lemma tryGets_keeps:
  assumes "tryGets (fe_http F) (user_cli a) urls e w = (r, v)" "good w"
    and "\<And>url b auth. (url, b) \<in> set urls \<Longrightarrow> bearer_or_none (cli_token (user_cli a)) auth \<Longrightarrow>
      may_get (fe_http F) (user_cli a) url auth"
  shows "good v"
  using assms
proof (induction urls arbitrary: e w)
  case (Cons ub urls)
  obtain url b where ub: "ub = (url, b)" by (cases ub)
  obtain q w1 where d: "downloadGET (fe_http F) (user_cli a) url b w = (q, w1)"
    by (cases "downloadGET (fe_http F) (user_cli a) url b w")
  have "good w1"
    by (rule downloadGET_keeps [OF d Cons.prems(2)]) (use Cons.prems(3) ub in auto)
  moreover have "may_get (fe_http F) (user_cli a) url' auth"
    if "(url', b') \<in> set urls" "bearer_or_none (cli_token (user_cli a)) auth" for url' b' auth
    using Cons.prems(3) that by auto
  ultimately show ?case using Cons.prems(1) Cons.IH [of _ w1] d
    by (auto simp: ub split: sum.splits if_split_asm)
qed simp

lemma GetAttachmentBytes_keeps:
  assumes "GetAttachmentBytes (fe_http F) (user_cli a) at n created w = (r, v)" "good w"
    and "view_attachment (fe_http F) at"
  shows "good v"
proof -
  obtain r1 w1 where t1: "tryGets (fe_http F) (user_cli a) (urlAttempts (user_cli a) at) None w = (r1, w1)"
    by (metis surj_pair)
  obtain r2 w2 where t2: "tryGets (fe_http F) (user_cli a) (candidateAttempts (user_cli a) at n created) None w1 = (r2, w2)"
    by (metis surj_pair)
  have "good w1" using tryGets_keeps [OF t1 assms(2)] urls_may_get [OF assms(3)] by blast
  then have "good w2" using tryGets_keeps [OF t2] candidates_may_get [OF assms(3)] by blast
  then show ?thesis using assms(1,2) \<open>good w1\<close>
    by (auto simp: GetAttachmentBytes_def t1 t2 split: option.splits list.splits sum.splits if_split_asm)
qed

lemma downloadParts_keeps:
  "downloadParts F (user_cli a) n created ats w = (ps, v) \<Longrightarrow> good w \<Longrightarrow>
   \<forall>at \<in> set ats. view_attachment (fe_http F) at \<Longrightarrow> good v"
  by (induction ats arbitrary: w ps) (auto split: prod.splits sum.splits dest: GetAttachmentBytes_keeps)

lemma buildLiteral_keeps:
  assumes "user_good good a u" "buildLiteral F m s u = (r, v)"
  shows "user_good good a v"
proof -
  let ?c = "user_cli a"
  obtain q w where w: "DoRaw (fe_http F) ?c (viewRequest a (mail_ID s)) (api u) = (q, w)"
    by (cases "DoRaw (fe_http F) ?c (viewRequest a (mail_ID s)) (api u)")
  have "good (snd (tr_post (fe_http F) url (fill_request ?c (viewRequest a (mail_ID s))) (api u)))" for url
    using assms(1) by (intro post_keeps) (simp_all add: viewRequest_def user_good_def)
  then have good_w: "good w" using w
    by (auto simp: DoRaw_def postJSONBody_def split: prod.splits sum.splits if_split_asm) (metis snd_conv)+
  define html where "html = MailHTMLURL (MailAssetOrigin ?c) (cli_token ?c) (mail_ID s)"
  obtain h w1 where h: "DownloadGET (fe_http F) ?c html w = (h, w1)" by (cases "DownloadGET (fe_http F) ?c html w")
  have "may_get (fe_http F) ?c html None" unfolding may_get_def html_def by (simp add: html_get_MailHTMLURL)
  then have "good (snd (tr_get (fe_http F) html None w))" using good_w by (rule get_keeps [rotated])
  then have good_w1: "good w1" using h
    by (auto simp: DownloadGET_def downloadGET_def split: prod.splits sum.splits if_split_asm)
  have parts: "good w2"
    if "downloadParts F ?c n created (Attachments d @ Attaches d) w1 = (ps, w2)"
      "q = Inr raw" "ParseMailDetailFromViewBody (fe_http F) raw = Inr d" for n created d ps w2 raw
  proof (rule downloadParts_keeps [OF that(1) good_w1])
    have "view_attachment (fe_http F) at" if "at \<in> set (Attachments d @ Attaches d)" for at
      using DoRaw_answer [of "fe_http F" ?c "viewRequest a (mail_ID s)" "api u" raw w] w that
        \<open>q = Inr raw\<close> \<open>ParseMailDetailFromViewBody (fe_http F) raw = Inr d\<close>
      unfolding view_attachment_def by blast
    then show "\<forall>at \<in> set (Attachments d @ Attaches d). view_attachment (fe_http F) at" by blast
  qed
  have "good (api v) \<and> acct v = acct u \<and> nameIndex v = nameIndex u \<and> listCache v = listCache u"
    using assms(2) good_w good_w1 unfolding buildLiteral_def Let_def user_good_acct [OF assms(1)] w html_def [symmetric]
    by (auto simp: h user_good_acct [OF assms(1)] split: prod.splits sum.splits dest: parts)
  then show ?thesis using assms(1) by (simp add: user_good_def user_typed_def)
qed

lemma literalOrPreview_keeps:
  "literalOrPreview F m s u = (lit, v) \<Longrightarrow> user_good good a u \<Longrightarrow> user_good good a v"
  by (auto simp: literalOrPreview_def split: prod.splits sum.splits dest: buildLiteral_keeps)

lemma fetchEach_keeps: "user_good good a u \<Longrightarrow> user_good good a (snd (fetchEach F m items xs u))"
proof (induction xs arbitrary: u)
  case (Cons x xs)
  then show ?case
    by (cases x) (auto split: prod.splits sum.splits if_split_asm dest: literalOrPreview_keeps, (metis literalOrPreview_keeps snd_conv)+)
qed simp

lemma searchEach_keeps: "user_good good a u \<Longrightarrow> user_good good a (snd (searchEach F m uid xs u))"
proof (induction xs arbitrary: u)
  case (Cons x xs)
  then show ?case
    by (cases x) (auto split: prod.splits, (metis literalOrPreview_keeps snd_conv)+)
qed simp

lemma ListMessages_keeps:
  assumes "box_typed a m" "user_good good a u" "ListMessages F uid ss items m u = (r, v)"
  shows "user_good good a v"
  using assms fetchEach_keeps [of _ m items]
  by (auto simp: ListMessages_def box_typed_def split: prod.splits sum.splits dest!: loadSummaries_keeps) (metis snd_conv)

lemma SearchMessages_keeps:
  assumes "box_typed a m" "user_good good a u" "SearchMessages F uid m u = (r, v)"
  shows "user_good good a v"
  using assms searchEach_keeps [of _ m uid]
  by (auto simp: SearchMessages_def box_typed_def split: prod.splits sum.splits dest!: loadSummaries_keeps) (metis snd_conv)

end

section \<open>The connection stays in order\<close>

definition conn_good :: "('w \<Rightarrow> bool) \<Rightarrow> user \<Rightarrow> 'w connection \<Rightarrow> bool" where
  "conn_good good a c \<longleftrightarrow> list_all (box_typed a) (held c) \<and> user_good good a (usr c)"

inductive_cases conn_stepE: "conn_step F c d"

lemma newMailbox_typed: "spec_typed sp \<Longrightarrow> box_typed a (newMailbox a n sp)"
  by (simp add: box_typed_def newMailbox_def)

lemma rebuild_listed_typed: "(n, sp) \<in> set (extras (rebuildMailboxNameIndex ft)) \<Longrightarrow> spec_typed sp"
proof (cases ft)
  case (Some p)
  assume "(n, sp) \<in> set (extras (rebuildMailboxNameIndex ft))"
  then have "sp \<in> set (map snd (extras (rebuildMailboxNameIndex ft)))" by force
  then have "sp \<in> set (map folder_spec (fst p) @ map tag_spec (snd p))"
    using rebuild_specs [of "fst p" "snd p"] Some by (simp del: set_map)
  then show ?thesis by auto
qed (simp add: rebuildMailboxNameIndex_def)

context one_login
begin

lemma ListMailboxes_keeps:
  assumes "user_good good a u" "ListMailboxes (fe_imap F) u = (ms, v)"
  shows "list_all (box_typed a) ms \<and> user_good good a v"
proof -
  obtain ft w where ft: "fetchFoldersTags (fe_imap F) a (api u) = (ft, w)"
    by (cases "fetchFoldersTags (fe_imap F) a (api u)")
  have w: "good w" using fetchFoldersTags_keeps [of "api u"] assms(1) by (simp add: ft user_good_def)
  let ?std = "concat (map (standardMailbox a) standardNames)"
  let ?more = "map (\<lambda>(n, sp). newMailbox a n sp) (extras (rebuildMailboxNameIndex ft))"
  have eq: "ms = ?std @ ?more" "v = u\<lparr>nameIndex := specByListName (rebuildMailboxNameIndex ft), api := w\<rparr>"
    using assms(2) unfolding ListMailboxes_def Let_def user_good_acct [OF assms(1)] ft by simp_all
  have "box_typed a m" if "m \<in> set ?std" for m
    using standard_listed [OF that] parsed_typed newMailbox_typed by metis
  moreover have "box_typed a m" if "m \<in> set ?more" for m
    using that rebuild_listed_typed newMailbox_typed by fastforce
  ultimately have "list_all (box_typed a) ms" unfolding eq(1) list_all_iff set_append by blast
  moreover have "user_good good a v"
    using assms(1) w by (simp add: eq(2) user_good_def user_typed_def index_typed_rebuild)
  ultimately show ?thesis ..
qed

lemma step_keeps:
  assumes "conn_step F c d" "conn_good good a c"
  shows "conn_good good a d"
  using assms
proof (induction rule: conn_step.induct)
  case (listed u ms v hs)
  then show ?case using ListMailboxes_keeps by (auto simp: conn_good_def)
next
  case (got n u r v hs)
  then show ?case using GetMailbox_keeps by (auto simp: conn_good_def split: sum.splits)
next
  case (changed c u err v hs)
  then show ?case using run_command_keeps by (auto simp: conn_good_def)
next
  case (status m hs items u r v)
  then show ?case using Status_keeps by (auto simp: conn_good_def list_all_iff)
next
  case (appended m hs flags body u err v)
  then show ?case using CreateMessage_keeps by (auto simp: conn_good_def)
next
  case (stored i hs uid ss op flags u err m v)
  then show ?case using UpdateMessagesFlags_keeps [of "hs ! i" u]
    by (auto simp: conn_good_def list_all_length nth_list_update)
next
  case (expunged i hs u err m v)
  then show ?case using Expunge_keeps [of "hs ! i" u]
    by (auto simp: conn_good_def list_all_length nth_list_update)
next
  case (copied m hs uid ss dest u err v)
  then show ?case using CopyMessages_keeps by (auto simp: conn_good_def list_all_iff)
next
  case (moved m hs uid ss dest u err v)
  then show ?case using MoveMessages_keeps by (auto simp: conn_good_def list_all_iff)
next
  case (fetched m hs uid ss items u r v)
  then show ?case using ListMessages_keeps [OF _ _ fetched(2)] by (auto simp: conn_good_def list_all_iff)
next
  case (searched m hs uid u r v)
  then show ?case using SearchMessages_keeps by (auto simp: conn_good_def list_all_iff)
qed

lemma reach_keeps: "conn_reach F a w c \<Longrightarrow> good w \<Longrightarrow> conn_good good a c"
proof (induction rule: conn_reach.induct)
  case login
  then show ?case
    by (simp add: conn_good_def user_good_def user_typed_def loggedIn_def index_typed_def cache_typed_def)
qed (use step_keeps in blast)

end

section \<open>What is sent\<close>

text \<open>The environment that keeps what is sent, over the service as over plain HTTP.\<close>

datatype sent =
    Posted request
  | Fetched (sent_url: string) (sent_auth: "string option")

definition noting :: "sent \<Rightarrow> ('w \<Rightarrow> 'r \<times> 'w) \<Rightarrow> sent list \<times> 'w \<Rightarrow> 'r \<times> sent list \<times> 'w" where
  "noting x f w = (case f (snd w) of (r, v) \<Rightarrow> (r, fst w @ [x], v))"

definition recorded :: "'w fetch_env \<Rightarrow> (sent list \<times> 'w) fetch_env" where
  "recorded F =
     \<lparr>fe_imap = \<lparr>ie_service = (\<lambda>req. noting (Posted req) (ie_service (fe_imap F) req)),
        ie_clock = ie_clock (fe_imap F), ie_names = ie_names (fe_imap F), ie_pending = ie_pending (fe_imap F),
        ie_quote = ie_quote (fe_imap F)\<rparr>,
      fe_http = \<lparr>tr_post = (\<lambda>url req. noting (Posted req) (tr_post (fe_http F) url req)),
        tr_get = (\<lambda>url auth. noting (Fetched url auth) (tr_get (fe_http F) url auth)),
        tr_json = tr_json (fe_http F), tr_type_error = tr_type_error (fe_http F), tr_log_url = tr_log_url (fe_http F)\<rparr>,
      fe_mime = fe_mime F, fe_now = fe_now F, fe_section = fe_section F, fe_header = fe_header F,
      fe_envelope = fe_envelope F, fe_structure = fe_structure F, fe_body_section = fe_body_section F,
      fe_match = fe_match F\<rparr>"

lemma noting_sel [simp]:
  "fst (snd (noting x f w)) = fst w @ [x]" "fst (noting x f w) = fst (f (snd w))"
  by (simp_all add: noting_def split: prod.split)

lemma view_attachment_recorded: "view_attachment (fe_http (recorded F)) at \<longleftrightarrow> view_attachment (fe_http F) at"
proof -
  have "ParseMailDetailFromViewBody (fe_http (recorded F)) raw = ParseMailDetailFromViewBody (fe_http F) raw" for raw
  proof -
    have "tr_json (fe_http (recorded F)) = tr_json (fe_http F)"
      "tr_type_error (fe_http (recorded F)) = tr_type_error (fe_http F)"
      by (simp_all add: recorded_def)
    then show ?thesis unfolding ParseMailDetailFromViewBody_def ParseMailDetail_def by (simp only:)
  qed
  then show ?thesis by (auto simp: view_attachment_def recorded_def)
qed

text \<open>What may be sent after the login of the user \<open>a\<close>.\<close>

fun carries :: "'w fetch_env \<Rightarrow> user \<Rightarrow> sent \<Rightarrow> bool" where
  "carries F a (Posted req) \<longleftrightarrow> Token req = cli_token (user_cli a)"
| "carries F a (Fetched url auth) \<longleftrightarrow> may_get (fe_http F) (user_cli a) url auth"

definition all_carry :: "'w fetch_env \<Rightarrow> user \<Rightarrow> sent list \<times> 'w \<Rightarrow> bool" where
  "all_carry F a w \<longleftrightarrow> list_all (carries F a) (fst w)"

lemma may_get_recorded: "may_get (fe_http (recorded F)) c url auth \<longleftrightarrow> may_get (fe_http F) c url auth"
  by (simp add: may_get_def stored_get_def named_get_def view_attachment_recorded)

interpretation recorded_login: one_login "recorded F" a "all_carry F a" for F a
  proof
  fix w url auth req
  assume w: "all_carry F a w"
  show "all_carry F a (snd (ie_service (fe_imap (recorded F)) req w))" "all_carry F a (snd (tr_post (fe_http (recorded F)) url req w))"
    if "Token req = cli_token (user_cli a)"
    using w that by (simp_all add: all_carry_def recorded_def)
  show "all_carry F a (snd (tr_get (fe_http (recorded F)) url auth w))"
    if "may_get (fe_http (recorded F)) (user_cli a) url auth"
    using w that unfolding may_get_recorded by (simp add: all_carry_def recorded_def)
qed

text \<open>
  C4: A connection stays well typed, whatever the library calls in whatever order and whatever
  the service answers: every mailbox held is a standard one or a folder or tag with a number,
  with the UIDVALIDITY of its name; so is every mailbox that a name stands for; and the list
  cached under the key of a mailbox was loaded for this mailbox and no other.
\<close>

theorem connection_typed:
  assumes "conn_reach (recorded F) a ([], w) c"
  shows "conn_typed a c \<and>
    (\<forall>m \<in> set (held c). \<forall>e. listCache (usr c) (specCacheKey (mb_spec m)) = Some e \<longrightarrow> sc_spec e = mb_spec m)"
proof -
  have "conn_good (all_carry F a) a c" by (rule recorded_login.reach_keeps [OF assms]) (simp add: all_carry_def)
  then have c: "list_all (box_typed a) (held c)" "user_typed a (usr c)" by (auto simp: conn_good_def user_good_def)
  have "sc_spec e = mb_spec m"
    if "m \<in> set (held c)" "listCache (usr c) (specCacheKey (mb_spec m)) = Some e" for m e
  proof (rule typed_key_inject)
    show "spec_typed (sc_spec e)" "specCacheKey (sc_spec e) = specCacheKey (mb_spec m)"
      using c(2) that(2) by (auto simp: user_typed_def cache_typed_def)
    show "spec_typed (mb_spec m)" using c(1) that(1) by (simp add: list_all_iff box_typed_def)
  qed
  with c show ?thesis by (simp add: conn_typed_def)
qed

text \<open>
  C5: A connection sends nothing but requests with the token of its login and three kinds of
  GET, and no other token anywhere: the HTML of a mail, with that token, escaped, in the path and
  no header; an attachment of a viewed mail in the store of the service, with that token,
  escaped, in the query; and an attachment of a viewed mail at the address that the service gave
  for it.  The last two are asked for with that token as the bearer, or without any header.
\<close>

theorem connection_token:
  assumes "conn_reach (recorded F) a ([], w) c"
  shows "\<forall>x \<in> set (fst (api (usr c))). case x of
      Posted req \<Rightarrow> Token req = cli_token (user_cli a)
    | Fetched url auth \<Rightarrow>
        html_get (user_cli a) url auth \<or> stored_get (fe_http F) (user_cli a) url auth \<or>
        named_get (fe_http F) (user_cli a) url auth"
proof -
  have "conn_good (all_carry F a) a c" by (rule recorded_login.reach_keeps [OF assms]) (simp add: all_carry_def)
  then have "list_all (carries F a) (fst (api (usr c)))" by (simp add: conn_good_def user_good_def all_carry_def)
  then show ?thesis by (auto simp: list_all_iff may_get_def split: sent.split)
qed

text \<open>
  To whom the token is sent is another matter: an attachment whose address names another host
  is asked for there, the second time with the token.
\<close>

lemma foreign_host_gets_token:
  assumes "has_prefix (trim_space (URL at)) ''https://''" "attachmentHTTPOrigins c \<noteq> []"
  shows "(trim_space (URL at), True) \<in> set (urlAttempts c at)"
proof -
  have "resolveMaybeRelativeURL (trim_space (URL at)) b = trim_space (URL at)" for b
    using assms(1) by (auto simp: resolveMaybeRelativeURL_def Let_def)
  moreover have "trim_space (URL at) \<noteq> []" using assms(1) by auto
  moreover obtain b bs where "attachmentHTTPOrigins c = b # bs" using assms(2) by (cases "attachmentHTTPOrigins c") auto
  ultimately show ?thesis by (simp add: urlAttempts_def Let_def both_ways_def)
qed

section \<open>Examples\<close>

definition demo_connection :: "unit fetch_env" where
  "demo_connection = \<lparr>fe_imap = boxed demo_mails,
     fe_http = \<lparr>tr_post = (\<lambda>_ _ w. (Inr (500, []), w)), tr_get = (\<lambda>_ _ w. (Inr (404, []), w)), tr_json = (\<lambda>_. Inl []),
       tr_type_error = (\<lambda>_. []), tr_log_url = (\<lambda>u. u)\<rparr>,
     fe_mime = demo_mime, fe_now = GoTime 0 0, fe_section = (\<lambda>_. None), fe_header = (\<lambda>_. None),
     fe_envelope = (\<lambda>b. b), fe_structure = (\<lambda>_ b. b), fe_body_section = (\<lambda>_ b. b), fe_match = (\<lambda>_ _. Inr True)\<rparr>"

lemma demo_opens:
  "conn_reach (recorded demo_connection) demo_acct ([], ())
     \<lparr>held = [newMailbox demo_acct ''Trash'' \<lparr>Param1 = ''trash'', Param2 = []\<rparr>], usr = loggedIn demo_acct ([], ())\<rparr>"
proof -
  have "GetMailbox (fe_imap (recorded demo_connection)) ''Trash'' (loggedIn demo_acct ([], ())) =
      (Inr (newMailbox demo_acct ''Trash'' \<lparr>Param1 = ''trash'', Param2 = []\<rparr>), loggedIn demo_acct ([], ()))"
    by (simp add: GetMailbox_def resolve_trash)
  from conn_step.got [OF this, of "[]"] show ?thesis by (intro onward [OF login]) simp
qed

lemma connection_typed_witness:
  "conn_typed demo_acct \<lparr>held = [newMailbox demo_acct ''Trash'' \<lparr>Param1 = ''trash'', Param2 = []\<rparr>],
     usr = loggedIn demo_acct ([] :: sent list, ())\<rparr>"
  using connection_typed [OF demo_opens] by (rule conjunct1)

lemma connection_token_witness:
  "\<exists>req. fst (api (snd (ListMailboxes (fe_imap (recorded demo_connection)) (loggedIn demo_acct ([], ()))))) = [Posted req] \<and>
     Token req = ''tok''"
proof -
  let ?u = "loggedIn demo_acct ([], ())"
  obtain ms v where l: "ListMailboxes (fe_imap (recorded demo_connection)) ?u = (ms, v)"
    by (cases "ListMailboxes (fe_imap (recorded demo_connection)) ?u")
  have "fst (api v) = [Posted (fill_request (user_cli demo_acct) (foldersTagsRequest demo_acct))]"
  proof -
    obtain ft w where ft: "fetchFoldersTags (fe_imap (recorded demo_connection)) demo_acct ([], ()) = (ft, w)"
      by (metis surj_pair)
    have "fst w = [Posted (fill_request (user_cli demo_acct) (foldersTagsRequest demo_acct))]"
      using arg_cong [OF ft, of "\<lambda>x. fst (snd x)"] by (simp add: fetchFoldersTags_world Do_def recorded_def)
    then show ?thesis using l ft by (auto simp: ListMailboxes_def Let_def)
  qed
  moreover have "conn_reach (recorded demo_connection) demo_acct ([], ()) \<lparr>held = [] @ ms, usr = v\<rparr>"
    by (rule onward [OF login listed [OF l]])
  from connection_token [OF this] have "\<forall>req. Posted req \<in> set (fst (api v)) \<longrightarrow> Token req = cli_token (user_cli demo_acct)"
    by (auto split: sent.splits)
  moreover have "cli_token (user_cli demo_acct) = ''tok''" by (simp add: demo_acct_def newUser_def NewClient_def)
  ultimately show ?thesis by (simp add: l)
qed

end
