(* ===== verification/Multipart.thy ===== *)
theory Multipart
  imports Rfc822
begin

text \<open>
  The message with attachments that \<open>buildRFC822Multipart\<close> of \<open>internal/imapbackend/rfc822.go\<close>
  writes, read back the way a mail reader does it: cut at the delimiters, then each section into
  its fields and its content.
\<close>

section \<open>Lines of base64\<close>

lemma concat_chunks: "0 < n \<Longrightarrow> concat (chunks n s) = s"
  by (induction n s rule: chunks.induct) simp_all

lemma chunks_bound: "0 < n \<Longrightarrow> l \<in> set (chunks n s) \<Longrightarrow> 0 < length l \<and> length l \<le> n"
  by (induction n s rule: chunks.induct) auto

lemma chunks_chars: "0 < n \<Longrightarrow> l \<in> set (chunks n s) \<Longrightarrow> set l \<subseteq> set s"
  using concat_chunks [of n s] by (metis UN_upper set_concat)

lemma filter_crlf_lines:
  assumes "\<forall>c \<in> set (concat ls). P c" "\<not> P (CHR 0x0D)" "\<not> P (CHR 0x0A)"
  shows "filter P (concat (map (\<lambda>l. l @ crlf) ls)) = concat ls"
  using assms by (induction ls) (auto simp: crlf_def)

lemma base64_lines_decode: "b64_decode (writeMIMEBase64Lines s) = Some s"
proof -
  let ?P = "\<lambda>c. c \<noteq> CHR 0x0D \<and> c \<noteq> CHR 0x0A"
  have c: "concat (chunks 76 (b64_encode s)) = b64_encode s" by (rule concat_chunks) simp
  have "filter ?P (writeMIMEBase64Lines s) = b64_encode s"
    unfolding writeMIMEBase64Lines_def
    by (subst filter_crlf_lines) (use b64_encode_visible [of s] visible_not_newline in \<open>auto simp: c\<close>)
  then show ?thesis by (metis b64_decode_encode filter_newlines_b64_decode)
qed

lemma b64_encode_no_dash: "CHR ''-'' \<notin> set (b64_encode s)"
proof -
  have "b64_char n \<noteq> CHR ''-''" if "n < 64" for n
  proof
    assume "b64_char n = CHR ''-''"
    then have "b64_val (CHR ''-'') = Some n" using that by (metis b64_val_char)
    then show False by (simp add: b64_val_def)
  qed
  then show ?thesis
    by (induction s rule: b64_encode.induct) (auto dest!: sym [of "CHR ''-''"])
qed

section \<open>Delimiters\<close>

text \<open>What stands between the occurrences of a separator.\<close>

function split_on :: "string \<Rightarrow> string \<Rightarrow> string list" where
  "split_on sep s =
     (if sep = [] then [s]
      else case cut sep s of None \<Rightarrow> [s] | Some (a, r) \<Rightarrow> a # split_on sep r)"
  by pat_completeness auto
termination
  by (relation "measure (\<lambda>(sep, s). length s)") (auto dest: cut_Some)

declare split_on.simps [simp del]

definition delimiter :: "string \<Rightarrow> string" where
  "delimiter b = crlf @ ''--'' @ b"

text \<open>A delimiter is found where it stands and not earlier, because it begins with its only CR.\<close>

lemma delimiter_cut:
  assumes "CHR 0x0D \<notin> set b" "cut (delimiter b) p = None"
  shows "cut (delimiter b) (p @ delimiter b @ r) = Some (p, r)"
  using assms(2)
proof (induction p)
  case Nil
  then show ?case by (simp add: delimiter_def crlf_def)
next
  case (Cons c p)
  have "\<not> has_prefix (c # p @ delimiter b @ r) (delimiter b)"
  proof
    assume pre: "has_prefix (c # p @ delimiter b @ r) (delimiter b)"
    have no: "\<not> has_prefix (c # p) (delimiter b)" using Cons.prems by (auto split: if_splits)
    obtain t where t: "(c # p) @ delimiter b @ r = delimiter b @ t" using pre by (auto simp: has_prefix_iff)
    then have "length (c # p) < length (delimiter b)"
      using no by (metis append_eq_append_conv_if has_prefix_iff not_le append_take_drop_id)
    have "((c # p) @ delimiter b @ r) ! length (c # p) = CHR 0x0D"
      by (simp add: delimiter_def crlf_def)
    then have "delimiter b ! Suc (length p) = CHR 0x0D"
      using \<open>length (c # p) < length (delimiter b)\<close> unfolding t by (simp add: nth_append)
    moreover have "delimiter b ! Suc (length p) \<in> set (tl (delimiter b))"
      using \<open>length (c # p) < length (delimiter b)\<close> nth_mem [of "length p" "tl (delimiter b)"] by (simp add: nth_tl)
    ultimately show False using assms(1) by (auto simp: delimiter_def crlf_def)
  qed
  moreover have "cut (delimiter b) p = None" using Cons.prems by (auto split: if_splits)
  ultimately show ?case using Cons.IH by simp
qed

lemma split_on_pieces:
  assumes "CHR 0x0D \<notin> set b" "\<forall>p \<in> set (ps @ [q]). cut (delimiter b) p = None"
  shows "split_on (delimiter b) (concat (map (\<lambda>p. p @ delimiter b) ps) @ q) = ps @ [q]"
  using assms(2)
proof (induction ps)
  case Nil
  then show ?case by (subst split_on.simps) simp
next
  case (Cons p ps)
  have "delimiter b \<noteq> []" by (simp add: delimiter_def crlf_def)
  moreover have "cut (delimiter b) (p @ delimiter b @ concat (map (\<lambda>p. p @ delimiter b) ps) @ q) =
      Some (p, concat (map (\<lambda>p. p @ delimiter b) ps) @ q)"
    using Cons.prems by (intro delimiter_cut [OF assms(1)]) simp
  ultimately show ?case using Cons by (subst split_on.simps) simp
qed

text \<open>No delimiter in lines none of which begins with a hyphen.\<close>

lemma cut_skip_line:
  "CHR 0x0D \<notin> set l \<Longrightarrow> cut (delimiter b) (l @ s) = map_option (\<lambda>(a, r). (l @ a, r)) (cut (delimiter b) s)"
proof (induction l)
  case Nil
  show ?case by (cases "cut (delimiter b) s") auto
next
  case (Cons c l)
  then have "\<not> has_prefix (c # l @ s) (delimiter b)" by (auto simp: delimiter_def crlf_def)
  with Cons show ?case by (cases "cut (delimiter b) s") auto
qed

lemma cut_skip_crlf:
  assumes "\<not> has_prefix s ''--''" "cut (delimiter b) s = None"
  shows "cut (delimiter b) (crlf @ s) = None"
  using assms by (auto simp: delimiter_def crlf_def has_prefix_iff)

lemma has_prefix_dash: "has_prefix s ''--'' \<Longrightarrow> \<exists>t. s = CHR ''-'' # t"
  by (auto simp: has_prefix_iff)

lemma no_delimiter_lines:
  assumes "\<forall>l \<in> set ls. CHR 0x0D \<notin> set l \<and> l \<noteq> [] \<and> hd l \<noteq> CHR ''-''"
    and "cut (delimiter b) s = None" "\<not> has_prefix s ''--''"
  shows "cut (delimiter b) (lines_text ls @ s) = None \<and> \<not> has_prefix (lines_text ls @ s) ''--''"
  using assms(1)
proof (induction ls)
  case (Cons l ls)
  then have IH: "cut (delimiter b) (lines_text ls @ s) = None" "\<not> has_prefix (lines_text ls @ s) ''--''" by simp_all
  have l: "CHR 0x0D \<notin> set l" "l \<noteq> []" "hd l \<noteq> CHR ''-''" using Cons.prems by simp_all
  have "cut (delimiter b) (crlf @ lines_text ls @ s) = None" using IH by (intro cut_skip_crlf)
  then have "cut (delimiter b) (l @ crlf @ lines_text ls @ s) = None" by (simp add: cut_skip_line [OF l(1)])
  moreover have "\<not> has_prefix (l @ crlf @ lines_text ls @ s) ''--''"
    using l(2,3) has_prefix_dash [of "l @ crlf @ lines_text ls @ s"] by (cases l) auto
  ultimately show ?case by simp
qed (use assms(2,3) in simp)

section \<open>Names of files\<close>

text \<open>A quoted string, read up to the quote that ends it; a backslash takes the next character as it is.\<close>

fun read_quoted :: "string \<Rightarrow> (string \<times> string) option" where
  "read_quoted [] = None"
| "read_quoted (c # s) =
     (if c = CHR 0x22 then Some ([], s)
      else if c = CHR 0x5C then
        (case s of [] \<Rightarrow> None | d # t \<Rightarrow> map_option (\<lambda>(a, r). (d # a, r)) (read_quoted t))
      else map_option (\<lambda>(a, r). (c # a, r)) (read_quoted s))"

definition quote_esc :: "string \<Rightarrow> string" where
  "quote_esc s = replace_char (CHR 0x22) [CHR 0x5C, CHR 0x22] (replace_char (CHR 0x5C) [CHR 0x5C, CHR 0x5C] s)"

lemma read_quoted_esc: "read_quoted (quote_esc s @ CHR 0x22 # r) = Some (s, r)"
  by (induction s) (simp_all add: quote_esc_def)

definition shown_name :: "attachment_part \<Rightarrow> string" where
  "shown_name a = (if trim_space (fileName a) = [] then ''attachment'' else trim_space (fileName a))"

lemma disposition_quoted:
  "mimeContentDispositionAttachment (fileName a) = ''attachment; filename='' @ CHR 0x22 # quote_esc (shown_name a) @ [CHR 0x22]"
  by (simp add: mimeContentDispositionAttachment_def quote_esc_def shown_name_def Let_def)

section \<open>The sections\<close>

text \<open>
  What a reader makes of a section: it begins with the end of the delimiter line, its header and
  its content are separated by the first blank line, and they are those of the attachment.
\<close>

definition section_holds :: "attachment_part \<Rightarrow> string \<Rightarrow> bool" where
  "section_holds a piece \<longleftrightarrow>
     (\<exists>text quoted ls. piece = crlf @ text \<and>
        cut (crlf @ crlf) text = Some (join_str crlf
          [''Content-Disposition: attachment; filename='' @ CHR 0x22 # quoted,
           ''Content-Transfer-Encoding: base64'',
           ''Content-Type: '' @ (if contentType a = [] then ''application/octet-stream'' else contentType a)],
          lines_text ls) \<and>
        read_quoted quoted = Some (shown_name a, []) \<and>
        (\<forall>l \<in> set ls. one_line l \<and> length l \<le> 76) \<and> b64_decode (lines_text ls) = Some (part_data a))"

definition fields_fit :: "attachment_part \<Rightarrow> bool" where
  "fields_fit a \<longleftrightarrow> (\<forall>c \<in> {CHR 0x0D, CHR 0x0A}. c \<notin> set (fileName a) \<and> c \<notin> set (contentType a))"

lemma attachmentFields_lines:
  assumes "fields_fit a"
  shows "\<forall>l \<in> set (attachmentFields a). one_line l \<and> hd l \<noteq> CHR ''-''"
proof -
  have "set (quote_esc (shown_name a)) \<subseteq> set (shown_name a) \<union> {CHR 0x22, CHR 0x5C}"
    using set_replace_char [of "CHR 0x22" "[CHR 0x5C, CHR 0x22]" "replace_char (CHR 0x5C) [CHR 0x5C, CHR 0x5C] (shown_name a)"]
      set_replace_char [of "CHR 0x5C" "[CHR 0x5C, CHR 0x5C]" "shown_name a"]
    by (auto simp: quote_esc_def)
  moreover have "set (shown_name a) \<subseteq> set (fileName a) \<union> set ''attachment''"
    using set_trim_space [of "fileName a"] by (auto simp: shown_name_def)
  ultimately have "CHR 0x0D \<notin> set (quote_esc (shown_name a))" "CHR 0x0A \<notin> set (quote_esc (shown_name a))"
    using assms by (auto simp: fields_fit_def)
  then show ?thesis using assms
    by (auto simp: attachmentFields_def disposition_quoted one_line_def fields_fit_def)
qed

lemma base64_line_facts:
  "l \<in> set (chunks 76 (b64_encode s)) \<Longrightarrow> one_line l \<and> hd l \<noteq> CHR ''-'' \<and> length l \<le> 76"
proof -
  assume l: "l \<in> set (chunks 76 (b64_encode s))"
  have len: "0 < length l" "length l \<le> 76" using chunks_bound [OF _ l] by simp_all
  have sub: "set l \<subseteq> set (b64_encode s)" using chunks_chars [OF _ l] by simp
  then have "hd l \<in> set (b64_encode s)" using len(1) by (metis length_greater_0_conv list.set_sel(1) subsetD)
  then show ?thesis using sub len b64_encode_no_dash [of s] b64_encode_visible [of s] visible_not_newline
    unfolding one_line_def by (metis length_greater_0_conv subsetD)
qed

text \<open>The pieces between the delimiters.\<close>

definition html_piece :: "string \<Rightarrow> string" where
  "html_piece html = lines_text [''Content-Transfer-Encoding: 8bit'', ''Content-Type: text/html; charset=UTF-8''] @ crlf @ html"

definition file_piece :: "attachment_part \<Rightarrow> string" where
  "file_piece a = crlf @ lines_text (attachmentFields a) @ crlf @ writeMIMEBase64Lines (part_data a)"

lemma multipartBody_pieces:
  "multipartBody b html as =
     (''--'' @ b @ crlf) @ concat (map (\<lambda>p. p @ delimiter b) (html_piece html # map file_piece as)) @ (''--'' @ crlf)"
proof -
  have "concat (map (attachmentSection b) as) @ delimiter b @ t =
      delimiter b @ concat (map (\<lambda>p. p @ delimiter b) (map file_piece as)) @ t" for t
    by (induction as)
      (simp_all add: attachmentSection_def partHeader_def file_piece_def delimiter_def lines_text_def)
  from this [of "''--'' @ crlf"] show ?thesis
    by (simp add: multipartBody_def partHeader_def html_piece_def delimiter_def lines_text_def)
qed

lemma no_delimiter_Nil: "cut (delimiter b) [] = None"
  by (simp add: delimiter_def crlf_def)

lemma file_piece_free:
  assumes "fields_fit a"
  shows "cut (delimiter b) (file_piece a) = None"
proof -
  define ls where "ls = chunks 76 (b64_encode (part_data a))"
  have ls: "writeMIMEBase64Lines (part_data a) = lines_text ls"
    by (simp add: ls_def lines_text_def writeMIMEBase64Lines_def)
  have good: "CHR 0x0D \<notin> set l \<and> l \<noteq> [] \<and> hd l \<noteq> CHR ''-''"
    if "l \<in> set ls \<or> l \<in> set (attachmentFields a)" for l
    using that base64_line_facts attachmentFields_lines [OF assms] unfolding ls_def one_line_def by blast
  have "cut (delimiter b) (lines_text ls) = None \<and> \<not> has_prefix (lines_text ls) ''--''"
    using no_delimiter_lines [of ls b "[]"] good no_delimiter_Nil by (simp del: cut.simps)
  then have "cut (delimiter b) (crlf @ lines_text ls) = None \<and> \<not> has_prefix (crlf @ lines_text ls) ''--''"
    using cut_skip_crlf [of "lines_text ls" b] by (simp add: crlf_def)
  then have "cut (delimiter b) (lines_text (attachmentFields a) @ crlf @ lines_text ls) = None \<and>
      \<not> has_prefix (lines_text (attachmentFields a) @ crlf @ lines_text ls) ''--''"
    using no_delimiter_lines [of "attachmentFields a" b "crlf @ lines_text ls"] good by blast
  then show ?thesis unfolding file_piece_def ls by (intro cut_skip_crlf) blast+
qed

lemma html_piece_free:
  assumes "cut (delimiter b) (crlf @ html) = None"
  shows "cut (delimiter b) (html_piece html) = None"
proof -
  let ?ls = "[''Content-Transfer-Encoding: 8bit'', ''Content-Type: text/html; charset=UTF-8'']"
  have "\<not> has_prefix (crlf @ html) ''--''" by (simp add: crlf_def)
  moreover have "\<forall>l \<in> set ?ls. CHR 0x0D \<notin> set l \<and> l \<noteq> [] \<and> hd l \<noteq> CHR ''-''" by simp
  ultimately show ?thesis unfolding html_piece_def using no_delimiter_lines [of ?ls b "crlf @ html"] assms by blast
qed

lemma file_piece_holds:
  assumes "fields_fit a"
  shows "section_holds a (file_piece a)"
proof -
  define ls where "ls = chunks 76 (b64_encode (part_data a))"
  have ls: "writeMIMEBase64Lines (part_data a) = lines_text ls"
    by (simp add: ls_def lines_text_def writeMIMEBase64Lines_def)
  have "cut (crlf @ crlf) (lines_text (attachmentFields a) @ crlf @ lines_text ls) =
      Some (join_str crlf (attachmentFields a), lines_text ls)"
    using attachmentFields_lines [OF assms] by (intro cut_header) (simp_all add: attachmentFields_def)
  moreover have "b64_decode (lines_text ls) = Some (part_data a)"
    unfolding ls [symmetric] by (rule base64_lines_decode)
  moreover have "\<forall>l \<in> set ls. one_line l \<and> length l \<le> 76" unfolding ls_def using base64_line_facts by blast
  moreover have "read_quoted (quote_esc (shown_name a) @ [CHR 0x22]) = Some (shown_name a, [])"
    by (rule read_quoted_esc)
  ultimately show ?thesis
    unfolding section_holds_def file_piece_def ls attachmentFields_def disposition_quoted
    by (intro exI conjI) (simp_all del: cut.simps read_quoted.simps)
qed

text \<open>
  C15: A message with attachments is read back whole.  Suppose the fields are single lines (the
  subject, the date, the names and types of the files), and the random boundary does not occur as
  a delimiter in the HTML.  Then the first blank line ends the header, which names the boundary;
  the body begins with the first delimiter line; and between the delimiters stand, in this order
  and nothing else, the HTML with its fields, byte for byte, one section for each attachment that
  has data, and the two hyphens that close the message.  Each section has exactly the three fields
  of its attachment, with a quoted name that reads back as the name of the file, and lines of at
  most 76 characters of base64 that decode to its data.
\<close>

theorem attachments_in_message:
  assumes "CHR 0x0D \<notin> set (me_date M date)" "CHR 0x0A \<notin> set (me_date M date)" "subject_fits d"
    and "CHR 0x0D \<notin> set (me_boundary M)" "CHR 0x0A \<notin> set (me_boundary M)"
    and "\<not> contains_str (crlf @ htmlPayload d html) (crlf @ ''--'' @ me_boundary M)"
    and "files = filter (\<lambda>a. part_data a \<noteq> []) attachments" "files \<noteq> []" "\<forall>a \<in> set files. fields_fit a"
  shows "\<exists>rest pieces.
    cut (crlf @ crlf) (BuildRFC822 M d html date attachments) =
      Some (join_str crlf (headerLines M d date [''Content-Type: multipart/mixed; boundary='' @ me_boundary M]),
            ''--'' @ me_boundary M @ crlf @ rest) \<and>
    split_on (crlf @ ''--'' @ me_boundary M) rest =
      (''Content-Transfer-Encoding: 8bit'' @ crlf @ ''Content-Type: text/html; charset=UTF-8'' @ crlf @ crlf @
       htmlPayload d html) # pieces @ [''--'' @ crlf] \<and>
    list_all2 section_holds files pieces"
proof (intro exI conjI)
  let ?b = "me_boundary M"
  let ?cs = "[''Content-Type: multipart/mixed; boundary='' @ ?b]"
  let ?pieces = "html_piece (htmlPayload d html) # map file_piece files"
  let ?rest = "concat (map (\<lambda>p. p @ delimiter ?b) ?pieces) @ (''--'' @ crlf)"
  have "filter (\<lambda>a. 0 < length (part_data a)) attachments = files" using assms(7) by simp
  then have msg: "BuildRFC822 M d html date attachments =
      lines_text (headerLines M d date ?cs) @ crlf @ (''--'' @ ?b @ crlf @ ?rest)"
    using assms(8) messageHeader_lines [of M d date ?cs] multipartBody_pieces [of ?b "htmlPayload d html" files]
    by (simp add: BuildRFC822_def buildRFC822Multipart_def)
  have "\<forall>l \<in> set ?cs. one_line l" using assms(4,5) by (simp add: one_line_def)
  then show "cut (crlf @ crlf) (BuildRFC822 M d html date attachments) =
      Some (join_str crlf (headerLines M d date ?cs), ''--'' @ ?b @ crlf @ ?rest)"
    unfolding msg by (intro header_cut assms(1-3))
  have "cut (delimiter ?b) (''--'' @ crlf) = None" by (simp add: delimiter_def crlf_def)
  moreover have "cut (delimiter ?b) (html_piece (htmlPayload d html)) = None"
    using assms(6) unfolding contains_str_def delimiter_def [symmetric] not_not by (rule html_piece_free)
  ultimately have "\<forall>p \<in> set (?pieces @ [''--'' @ crlf]). cut (delimiter ?b) p = None"
    using assms(9) file_piece_free by auto
  from split_on_pieces [OF assms(4) this]
  have "split_on (delimiter ?b) ?rest = ?pieces @ [''--'' @ crlf]" .
  then show "split_on (crlf @ ''--'' @ ?b) ?rest =
      (''Content-Transfer-Encoding: 8bit'' @ crlf @ ''Content-Type: text/html; charset=UTF-8'' @ crlf @ crlf @
       htmlPayload d html) # map file_piece files @ [''--'' @ crlf]"
    by (simp add: delimiter_def html_piece_def)
  show "list_all2 section_holds files (map file_piece files)"
    using assms(9) file_piece_holds by (auto simp: list_all2_conv_all_nth)
qed

definition demo_file :: attachment_part where
  "demo_file = \<lparr>fileName = ''a.txt'', contentType = ''text/plain'', part_data = ''data''\<rparr>"

lemma attachments_in_message_witness:
  "\<exists>rest piece. split_on (crlf @ ''--b0undary'') rest =
      [''Content-Transfer-Encoding: 8bit'' @ crlf @ ''Content-Type: text/html; charset=UTF-8'' @ crlf @ crlf @ ''<p>Hi</p>'',
       piece, ''--'' @ crlf] \<and>
    section_holds demo_file piece \<and>
    (\<exists>h. cut (crlf @ crlf) (BuildRFC822 demo_mime demo_detail ''<p>Hi</p>'' (GoTime 0 0) [demo_file]) =
       Some (h, ''--b0undary'' @ crlf @ rest))"
proof -
  have html: "htmlPayload demo_detail ''<p>Hi</p>'' = ''<p>Hi</p>''" by (simp add: htmlPayload_def)
  have free: "\<not> contains_str (crlf @ ''<p>Hi</p>'') (crlf @ ''--b0undary'')" by code_simp
  have "fields_fit demo_file" "part_data demo_file \<noteq> []" by (simp_all add: fields_fit_def demo_file_def)
  then obtain rest pieces where r:
    "cut (crlf @ crlf) (BuildRFC822 demo_mime demo_detail ''<p>Hi</p>'' (GoTime 0 0) [demo_file]) =
      Some (join_str crlf (headerLines demo_mime demo_detail (GoTime 0 0) [''Content-Type: multipart/mixed; boundary='' @ ''b0undary'']),
            ''--'' @ ''b0undary'' @ crlf @ rest)"
    "split_on (crlf @ ''--'' @ ''b0undary'') rest =
      (''Content-Transfer-Encoding: 8bit'' @ crlf @ ''Content-Type: text/html; charset=UTF-8'' @ crlf @ crlf @ ''<p>Hi</p>'') #
       pieces @ [''--'' @ crlf]"
    "list_all2 section_holds [demo_file] pieces"
    using attachments_in_message [of demo_mime "GoTime 0 0" demo_detail "''<p>Hi</p>''" "[demo_file]" "[demo_file]"]
      demo_detail_subject free unfolding html demo_mime_sel by (force simp del: cut.simps)
  obtain piece where "pieces = [piece]" "section_holds demo_file piece"
    using r(3) by (auto simp: list_all2_Cons1)
  with r show ?thesis by (intro exI [of _ rest] exI [of _ piece]) (simp del: cut.simps)
qed

end
