(* ===== verification/Protocol_Log.thy ===== *)
theory Protocol_Log
  imports Smtp_Syntax
begin

text \<open>
  The protocol log, \<open>internal/protocollog/writer.go\<close>: \<open>LineWriter\<close>, which cuts what the
  IMAP library writes, in chunks of any size, into lines, and the redaction of passwords in
  IMAP and SMTP lines.  The writer's state is what it has buffered and the lines it has
  logged so far.
\<close>

section \<open>Redaction\<close>

definition redactIMAPLine :: "string \<Rightarrow> string" where
  "redactIMAPLine s =
     (case fields s of
        f0 # f1 # f2 # f3 # more \<Rightarrow>
          if equal_fold f1 ''LOGIN'' then f0 @ '' LOGIN '' @ f2 @ '' [redacted]''
          else if contains_str (to_upper s) ''AUTHENTICATE'' then ''[redacted AUTHENTICATE '' @ dots @ '']''
          else s
      | _ \<Rightarrow>
          if contains_str (to_upper s) ''AUTHENTICATE'' then ''[redacted AUTHENTICATE '' @ dots @ '']''
          else s)"

definition RedactSMTP :: "string \<Rightarrow> string" where
  "RedactSMTP line =
     (let u = to_upper line in
      if has_prefix u ''AUTH '' \<or> contains_str u ''AUTH '' then ''[redacted AUTH '' @ dots @ '']'' else line)"

section \<open>The line writer\<close>

record line_writer =
  pending :: string
  logged :: "string list"

definition maxWireLine :: nat where
  "maxWireLine = 8192"

definition emitLine :: "string \<Rightarrow> line_writer \<Rightarrow> line_writer" where
  "emitLine line w =
     (let s = trim_space line in
      if s = [] then w
      else let t = (if maxWireLine < length s then take maxWireLine s @ dots @ ''[truncated]'' else s)
           in w\<lparr>logged := logged w @ [redactIMAPLine t]\<rparr>)"

text \<open>The next line of the buffer: up to the first CR LF if there is one, else to the first LF.\<close>

definition next_line :: "string \<Rightarrow> (string \<times> string) option" where
  "next_line d =
     (case cut [CHR 0x0D, CHR 0x0A] d of
        Some r \<Rightarrow> Some r
      | None \<Rightarrow> cut_char CHR 0x0A d)"

lemma next_line_shorter: "next_line d = Some (l, r) \<Longrightarrow> length r < length d"
  by (auto simp: next_line_def dest!: cut_Some cut_char_Some split: option.splits)

function drain_lines :: "string \<Rightarrow> string list \<times> string" where
  "drain_lines d =
     (case next_line d of
        None \<Rightarrow> ([], d)
      | Some (line, rest) \<Rightarrow> (case drain_lines rest of (ls, r) \<Rightarrow> (line # ls, r)))"
  by pat_completeness auto
termination
  by (relation "measure length") (auto dest: next_line_shorter)

declare drain_lines.simps [simp del]

definition Write :: "string \<Rightarrow> line_writer \<Rightarrow> line_writer" where
  "Write p w =
     (if p = [] then w
      else case drain_lines (pending w @ p) of
        (ls, rest) \<Rightarrow> fold emitLine ls (w\<lparr>pending := rest\<rparr>))"

definition IMAPServerDebug :: line_writer where
  "IMAPServerDebug = \<lparr>pending = [], logged = []\<rparr>"

section \<open>Chunks\<close>

text \<open>A text in which every line feed follows a carriage return.\<close>

fun crlf_only :: "bool \<Rightarrow> string \<Rightarrow> bool" where
  "crlf_only cr [] = True"
| "crlf_only cr (c # s) = ((c = CHR 0x0A \<longrightarrow> cr) \<and> crlf_only (c = CHR 0x0D) s)"

lemma crlf_only_append: "crlf_only b (s @ t) \<Longrightarrow> crlf_only b s"
  by (induction s arbitrary: b) auto

lemma crlf_only_weaken: "crlf_only False s \<Longrightarrow> crlf_only b s"
  by (cases s) auto

lemma crlf_only_suffix: "crlf_only b (s @ [CHR 0x0D, CHR 0x0A] @ t) \<Longrightarrow> crlf_only False t"
  by (induction s arbitrary: b) auto

lemma cut_crlf_stable:
  "cut [CHR 0x0D, CHR 0x0A] s = Some (a, b) \<Longrightarrow> cut [CHR 0x0D, CHR 0x0A] (s @ t) = Some (a, b @ t)"
proof (induction s arbitrary: a)
  case (Cons c s)
  show ?case
  proof (cases s)
    case Nil
    with Cons.prems show ?thesis by simp
  next
    case (Cons d u)
    show ?thesis
    proof (cases "c = CHR 0x0D \<and> d = CHR 0x0A")
      case True
      with Cons Cons.prems show ?thesis by simp
    next
      case False
      with Cons Cons.prems obtain a' where "a = c # a'" "cut [CHR 0x0D, CHR 0x0A] s = Some (a', b)"
        by auto
      then have "cut [CHR 0x0D, CHR 0x0A] (s @ t) = Some (a', b @ t)" by (intro Cons.IH)
      with False Cons \<open>a = c # a'\<close> show ?thesis by auto
    qed
  qed
qed simp

lemma no_crlf_no_lf:
  "cut [CHR 0x0D, CHR 0x0A] s = None \<Longrightarrow> crlf_only b s \<Longrightarrow> (b \<longrightarrow> hd (s @ ''x'') \<noteq> CHR 0x0A) \<Longrightarrow>
   CHR 0x0A \<notin> set s"
proof (induction s arbitrary: b)
  case (Cons c s)
  have "cut [CHR 0x0D, CHR 0x0A] s = None" using Cons.prems(1) by (auto split: if_splits)
  moreover have "crlf_only (c = CHR 0x0D) s" "c \<noteq> CHR 0x0A" using Cons.prems by auto
  moreover have "c = CHR 0x0D \<longrightarrow> hd (s @ ''x'') \<noteq> CHR 0x0A"
    using Cons.prems(1) by (cases s) (auto split: if_splits)
  ultimately show ?case using Cons.IH by auto
qed simp

lemma next_line_crlf:
  "crlf_only False s \<Longrightarrow> next_line s = cut [CHR 0x0D, CHR 0x0A] s"
  using no_crlf_no_lf [of s False] cut_char_None_iff [of "CHR 0x0A" s]
  by (simp add: next_line_def split: option.split)

lemma drain_append:
  "crlf_only False (s @ t) \<Longrightarrow> drain_lines s = (ls, r) \<Longrightarrow>
   drain_lines (s @ t) = (case drain_lines (r @ t) of (ls', r') \<Rightarrow> (ls @ ls', r')) \<and>
   crlf_only False (r @ t)"
proof (induction s arbitrary: ls r rule: drain_lines.induct)
  case (1 s)
  have n: "next_line s = cut [CHR 0x0D, CHR 0x0A] s" "next_line (s @ t) = cut [CHR 0x0D, CHR 0x0A] (s @ t)"
    using "1.prems"(1) by (blast intro: next_line_crlf crlf_only_append)+
  show ?case
  proof (cases "cut [CHR 0x0D, CHR 0x0A] s")
    case None
    then have "drain_lines s = ([], s)" using n by (subst drain_lines.simps) simp
    with "1.prems" show ?thesis by simp
  next
    case (Some q)
    obtain l u where q: "q = (l, u)" by (cases q)
    obtain ls1 r1 where d: "drain_lines u = (ls1, r1)" by (cases "drain_lines u")
    have "drain_lines s = (l # ls1, r1)" using n Some q d by (subst drain_lines.simps) simp
    then have r: "ls = l # ls1" "r = r1" using "1.prems"(2) by auto
    have "s @ t = l @ [CHR 0x0D, CHR 0x0A] @ u @ t" using cut_Some Some q by fastforce
    then have "crlf_only False (u @ t)" using "1.prems"(1) crlf_only_suffix by metis
    then have ih: "drain_lines (u @ t) = (case drain_lines (r1 @ t) of (ls', r') \<Rightarrow> (ls1 @ ls', r'))"
        "crlf_only False (r1 @ t)"
      using "1.IH" [OF _ refl, of l u ls1 r1] n Some q d by auto
    have "drain_lines (s @ t) = (case drain_lines (u @ t) of (ls, r) \<Rightarrow> (l # ls, r))"
      using n(2) cut_crlf_stable [of s l u t] Some q by (subst drain_lines.simps) simp
    with ih r show ?thesis by (auto split: prod.splits)
  qed
qed

lemma emitLine_pending [simp]:
  "emitLine l (w\<lparr>pending := b\<rparr>) = (emitLine l w)\<lparr>pending := b\<rparr>"
  "pending (emitLine l w) = pending w"
  by (simp_all add: emitLine_def Let_def)

lemma fold_emitLine_pending:
  "fold emitLine ls (w\<lparr>pending := b\<rparr>) = (fold emitLine ls w)\<lparr>pending := b\<rparr>"
  by (induction ls arbitrary: w) simp_all

text \<open>
  C35: For a stream whose lines end in CR LF, what is logged does not depend on how the
  library cuts the stream into writes, and nothing is lost or logged twice.
\<close>

theorem Write_chunks:
  assumes "crlf_only False (pending w @ a @ b)"
  shows "Write b (Write a w) = Write (a @ b) w"
proof -
  obtain ls r where d: "drain_lines (pending w @ a) = (ls, r)" by (cases "drain_lines (pending w @ a)")
  obtain ls' r' where d': "drain_lines (r @ b) = (ls', r')" by (cases "drain_lines (r @ b)")
  have "drain_lines ((pending w @ a) @ b) = (ls @ ls', r')"
    using drain_append [of "pending w @ a" b ls r] assms d d' by simp
  then show ?thesis
    by (auto simp: Write_def d d' fold_emitLine_pending)
qed

lemma Write_chunks_witness:
  "Write (''k'' @ [CHR 0x0D, CHR 0x0A]) (Write ''o'' IMAPServerDebug) =
   Write (''o'' @ ''k'' @ [CHR 0x0D, CHR 0x0A]) IMAPServerDebug"
  using Write_chunks [of IMAPServerDebug "''o''" "''k'' @ [CHR 0x0D, CHR 0x0A]"]
  by (simp add: IMAPServerDebug_def)

section \<open>What the redaction hides\<close>

lemma fields_acc_word:
  "\<forall>c \<in> set t. visible c \<Longrightarrow> rev acc @ t \<noteq> [] \<Longrightarrow>
   fields_acc acc (t @ CHR '' '' # s) = (rev acc @ t) # Go_Strings.fields s"
proof (induction t arbitrary: acc)
  case Nil
  have "space_len (CHR '' '' # s) = 1" by (cases "CHR '' '' # s" rule: space_len.cases) (auto simp: ascii_space_def)
  with Nil show ?case by (simp add: Go_Strings.fields_def Let_def)
next
  case (Cons c t)
  then show ?case using Cons.IH [of "c # acc"] by (simp add: visible_space_len Let_def)
qed

lemma fields_word: "t \<noteq> [] \<Longrightarrow> \<forall>c \<in> set t. visible c \<Longrightarrow> Go_Strings.fields (t @ CHR '' '' # s) = t # Go_Strings.fields s"
  using fields_acc_word [of t "[]" s] by (simp add: Go_Strings.fields_def)

definition is_word :: "string \<Rightarrow> bool" where
  "is_word t \<longleftrightarrow> t \<noteq> [] \<and> (\<forall>c \<in> set t. visible c)"

text \<open>
  What is logged of a LOGIN command, in any mix of cases, does not depend on the
  password: whatever follows the user name is replaced.
\<close>

theorem login_password_hidden:
  assumes "is_word t" "is_word l" "is_word u" "Go_Strings.fields p \<noteq> []" "equal_fold l ''LOGIN''"
  shows "redactIMAPLine (t @ CHR '' '' # l @ CHR '' '' # u @ CHR '' '' # p) =
    t @ '' LOGIN '' @ u @ '' [redacted]''"
proof -
  have "Go_Strings.fields (t @ CHR '' '' # l @ CHR '' '' # u @ CHR '' '' # p) = t # l # u # Go_Strings.fields p"
    using assms(1-3) by (simp add: fields_word is_word_def)
  moreover obtain f more where "Go_Strings.fields p = f # more" using assms(4) by (cases "Go_Strings.fields p") auto
  ultimately show ?thesis using assms(5) by (simp add: redactIMAPLine_def)
qed

lemma login_password_hidden_witness:
  "redactIMAPLine (''a1'' @ CHR '' '' # ''LOGIN'' @ CHR '' '' # ''bob'' @ CHR '' '' # ''s x'') =
     ''a1'' @ '' LOGIN '' @ ''bob'' @ '' [redacted]''"
proof (rule login_password_hidden)
  show "Go_Strings.fields ''s x'' \<noteq> []" using fields_word [of "''s''" "''x''"] by (simp add: visible_def)
qed (simp_all add: is_word_def visible_def)

text \<open>Upper case works on each side of an ASCII byte separately.\<close>

lemma decode_rune_sep: "byte c < 128 \<Longrightarrow> decode_rune d (ds @ c # t) = decode_rune d ds"
proof -
  assume "byte c < 128"
  then have "\<not> is_cont (byte c)" "\<not> second_ok b (byte c)" for b
    by (auto simp: is_cont_def second_ok_def)
  then show ?thesis by (cases ds; cases "tl ds"; cases "tl (tl ds)") (auto simp: decode_rune_def Let_def)
qed

lemma runes_sep: "byte c < 128 \<Longrightarrow> runes (s @ c # t) = runes s @ byte c # runes t"
proof (induction s rule: runes.induct)
  case (2 d ds)
  obtain r w where rw: "decode_rune d ds = (r, w)" by (cases "decode_rune d ds")
  then have "w - 1 \<le> length ds" using decode_rune_width [OF rw] by arith
  then have "drop (w - 1) (ds @ c # t) = drop (w - 1) ds @ c # t" by simp
  moreover have "decode_rune d (ds @ c # t) = (r, w)" using rw 2(2) by (simp add: decode_rune_sep)
  ultimately show ?case using 2 rw by simp
qed simp

lemma to_upper_blank: "to_upper (s @ CHR '' '' # t) = to_upper s @ CHR '' '' # to_upper t"
proof -
  have "upper_rune 32 = 32" by (simp add: upper_rune_def)
  moreover have "char_of (32 :: nat) = CHR '' ''" by code_simp
  ultimately show ?thesis by (simp add: to_upper_def runes_sep encode_runes_def)
qed

text \<open>
  Every line that the SMTP server takes for an AUTH command with an argument is logged
  as the same fixed text, so the credentials it carries do not reach the log.
\<close>

theorem smtp_auth_hidden:
  assumes "fst (parseLine line) = ''AUTH''" "CHR '' '' \<in> set line"
  shows "RedactSMTP line = ''[redacted AUTH '' @ dots @ '']''"
proof -
  obtain v a where c: "cut_char CHR '' '' line = Some (v, a)"
    using assms(2) cut_char_None_iff [of "CHR '' ''" line] by fastforce
  then have "to_upper v = ''AUTH''" using assms(1) by (simp add: parseLine_def)
  moreover have "line = v @ CHR '' '' # a" using cut_char_Some [OF c] by simp
  ultimately have "to_upper line = ''AUTH'' @ CHR '' '' # to_upper a" by (simp add: to_upper_blank)
  then show ?thesis by (simp add: RedactSMTP_def)
qed

lemma smtp_auth_hidden_witness: "RedactSMTP ''auth PLAIN AHUAcA=='' = ''[redacted AUTH '' @ dots @ '']''"
  by (rule smtp_auth_hidden) (simp_all add: parseLine_def to_upper_Cons upper_char_letters)

text \<open>
  The second line of an AUTH exchange, which carries nothing but the encoded
  credentials, is logged in full: no base64 text is changed by the redaction.
\<close>

theorem smtp_continuation_logged: "RedactSMTP (b64_encode s) = b64_encode s"
proof -
  have "to_upper (b64_encode s) = map upper_char (b64_encode s)"
    by (rule to_upper_ascii [OF base64.enc_ascii])
  moreover have "upper_char c \<noteq> CHR '' ''" if "visible c" for c
  proof -
    have "33 \<le> upper_rune (byte c)" "upper_rune (byte c) < 256"
      using that by (auto simp: visible_def upper_rune_def)
    then have "byte (upper_char c) \<noteq> byte CHR '' ''" by (simp add: upper_char_def)
    then show ?thesis by metis
  qed
  ultimately have no: "CHR '' '' \<notin> set (to_upper (b64_encode s))"
    using b64_encode_visible by fastforce
  have "cut ''AUTH '' (to_upper (b64_encode s)) = None"
  proof (rule ccontr)
    assume "cut ''AUTH '' (to_upper (b64_encode s)) \<noteq> None"
    then obtain x y where "to_upper (b64_encode s) = x @ ''AUTH '' @ y" using cut_Some by fastforce
    with no show False by simp
  qed
  moreover have "\<not> has_prefix (to_upper (b64_encode s)) ''AUTH ''"
    using no unfolding has_prefix_iff by auto
  ultimately show ?thesis by (simp add: RedactSMTP_def contains_str_def)
qed

section \<open>Bare line feeds\<close>

definition noop_lf :: string where "noop_lf = ''a NOOP'' @ [CHR 0x0A]"
definition login_crlf :: string where "login_crlf = ''b LOGIN u p'' @ [CHR 0x0D, CHR 0x0A]"

lemma noop_login_lines:
  "drain_lines noop_lf = ([''a NOOP''], [])" "drain_lines login_crlf = ([''b LOGIN u p''], [])"
  "drain_lines (noop_lf @ login_crlf) = ([''a NOOP'' @ CHR 0x0A # ''b LOGIN u p''], [])"
  unfolding noop_lf_def login_crlf_def
  by (subst drain_lines.simps, simp add: drain_lines.simps next_line_def)+

lemma trims:
  "trim_space ''a NOOP'' = ''a NOOP''" "trim_space ''b LOGIN u p'' = ''b LOGIN u p''"
  "trim_space (''a NOOP'' @ CHR 0x0A # ''b LOGIN u p'') = ''a NOOP'' @ CHR 0x0A # ''b LOGIN u p''"
  by (rule trim_space_visible, simp_all add: visible_def)+

lemma redactions:
  "redactIMAPLine ''a NOOP'' = ''a NOOP''" "redactIMAPLine ''b LOGIN u p'' = ''b LOGIN u [redacted]''"
  "redactIMAPLine (''a NOOP'' @ CHR 0x0A # ''b LOGIN u p'') = ''a NOOP'' @ CHR 0x0A # ''b LOGIN u p''"
  by (simp_all add: redactIMAPLine_def go_str Let_def)

text \<open>
  Without that the log depends on the chunks, and the password with it: after a bare line
  feed a LOGIN that arrives in the same write as the line before it is logged in full, while
  in a write of its own it is redacted.
\<close>

theorem Write_bare_lf:
  "logged (Write login_crlf (Write noop_lf IMAPServerDebug)) = [''a NOOP'', ''b LOGIN u [redacted]''] \<and>
   logged (Write (noop_lf @ login_crlf) IMAPServerDebug) = [''a NOOP'' @ CHR 0x0A # ''b LOGIN u p'']"
proof -
  have "noop_lf \<noteq> []" "login_crlf \<noteq> []" by (simp_all add: noop_lf_def login_crlf_def)
  moreover have "emitLine ''a NOOP'' w = w\<lparr>logged := logged w @ [''a NOOP'']\<rparr>"
    "emitLine ''b LOGIN u p'' w = w\<lparr>logged := logged w @ [''b LOGIN u [redacted]'']\<rparr>"
    "emitLine (''a NOOP'' @ CHR 0x0A # ''b LOGIN u p'') w =
      w\<lparr>logged := logged w @ [''a NOOP'' @ CHR 0x0A # ''b LOGIN u p'']\<rparr>" for w
    unfolding emitLine_def trims Let_def redactions by (simp_all add: maxWireLine_def redactions [simplified])
  ultimately show ?thesis
    by (simp add: Write_def IMAPServerDebug_def noop_login_lines del: append_Cons)
qed

end
