(* ===== verification/Outbound.thy ===== *)
theory Outbound
  imports Login_Handlers Rfc822 Smtp_Transactions
begin

text \<open>
  Submitted mail: \<open>internal/smtpbridge/parse_outbound.go\<close>, which takes a message apart into
  what the remote API wants, and \<open>mailHandler\<close> of \<open>submit.go\<close>, which the SMTP server
  calls with a message and which sends it through the client of the connection.

  Reading the MIME structure is the library's (\<open>go-message\<close> and \<open>mime\<close>): it is an argument
  that gives, for a message it can read, the header lookup and the parts in the order of the
  walk, each with its media type, disposition, parameters and decoded body.
\<close>

section \<open>Parts of a message\<close>

record mime_part =
  mediaType :: string
  ctParams :: "string \<rightharpoonup> string"
  disp :: string
  dispParams :: "string \<rightharpoonup> string"
  part_body :: "string option"

record entity =
  Get :: "string \<Rightarrow> string"
  parts :: "mime_part list"

definition decodeRFC2047Filename :: "string \<Rightarrow> string" where
  "decodeRFC2047Filename s0 =
     (let s = trim_space s0 in
      if 2 \<le> length s \<and> hd s = CHR 0x22 \<and> last s = CHR 0x22 then butlast (tl s) else s)"

definition pickFilename :: "(string \<rightharpoonup> string) \<Rightarrow> (string \<rightharpoonup> string) \<Rightarrow> string" where
  "pickFilename dp cp =
     (case dp ''filename'' of
        Some (x # v) \<Rightarrow> decodeRFC2047Filename (x # v)
      | _ \<Rightarrow> (case cp ''name'' of
          Some (x # v) \<Rightarrow> decodeRFC2047Filename (x # v)
        | _ \<Rightarrow> []))"

definition shouldEncodeAsAttachment :: "string \<Rightarrow> string \<Rightarrow> string \<Rightarrow> bool" where
  "shouldEncodeAsAttachment dis fname mediatype \<longleftrightarrow>
     (let d = to_lower (trim_space dis); mt = to_lower mediatype in
      d = ''attachment'' \<or>
      (d = ''inline'' \<and> fname \<noteq> [] \<and> \<not> has_prefix mt ''text/'') \<or>
      (fname \<noteq> [] \<and> (has_prefix mt ''image/'' \<or> has_prefix mt ''audio/'' \<or> has_prefix mt ''video/'')))"

text \<open>\<open>exts\<close> is \<open>mime.ExtensionsByType\<close>, whose table depends on the system.\<close>

definition guessFilename :: "(string \<Rightarrow> string list) \<Rightarrow> string \<Rightarrow> string" where
  "guessFilename exts mediatype =
     (let mt = to_lower mediatype in
      if has_prefix mt ''image/jpeg'' then ''image.jpg''
      else if has_prefix mt ''image/png'' then ''image.png''
      else if has_prefix mt ''image/gif'' then ''image.gif''
      else if has_prefix mt ''image/webp'' then ''image.webp''
      else case exts mediatype of e # _ \<Rightarrow> ''attachment'' @ e | [] \<Rightarrow> ''attachment.bin'')"

text \<open>\<open>filepath.Base\<close> on a system with slashes.\<close>

definition path_base :: "string \<Rightarrow> string" where
  "path_base p =
     (if p = [] then ''.''
      else let q = trim_right_char CHR ''/'' p;
               r = (case cut_last_char CHR ''/'' q of None \<Rightarrow> q | Some (_, b) \<Rightarrow> b)
           in if r = [] then ''/'' else r)"

definition basenameOnly :: "string \<Rightarrow> string" where
  "basenameOnly name =
     (let b = path_base (replace_char (CHR 0x5C) ''/'' name) in
      if b = ''.'' \<or> b = ''/'' then [] else b)"

definition attachPayload :: "(string \<Rightarrow> string list) \<Rightarrow> string \<Rightarrow> string \<Rightarrow> string \<Rightarrow> attach" where
  "attachPayload exts fname mediatype raw =
     (let fn = basenameOnly fname in
      \<lparr>filename = (if fn = [] then guessFilename exts mediatype else fn), content = b64_encode raw\<rparr>)"

definition htmlEscPlain :: "string \<Rightarrow> string" where
  "htmlEscPlain s =
     replace_char CHR ''>'' ''&gt;'' (replace_char CHR ''<'' ''&lt;'' (replace_char CHR ''&'' ''&amp;'' s))"

section \<open>The reply reference\<close>

text \<open>\<open>(?i)<xyecoc-mail-(\d+)@mailbridge>\<close>, group 1.\<close>

definition mailBridgeInReply_at :: "string \<Rightarrow> string option" where
  "mailBridgeInReply_at s =
     (case strip_ci ''<xyecoc-mail-'' s of
        None \<Rightarrow> None
      | Some r \<Rightarrow>
          (let digits = takeWhile is_digit r in
           if digits = [] then None
           else case strip_ci ''@mailbridge>'' (dropWhile is_digit r) of
             None \<Rightarrow> None
           | Some _ \<Rightarrow> Some digits))"

definition reMailBridgeInReply :: "string \<Rightarrow> string option" where
  "reMailBridgeInReply s = leftmost mailBridgeInReply_at s"

definition extractReplyMailID :: "(string \<Rightarrow> string) \<Rightarrow> string" where
  "extractReplyMailID get =
     (let v = trim_space (get ''X-Remote-Mail-Id'') in
      if v \<noteq> [] then v
      else case reMailBridgeInReply (get ''In-Reply-To'') of
        Some d \<Rightarrow> d
      | None \<Rightarrow> (case reMailBridgeInReply (get ''References'') of Some d \<Rightarrow> d | None \<Rightarrow> []))"

section \<open>Taking a message apart\<close>

definition subject_line :: "string \<Rightarrow> string \<Rightarrow> string" where
  "subject_line ln subject =
     (if has_prefix (to_lower ln) ''subject:'' then
        (case cut_char CHR '':'' ln of Some (_, v) \<Rightarrow> trim_space v | None \<Rightarrow> subject)
      else subject)"

definition parseMailFromSMTPData :: "string \<Rightarrow> string \<times> string" where
  "parseMailFromSMTPData s =
     (let (hdr, body) =
        (case cut (crlf @ crlf) s of
           Some (h, b) \<Rightarrow> (h, trim_space b)
         | None \<Rightarrow> (case cut (nl @ nl) s of
             Some (h, b) \<Rightarrow> (h, trim_space b)
           | None \<Rightarrow> (s, [])));
          subject = fold subject_line (split_char CHR 0x0A hdr) []
      in (if subject = [] then ''(no subject)'' else subject,
          if body = [] then ''<html><body></body></html>'' else body))"

record walked =
  htmlPart :: string
  plainPart :: string
  media :: "attach list"

definition walk_part :: "(string \<Rightarrow> string list) \<Rightarrow> mime_part \<Rightarrow> walked \<Rightarrow> walked" where
  "walk_part exts p a =
     (let fname = pickFilename (dispParams p) (ctParams p); mt = mediaType p in
      case part_body p of
        None \<Rightarrow> a
      | Some b \<Rightarrow>
          if b = [] then a
          else if has_prefix mt ''text/html'' then
            (if equal_fold (disp p) ''attachment'' then a\<lparr>media := media a @ [attachPayload exts fname mt b]\<rparr>
             else a\<lparr>htmlPart := b\<rparr>)
          else if has_prefix mt ''text/plain'' then
            (if equal_fold (disp p) ''attachment'' then a\<lparr>media := media a @ [attachPayload exts fname mt b]\<rparr>
             else if plainPart a = [] then a\<lparr>plainPart := b\<rparr> else a)
          else if shouldEncodeAsAttachment (disp p) fname mt then
            a\<lparr>media := media a @
                [attachPayload exts (if fname = [] then guessFilename exts mt else fname) mt b]\<rparr>
          else a)"

record outbound =
  o_subject :: string
  o_html :: string
  o_reply :: string
  o_attaches :: "attach list"

definition parseOutboundMail ::
    "(string \<Rightarrow> entity option) \<Rightarrow> (string \<Rightarrow> string list) \<Rightarrow> string \<Rightarrow> outbound" where
  "parseOutboundMail read_message exts raw =
     (case read_message raw of
        None \<Rightarrow> (case parseMailFromSMTPData raw of
          (subj, body) \<Rightarrow> \<lparr>o_subject = subj, o_html = body, o_reply = [], o_attaches = []\<rparr>)
      | Some e \<Rightarrow>
          (let a = fold (walk_part exts) (parts e) \<lparr>htmlPart = [], plainPart = [], media = []\<rparr>;
               subject = Get e ''Subject'';
               html = (if trim_space (htmlPart a) \<noteq> [] then trim_space (htmlPart a)
                       else if trim_space (plainPart a) \<noteq> [] then ''<pre>'' @ htmlEscPlain (plainPart a) @ ''</pre>''
                       else snd (parseMailFromSMTPData raw))
           in \<lparr>o_subject = (if trim_space subject = [] then ''(no subject)'' else subject),
               o_html = html, o_reply = extractReplyMailID (Get e), o_attaches = media a\<rparr>))"

section \<open>The mail handler\<close>

definition normalizeSMTPRecipients :: "string list \<Rightarrow> string \<Rightarrow> string" where
  "normalizeSMTPRecipients rcpt defaultDomain =
     join_str '','' (map (\<lambda>a. ExpandLocalPart a defaultDomain) (filter (\<lambda>a. a \<noteq> []) (map trim_space rcpt)))"

definition mailHandler ::
    "config \<Rightarrow> (string \<Rightarrow> entity option) \<Rightarrow> (string \<Rightarrow> string list) \<Rightarrow> 'w service
     \<Rightarrow> net_addr \<Rightarrow> string list \<Rightarrow> string \<Rightarrow> 'w bridge \<Rightarrow> go_error option \<times> 'w bridge" where
  "mailHandler cfg read_message exts svc addr to data s =
     (case tokens s (addr_string addr) of
        None \<Rightarrow> (Some (ErrText ''530 5.7.0 Authentication required''), s)
      | Some c \<Rightarrow>
          (let o1 = parseOutboundMail read_message exts data;
               recipients = normalizeSMTPRecipients to (DefaultMailDomain cfg) in
           case (if o_reply o1 \<noteq> [] then
                   DoReplyConfirm svc c (o_reply o1) (o_html o1) (o_attaches o1) (MailComposeCurrentLang cfg) (remote s)
                 else
                   Do svc c (emptyRequest\<lparr>Service := ''mail'', Action := ''message-new'',
                     Data := [''subject'' \<mapsto> JStr (o_subject o1), ''message'' \<mapsto> JStr (o_html o1),
                              ''users'' \<mapsto> JStr recipients,
                              ''attaches'' \<mapsto> JArr (map attach_json (o_attaches o1))],
                     CurrentLang := MailComposeCurrentLang cfg, Token := cli_token c\<rparr>) (remote s)) of
             (Inl _, w) \<Rightarrow> (Some (ErrText ''451 4.3.0 upstream error''), s\<lparr>remote := w\<rparr>)
           | (Inr resp, w) \<Rightarrow>
               if \<not> MailMutationOK (Some resp) then
                 (Some (ErrText (if contains_str (to_lower (Message resp)) ''denied''
                                 then ''554 5.7.1 policy rejection'' else ''554 5.5.0 send failed'')),
                  s\<lparr>remote := w\<rparr>)
               else (None, s\<lparr>remote := w\<rparr>)))"

section \<open>The server of the bridge\<close>

text \<open>The SMTP server that \<open>ListenTCP\<close> starts; its handlers act on the state of the bridge.\<close>

definition smtpServer ::
    "config \<Rightarrow> (string \<Rightarrow> entity option) \<Rightarrow> (string \<Rightarrow> string list) \<Rightarrow> 'w service \<Rightarrow> (nat \<Rightarrow> int)
     \<Rightarrow> 'w bridge server" where
  "smtpServer cfg read_message exts svc clock =
     \<lparr>Appname = ''mailbridge'',
      AuthHandler = Some (\<lambda>addr _ u p _ s. authHandler cfg svc clock addr u p s),
      AuthMechs = [''PLAIN'' \<mapsto> True, ''LOGIN'' \<mapsto> True, ''CRAM-MD5'' \<mapsto> False],
      AuthRequired = True, DisableReverseDNS = False,
      Handler = Some (\<lambda>addr _ to data s. mailHandler cfg read_message exts svc addr to data s),
      HandlerRcpt = None, Hostname = ''mailbridge'', MaxSize = 25 * 1024 * 1024, MaxRecipients = 0,
      MsgIDHandler = None, TLSConfigured = False, TLSRequired = False, XClientAllowed = []\<rparr>"

section \<open>Errors\<close>

lemma outbound_error_formats:
  "checkErrFormat ''530 5.7.0 Authentication required''" "checkErrFormat ''451 4.3.0 upstream error''"
  "checkErrFormat ''554 5.7.1 policy rejection''" "checkErrFormat ''554 5.5.0 send failed''"
  by (simp only: checkErrFormat.simps, simp add: is_digit_def re_space_def)+

text \<open>
  Every error of the bridge's mail handler has the form of an SMTP reply, so the server
  passes it to the client word for word instead of the general 451.
\<close>

theorem mail_errors_shown:
  assumes "mailHandler cfg read_message exts svc addr to data s = (Some e, t)"
  shows "handlerErrorText e = error_text e"
proof -
  have "error_text e \<in> {''530 5.7.0 Authentication required'', ''451 4.3.0 upstream error'',
      ''554 5.7.1 policy rejection'', ''554 5.5.0 send failed''}"
    using assms unfolding mailHandler_def Let_def
    by (auto simp del: append.simps split: option.splits prod.splits sum.splits if_split_asm)
  then have "checkErrFormat (error_text e)"
    by (elim insertE emptyE) (simp_all only: outbound_error_formats)
  then show ?thesis by (simp add: handlerErrorText_def)
qed

section \<open>What is sent\<close>

text \<open>
  The whole request that submits a message for a client, field by field: a new message with the
  subject, the HTML, the recipients of the envelope completed with the default domain and the
  files, or, when the message names the mail that it replies to, a reply to that mail.
\<close>

definition submission ::
    "config \<Rightarrow> (string \<Rightarrow> entity option) \<Rightarrow> (string \<Rightarrow> string list) \<Rightarrow> client \<Rightarrow> string list \<Rightarrow> string \<Rightarrow> request" where
  "submission cfg rm exts c to data =
     (let m = parseOutboundMail rm exts data; files = JArr (map attach_json (o_attaches m));
          lang = MailComposeCurrentLang cfg in
      if o_reply m = [] then
        \<lparr>Service = ''mail'', Action = ''message-new'', Token = cli_token c,
         CurrentLang = (if lang = [] then cli_Lang c else lang), Params = Map.empty,
         Data = [''subject'' \<mapsto> JStr (o_subject m), ''message'' \<mapsto> JStr (o_html m),
                 ''users'' \<mapsto> JStr (normalizeSMTPRecipients to (DefaultMailDomain cfg)), ''attaches'' \<mapsto> files],
         Page = 0, LastMailID = 0, SearchText = [], DraftID = None, Draft = None, PageID = None\<rparr>
      else
        \<lparr>Service = ''mail'', Action = ''reply-confirm'', Token = cli_token c,
         CurrentLang = (if trim_space lang = [] then cli_Lang c else lang), Params = Map.empty,
         Data = [''mail_id'' \<mapsto> JStr (o_reply m), ''message'' \<mapsto> JStr (o_html m), ''attaches'' \<mapsto> files],
         Page = 0, LastMailID = 0, SearchText = [], DraftID = Some JNull, Draft = None, PageID = None\<rparr>)"

lemma submission_Service [simp]: "Service (submission cfg rm exts c to data) = ''mail''"
  by (simp add: submission_def Let_def)

text \<open>
  For a connection that has logged in, a submitted message costs exactly that one request.
  The clients are left as they are.
\<close>

lemma fill_request_eq:
  "fill_request c r = r\<lparr>Token := (if Token r = [] then cli_token c else Token r),
     CurrentLang := (if CurrentLang r = [] then cli_Lang c else CurrentLang r)\<rparr>"
  by (simp add: fill_request_def Let_def)

lemma Do_recording:
  "fst (snd (Do (recording svc) c r w)) = fst w @ [fill_request c r]"
  by (simp add: Do_def recording_def split: prod.split)

lemma mailHandler_request:
  assumes "tokens s (addr_string addr) = Some c" "cli_token c \<noteq> []"
  shows "fst (remote (snd (mailHandler cfg rm exts (recording svc) addr to data s))) =
      fst (remote s) @ [submission cfg rm exts c to data]" (is ?req)
    and "tokens (snd (mailHandler cfg rm exts (recording svc) addr to data s)) = tokens s" (is ?tok)
proof -
  define m where "m = parseOutboundMail rm exts data"
  define call where "call =
    (if o_reply m \<noteq> [] then
       DoReplyConfirm (recording svc) c (o_reply m) (o_html m) (o_attaches m) (MailComposeCurrentLang cfg) (remote s)
     else
       Do (recording svc) c (emptyRequest\<lparr>Service := ''mail'', Action := ''message-new'',
         Data := [''subject'' \<mapsto> JStr (o_subject m), ''message'' \<mapsto> JStr (o_html m),
                  ''users'' \<mapsto> JStr (normalizeSMTPRecipients to (DefaultMailDomain cfg)),
                  ''attaches'' \<mapsto> JArr (map attach_json (o_attaches m))],
         CurrentLang := MailComposeCurrentLang cfg, Token := cli_token c\<rparr>) (remote s))"
  have call: "fst (snd call) = fst (remote s) @ [submission cfg rm exts c to data]"
  proof (cases "o_reply m = []")
    case True
    with True assms(2) show ?thesis
      by (simp add: call_def Do_recording fill_request_eq submission_def m_def [symmetric] Let_def emptyRequest_def)
  next
    case False
    then show ?thesis
      by (simp add: call_def DoReplyConfirm_def recording_def submission_def m_def [symmetric] Let_def
          emptyRequest_def fun_upd_twist split: prod.split)
  qed
  have h: "mailHandler cfg rm exts (recording svc) addr to data s =
     (case call of
        (Inl _, w) \<Rightarrow> (Some (ErrText ''451 4.3.0 upstream error''), s\<lparr>remote := w\<rparr>)
      | (Inr resp, w) \<Rightarrow>
          if \<not> MailMutationOK (Some resp) then
            (Some (ErrText (if contains_str (to_lower (Message resp)) ''denied''
                            then ''554 5.7.1 policy rejection'' else ''554 5.5.0 send failed'')),
             s\<lparr>remote := w\<rparr>)
          else (None, s\<lparr>remote := w\<rparr>))"
    by (simp add: mailHandler_def assms(1) call_def m_def Let_def)
  show ?req ?tok unfolding h using call by (auto split: prod.split sum.split)
qed

section \<open>Replies\<close>

lemma mailBridge_at_other: "c \<noteq> CHR ''<'' \<Longrightarrow> mailBridgeInReply_at (c # s) = None"
  by (simp add: mailBridgeInReply_at_def)

lemma leftmost_skip:
  "\<forall>c \<in> set pre. \<forall>t. f (c # t) = None \<Longrightarrow> leftmost f (pre @ s) = leftmost f s"
  by (induction pre) auto

lemma itoa_nonneg: "0 \<le> n \<Longrightarrow> itoa n = nat_str (nat n)"
  by (simp add: itoa_def)

lemma digits_then:
  "\<forall>c \<in> set d. is_digit c \<Longrightarrow> \<not> is_digit x \<Longrightarrow>
   takeWhile is_digit (d @ x # s) = d \<and> dropWhile is_digit (d @ x # s) = x # s"
  by (induction d) auto

text \<open>
  C39: The reference survives the round trip through a mail client: when a reply quotes the
  Message-ID under which the IMAP side showed mail \<open>n\<close>, with whatever the client puts around
  it, the SMTP side sends the reply for mail \<open>n\<close>.
\<close>

theorem reply_reference_roundtrip:
  assumes "0 \<le> n" "CHR ''<'' \<notin> set pre" "trim_space (get ''X-Remote-Mail-Id'') = []"
    and "get ''In-Reply-To'' = pre @ ''<'' @ remoteBridgeMessageID n @ ''>'' @ post"
  shows "extractReplyMailID get = itoa n"
proof -
  have d: "\<forall>c \<in> set (itoa n). is_digit c" using assms(1) nat_str_digits by (simp add: itoa_nonneg)
  have "\<not> is_digit CHR ''@''" by (simp add: is_digit_def)
  note dt = digits_then [OF d this, of "''mailbridge>'' @ post"]
  have "mailBridgeInReply_at (''<'' @ remoteBridgeMessageID n @ ''>'' @ post) = Some (itoa n)"
    using dt strip_ci_self [of "''<xyecoc-mail-''"] strip_ci_self [of "''@mailbridge>''" post]
    by (simp add: mailBridgeInReply_at_def remoteBridgeMessageID_def Let_def)
  moreover have skip: "\<forall>c \<in> set pre. \<forall>t. mailBridgeInReply_at (c # t) = None"
    using assms(2) mailBridge_at_other by metis
  ultimately have "reMailBridgeInReply (get ''In-Reply-To'') = Some (itoa n)"
    unfolding reMailBridgeInReply_def assms(4) using skip by (simp add: leftmost_skip leftmost_here)
  then show ?thesis using assms(3) by (simp add: extractReplyMailID_def)
qed

lemma reply_reference_roundtrip_witness:
  "extractReplyMailID ((\<lambda>_. [])(''In-Reply-To'' := '' '' @ ''<'' @ remoteBridgeMessageID 17 @ ''>'' @ [])) = itoa 17"
  by (rule reply_reference_roundtrip [of _ "'' ''" _ "[]"]) simp_all

section \<open>Text and files\<close>

text \<open>
  A plain-text message cannot bring markup into the HTML that is sent: after the escape
  no angle bracket is left.
\<close>

theorem plain_text_escaped:
  "CHR ''<'' \<notin> set (htmlEscPlain s) \<and> CHR ''>'' \<notin> set (htmlEscPlain s)"
  using set_replace_char [of "CHR ''>''" "''&gt;''"] set_replace_char [of "CHR ''<''" "''&lt;''"]
  unfolding htmlEscPlain_def by fastforce

lemma basenameOnly_no_slash: "CHR ''/'' \<notin> set (basenameOnly n) \<and> CHR 0x5C \<notin> set (basenameOnly n)"
proof -
  let ?p = "replace_char (CHR 0x5C) ''/'' n"
  let ?q = "trim_right_char CHR ''/'' ?p"
  let ?r = "case cut_last_char CHR ''/'' ?q of None \<Rightarrow> ?q | Some (_, b) \<Rightarrow> b"
  have "set ?q \<subseteq> set ?p" by (auto simp: trim_right_char_def dest: set_dropWhileD)
  then have "CHR 0x5C \<notin> set ?q" using set_replace_char [of "CHR 0x5C" "''/''" n] by auto
  then have "CHR ''/'' \<notin> set ?r \<and> CHR 0x5C \<notin> set ?r"
    using cut_last_char_None_iff [of "CHR ''/''" ?q] cut_last_char_Some [of "CHR ''/''" ?q]
    by (auto split: option.splits)
  then show ?thesis by (simp add: basenameOnly_def path_base_def Let_def)
qed

definition plain_exts :: "(string \<Rightarrow> string list) \<Rightarrow> bool" where
  "plain_exts exts \<longleftrightarrow> (\<forall>mt. \<forall>x \<in> set (exts mt). CHR ''/'' \<notin> set x \<and> CHR 0x5C \<notin> set x)"

lemma guessFilename_plain:
  "plain_exts exts \<Longrightarrow> guessFilename exts mt \<noteq> [] \<and> CHR ''/'' \<notin> set (guessFilename exts mt) \<and>
   CHR 0x5C \<notin> set (guessFilename exts mt)"
proof -
  assume p: "plain_exts exts"
  have "CHR ''/'' \<notin> set x \<and> CHR 0x5C \<notin> set x" if "exts mt = x # xs" for x xs
    using p that unfolding plain_exts_def by (metis list.set_intros(1))
  then show ?thesis by (auto simp: guessFilename_def Let_def split: list.split)
qed

text \<open>
  What makes a part of a message a file, said without the order in which the walk asks: the
  part has content, and is marked as an attachment or, unless it is the HTML or the plain text
  of the message, has a name and is a picture, a sound or a film, or is inline and no text.
\<close>

definition body_text :: "mime_part \<Rightarrow> bool" where
  "body_text p \<longleftrightarrow> has_prefix (mediaType p) ''text/html'' \<or> has_prefix (mediaType p) ''text/plain''"

definition is_media :: "mime_part \<Rightarrow> bool" where
  "is_media p \<longleftrightarrow> list_ex (has_prefix (to_lower (mediaType p))) [''image/'', ''audio/'', ''video/'']"

definition given_name :: "mime_part \<Rightarrow> string" where
  "given_name p = pickFilename (dispParams p) (ctParams p)"

definition has_content :: "mime_part \<Rightarrow> bool" where
  "has_content p \<longleftrightarrow> part_body p \<noteq> None \<and> part_body p \<noteq> Some []"

definition is_file :: "mime_part \<Rightarrow> bool" where
  "is_file p \<longleftrightarrow> has_content p \<and>
     (if body_text p then equal_fold (disp p) ''attachment''
      else to_lower (trim_space (disp p)) = ''attachment'' \<or>
        given_name p \<noteq> [] \<and>
          (is_media p \<or>
           to_lower (trim_space (disp p)) = ''inline'' \<and> \<not> has_prefix (to_lower (mediaType p)) ''text/''))"

text \<open>The name of a file: the last component of the name given, or one guessed from the type.\<close>

definition sent_name :: "(string \<Rightarrow> string list) \<Rightarrow> mime_part \<Rightarrow> string" where
  "sent_name exts p =
     (if basenameOnly (given_name p) = [] then guessFilename exts (mediaType p)
      else basenameOnly (given_name p))"

lemma path_base_plain: "n \<noteq> [] \<Longrightarrow> CHR ''/'' \<notin> set n \<Longrightarrow> path_base n = n"
proof -
  assume n: "n \<noteq> []" "CHR ''/'' \<notin> set n"
  then have "trim_right_char CHR ''/'' n = n"
    by (cases n rule: rev_cases) (auto simp: trim_right_char_def)
  then show ?thesis using n cut_last_char_None_iff [of "CHR ''/''" n]
    by (simp add: path_base_def Let_def split: option.split)
qed

lemma basenameOnly_plain:
  assumes "n \<noteq> []" "CHR ''/'' \<notin> set n" "CHR 0x5C \<notin> set n" "n \<noteq> ''.''"
  shows "basenameOnly n = n"
  using assms by (auto simp: basenameOnly_def replace_char_notin path_base_plain Let_def)

lemma basenameOnly_Nil [simp]: "basenameOnly [] = []"
  by (simp add: basenameOnly_def path_base_def replace_char_def)

lemma guessFilename_base: "plain_exts exts \<Longrightarrow> basenameOnly (guessFilename exts mt) = guessFilename exts mt"
  using guessFilename_plain [of exts mt]
  by (intro basenameOnly_plain) (auto simp: guessFilename_def Let_def split: list.splits)

lemma walk_part_media:
  assumes "plain_exts exts"
  shows "media (walk_part exts p a) =
    media a @ (if is_file p then [\<lparr>filename = sent_name exts p, content = b64_encode (the (part_body p))\<rparr>] else [])"
proof (cases "has_content p")
  case False
  then show ?thesis by (auto simp: walk_part_def has_content_def is_file_def Let_def split: option.split)
next
  case True
  then obtain b where b: "part_body p = Some b" "b \<noteq> []" by (auto simp: has_content_def)
  have "shouldEncodeAsAttachment (disp p) (given_name p) (mediaType p) \<longleftrightarrow> is_file p" if "\<not> body_text p"
    using that True by (auto simp: shouldEncodeAsAttachment_def is_file_def is_media_def Let_def)
  moreover have "is_file p \<longleftrightarrow> equal_fold (disp p) ''attachment''" if "body_text p"
    using that True by (simp add: is_file_def)
  ultimately show ?thesis using b guessFilename_base [OF assms]
    by (auto simp: walk_part_def attachPayload_def sent_name_def given_name_def body_text_def Let_def)
qed

text \<open>A file as it is sent for a part: the content byte for byte, and a plain name.\<close>

definition sends_part :: "(string \<Rightarrow> string list) \<Rightarrow> mime_part \<Rightarrow> attach \<Rightarrow> bool" where
  "sends_part exts p a \<longleftrightarrow>
     b64_decode (content a) = part_body p \<and> filename a = sent_name exts p \<and>
     filename a \<noteq> [] \<and> CHR ''/'' \<notin> set (filename a) \<and> CHR 0x5C \<notin> set (filename a)"

lemma sends_part_file:
  assumes "plain_exts exts" "is_file p"
  shows "sends_part exts p \<lparr>filename = sent_name exts p, content = b64_encode (the (part_body p))\<rparr>"
  using assms guessFilename_plain [OF assms(1)] basenameOnly_no_slash [of "given_name p"]
  by (auto simp: sends_part_def sent_name_def is_file_def has_content_def)

lemma walk_parts_files:
  assumes "plain_exts exts" "list_all2 (sends_part exts) ps (media a)"
  shows "list_all2 (sends_part exts) (ps @ filter is_file qs) (media (fold (walk_part exts) qs a))"
  using assms(2)
proof (induction qs arbitrary: ps a)
  case (Cons q qs)
  have "list_all2 (sends_part exts) (ps @ filter is_file [q]) (media (walk_part exts q a))"
    using Cons.prems sends_part_file [OF assms(1)]
    by (auto simp: walk_part_media [OF assms(1)] intro!: list_all2_appendI)
  from Cons.IH [OF this] show ?case by (simp split: if_splits)
qed simp

text \<open>
  C40: The files sent along with a message are exactly the parts of it that are files, one for
  one and in the order of the message: each with the decoded content of its part byte for byte,
  and under the last component of the name that the part gives, whatever directories the sender
  put before it, or under a name guessed from the type when it gives none.  A message that the
  mail library cannot read is sent without files.
\<close>

theorem attachments_faithful:
  assumes "plain_exts exts"
  shows "case read_message raw of
      None \<Rightarrow> o_attaches (parseOutboundMail read_message exts raw) = []
    | Some e \<Rightarrow> list_all2 (sends_part exts) (filter is_file (parts e))
        (o_attaches (parseOutboundMail read_message exts raw))"
  using walk_parts_files [OF assms, of "[]"]
  by (simp add: parseOutboundMail_def Let_def split: option.split prod.split)

definition text_demo :: mime_part where
  "text_demo = \<lparr>mediaType = ''text/plain'', ctParams = Map.empty, disp = [], dispParams = Map.empty,
     part_body = Some ''hi''\<rparr>"

definition png_demo :: mime_part where
  "png_demo = \<lparr>mediaType = ''image/png'', ctParams = Map.empty, disp = ''attachment'',
     dispParams = [''filename'' \<mapsto> ''a/b.png''], part_body = Some ''x''\<rparr>"

lemma attachments_faithful_witness:
  "\<exists>a. o_attaches (parseOutboundMail (\<lambda>_. Some \<lparr>Get = \<lambda>_. [], parts = [text_demo, png_demo]\<rparr>) (\<lambda>_. []) ''raw'') = [a] \<and>
     filename a = ''b.png'' \<and> b64_decode (content a) = Some ''x''"
proof -
  have ex: "plain_exts (\<lambda>_. [])" by (simp add: plain_exts_def)
  have f: "\<not> is_file text_demo" "is_file png_demo" "sent_name (\<lambda>_. []) png_demo = ''b.png''"
    by code_simp+
  have "part_body png_demo = Some ''x''" by (simp add: png_demo_def)
  then show ?thesis
    using attachments_faithful [OF ex, of "\<lambda>_. Some \<lparr>Get = \<lambda>_. [], parts = [text_demo, png_demo]\<rparr>" "''raw''"]
    by (auto simp: f sends_part_def list_all2_Cons1)
qed

lemma mail_errors_shown_witness:
  "handlerErrorText (ErrText ''530 5.7.0 Authentication required'') = ''530 5.7.0 Authentication required''"
  using mail_errors_shown [of "Load (\<lambda>_. [])" "\<lambda>_. None" "\<lambda>_. []" closed_service "OtherAddr ''h''" "[]" "[]"
      "\<lparr>limit = New, tokens = Map.empty, ticks = 0, remote = ()\<rparr>" "ErrText ''530 5.7.0 Authentication required''"]
  by (simp add: mailHandler_def)

end
