(* ===== verification/Bridge_Session.thy ===== *)
theory Bridge_Session
  imports Outbound
begin

text \<open>
  The SMTP session and the handlers of the bridge together: a session of
  \<open>internal/mhalesmtpd/smtpd.go\<close> on the server that \<open>ListenTCP\<close> of
  \<open>internal/smtpbridge/submit.go\<close> starts, from the lines of the client to the requests that
  reach the remote service.
\<close>

section \<open>Messages and their requests\<close>

fun is_mail_call :: "event \<Rightarrow> bool" where
  "is_mail_call (MailCall _ _ _) = True"
| "is_mail_call _ = False"

definition mail_calls :: "'w session \<Rightarrow> event list" where
  "mail_calls s = filter is_mail_call (out s)"

definition is_mail_request :: "request \<Rightarrow> bool" where
  "is_mail_request r \<longleftrightarrow> Service r = ''mail''"

definition mail_requests :: "(request list \<times> 'w) bridge session \<Rightarrow> request list" where
  "mail_requests s = filter is_mail_request (fst (remote (world s)))"

text \<open>
  The request of a message that was handed on, for the client \<open>c\<close>: the whole request is the
  submission of the message.
\<close>

definition submits ::
    "config \<Rightarrow> (string \<Rightarrow> entity option) \<Rightarrow> (string \<Rightarrow> string list) \<Rightarrow> client \<Rightarrow> event \<Rightarrow> request \<Rightarrow> bool" where
  "submits cfg rm exts c ev r \<longleftrightarrow>
     (case ev of MailCall from to data \<Rightarrow> r = submission cfg rm exts c to data | _ \<Rightarrow> False)"

text \<open>
  The invariant: before the login nothing is submitted; after it the address of the connection
  has a client with a token, and the requests submit the messages handed on, one for one and
  in order, with that token.
\<close>

definition submitted ::
    "config \<Rightarrow> (string \<Rightarrow> entity option) \<Rightarrow> (string \<Rightarrow> string list)
     \<Rightarrow> net_addr \<Rightarrow> (request list \<times> 'w) bridge session \<Rightarrow> bool" where
  "submitted cfg rm exts addr s \<longleftrightarrow> remoteAddr s = addr \<and>
     (if authenticated s
      then \<exists>c. tokens (world s) (addr_string addr) = Some c \<and> cli_token c \<noteq> [] \<and>
        list_all2 (submits cfg rm exts c) (mail_calls s) (mail_requests s)
      else mail_calls s = [] \<and> mail_requests s = [])"

section \<open>Commands that leave it alone\<close>

definition quiet :: "'w session \<Rightarrow> 'w session \<Rightarrow> bool" where
  "quiet s t \<longleftrightarrow> world t = world s \<and> authenticated t = authenticated s \<and> remoteAddr t = remoteAddr s \<and>
     mail_calls t = mail_calls s"

lemma quiet_refl [simp, intro]: "quiet s s"
  by (simp add: quiet_def)

lemma quiet_trans [trans]: "quiet s t \<Longrightarrow> quiet t u \<Longrightarrow> quiet s u"
  by (simp add: quiet_def)

lemma quiet_writef [simp]: "quiet s (writef l t) = quiet s t"
  by (simp add: quiet_def mail_calls_def)

lemma quiet_updates [simp]:
  "quiet s (resetTxn t) = quiet s t" "quiet s (defaultRecipients t) = quiet s t"
  "quiet s (t\<lparr>inp := i\<rparr>) = quiet s t" "quiet s (t\<lparr>buffer := b\<rparr>) = quiet s t"
  "quiet s (t\<lparr>to_addrs := ts\<rparr>) = quiet s t" "quiet s (t\<lparr>to_addrs := ts, buffer := b\<rparr>) = quiet s t"
  "quiet s (t\<lparr>from_addr := f, gotFrom := g\<rparr>) = quiet s t" "quiet s (t\<lparr>remoteName := n\<rparr>) = quiet s t"
  "quiet s (t\<lparr>xClient := x\<rparr>) = quiet s t" "quiet s (t\<lparr>remoteIP := a, remoteHost := h\<rparr>) = quiet s t"
  "quiet s (t\<lparr>xClientADDR := x\<rparr>) = quiet s t" "quiet s (t\<lparr>xClientNAME := x\<rparr>) = quiet s t"
  "quiet s (t\<lparr>inp := i, tls_inp := j, tls := k\<rparr>) = quiet s t"
  by (simp_all add: quiet_def mail_calls_def resetTxn_def defaultRecipients_def)

lemma submitted_quiet: "quiet s t \<Longrightarrow> submitted cfg rm exts addr s \<Longrightarrow> submitted cfg rm exts addr t"
  unfolding submitted_def quiet_def mail_requests_def by simp

lemma quiet_readLine: "readLine s = (r, t) \<Longrightarrow> quiet s t"
  by (auto simp: readLine_def split: list.splits rd.splits)

lemma quiet_readData: "readData E s = (r, t) \<Longrightarrow> quiet s t"
  by (auto simp: readData_def split: prod.splits)

lemma quiet_cmdMAIL: "quiet s (cmdMAIL args s)"
  by (simp add: cmdMAIL_def acceptFrom_def Let_def split: option.split prod.split bool.split)

lemma quiet_cmdRCPT: "HandlerRcpt (srv s) = None \<Longrightarrow> quiet s (cmdRCPT args s)"
  by (simp add: cmdRCPT_def Let_def split: option.split)

lemma quiet_xclientArg: "quiet s t \<Longrightarrow> quiet s (xclientArg E a t)"
  by (simp add: xclientArg_def Let_def split: option.split)

lemma quiet_fold_xclientArg: "quiet s t \<Longrightarrow> quiet s (fold (xclientArg E) as t)"
  by (induction as arbitrary: t) (simp_all add: quiet_xclientArg)

lemma quiet_cmdXCLIENT: "quiet s (cmdXCLIENT E args s)"
  by (simp add: cmdXCLIENT_def Let_def quiet_fold_xclientArg)

lemma quiet_cmdSTARTTLS: "quiet s (cmdSTARTTLS args s)"
  by (simp add: cmdSTARTTLS_def Let_def split: option.split)

section \<open>The login\<close>

lemma Authorize_log:
  "Authorize (recording svc) email p c w = (e, c1, w1) \<Longrightarrow>
   filter is_mail_request (fst w1) = filter is_mail_request (fst w)"
  by (auto simp: Authorize_def Do_def recording_def is_mail_request_def emptyRequest_def
      split: prod.splits sum.splits if_split_asm)

text \<open>The handler of the bridge submits nothing, and a success leaves a client with a token.\<close>

lemma authHandler_quiet:
  assumes "authHandler cfg (recording svc) clock addr user p b = ((ok, err), b1)"
  shows "filter is_mail_request (fst (remote b1)) = filter is_mail_request (fst (remote b))"
    "ok \<Longrightarrow> \<exists>c. tokens b1 (addr_string addr) = Some c \<and> cli_token c \<noteq> []"
  using assms
  by (auto simp: authHandler_def Let_def dest: Authorize_log Authorize_ok_token
      split: prod.splits option.splits bool.splits)

text \<open>What a mechanism does: it reads and writes, and then fails or calls the handler.\<close>

definition mechanism :: "'w session \<Rightarrow> (bool \<times> go_error option) \<times> 'w session \<Rightarrow> bool" where
  "mechanism s r \<longleftrightarrow>
     (\<exists>t. quiet s t \<and> srv t = srv s \<and>
        ((\<exists>err. r = ((False, err), t)) \<or> (\<exists>mech user p sh. r = callAuth mech user p sh t)))"

lemma mechanism_fail: "quiet s t \<Longrightarrow> srv t = srv s \<Longrightarrow> mechanism s ((False, err), t)"
  by (auto simp: mechanism_def)

lemma mechanism_call: "quiet s t \<Longrightarrow> srv t = srv s \<Longrightarrow> mechanism s (callAuth mech user p sh t)"
  unfolding mechanism_def by blast

lemmas mechanism_ends = mechanism_fail mechanism_call

lemma quiet_prompt: "readLine (writef l t) = (r, u) \<Longrightarrow> quiet s t \<Longrightarrow> srv t = srv s \<Longrightarrow> quiet s u \<and> srv u = srv s"
  using quiet_readLine [of "writef l t" r u] srv_readLine [of "writef l t" r u]
  by (auto simp: quiet_def mail_calls_def)

lemma mechanism_Plain: "mechanism s (handleAuthPlain a s)"
proof -
  obtain r v where v: "(if a = [] then readLine (writef ''334 '' s) else (Inr a, s)) = (r, v)" by (metis surj_pair)
  then have "quiet s v \<and> srv v = srv s" using quiet_prompt [of "''334 ''" s r v s] by (cases "a = []") auto
  then show ?thesis unfolding handleAuthPlain_def v
    by (auto intro: mechanism_ends split: sum.split option.split list.split)
qed

lemma mechanism_CramMD5: "mechanism s (handleAuthCramMD5 E s)"
proof -
  define l where "l = ''334 '' @ b64_encode (''<'' @ PidNanos E (inp s) @ ''@'' @ Hostname (srv s) @ ''>'')"
  obtain r v where v: "readLine (writef l s) = (r, v)" by (cases "readLine (writef l s)")
  then have "quiet s v \<and> srv v = srv s" using quiet_prompt [OF v quiet_refl] by simp
  then show ?thesis unfolding handleAuthCramMD5_def Let_def l_def [symmetric] v
    by (auto intro: mechanism_ends split: sum.split option.split list.split)
qed

lemma mechanism_password:
  assumes "quiet s t" "srv t = srv s"
  shows "mechanism s (case readLine (writef l t) of
       (Inl e, s2) \<Rightarrow> ((False, Some e), s2)
     | (Inr line, s2) \<Rightarrow>
         (case b64_decode line of
            None \<Rightarrow> ((False, Some undecodable), s2)
          | Some password \<Rightarrow> callAuth m u password sh s2))"
proof -
  obtain r v where v: "readLine (writef l t) = (r, v)" by (cases "readLine (writef l t)")
  then have "quiet s v \<and> srv v = srv s" using quiet_prompt [OF v assms] by simp
  then show ?thesis by (auto simp: v intro: mechanism_ends split: sum.split option.split)
qed

lemma mechanism_Login: "mechanism s (handleAuthLogin a s)"
proof -
  define q where "q = ''334 '' @ b64_encode ''Username:''"
  define p where "p = ''334 '' @ b64_encode ''Password:''"
  obtain r v where v: "(if a = [] then readLine (writef q s) else (Inr a, s)) = (r, v)" by (metis surj_pair)
  then have q: "quiet s v \<and> srv v = srv s" using quiet_prompt [of q s r v s] by (cases "a = []") auto
  then have "mechanism s (case readLine (writef p v) of
       (Inl e, s2) \<Rightarrow> ((False, Some e), s2)
     | (Inr line, s2) \<Rightarrow>
         (case b64_decode line of
            None \<Rightarrow> ((False, Some undecodable), s2)
          | Some password \<Rightarrow> callAuth ''LOGIN'' u password None s2))" for u
    by (intro mechanism_password) simp_all
  with q show ?thesis unfolding handleAuthLogin_def q_def [symmetric] p_def [symmetric] v
    by (auto intro: mechanism_fail split: sum.split option.split)
qed

section \<open>On the server of the bridge\<close>

definition on_bridge ::
    "config \<Rightarrow> (string \<Rightarrow> entity option) \<Rightarrow> (string \<Rightarrow> string list) \<Rightarrow> 'w service \<Rightarrow> (nat \<Rightarrow> int)
     \<Rightarrow> (request list \<times> 'w) bridge session \<Rightarrow> bool" where
  "on_bridge cfg rm exts svc clock s \<longleftrightarrow> same_server (smtpServer cfg rm exts (recording svc) clock) (srv s)"

lemma on_bridge_handlers:
  assumes "on_bridge cfg rm exts svc clock s"
  shows "AuthHandler (srv s) = Some (\<lambda>addr _ u p _ b. authHandler cfg (recording svc) clock addr u p b)"
    "Handler (srv s) = Some (\<lambda>addr _ to data b. mailHandler cfg rm exts (recording svc) addr to data b)"
    "HandlerRcpt (srv s) = None" "AuthRequired (srv s)"
  using assms by (auto simp: on_bridge_def same_server_def smtpServer_def)

lemma submitted_callAuth:
  assumes "on_bridge cfg rm exts svc clock s" "submitted cfg rm exts addr s" "\<not> authenticated s"
    and "callAuth mech user p sh s = ((ok, err), t)"
  shows "submitted cfg rm exts addr (t\<lparr>authenticated := ok\<rparr>)"
proof -
  obtain b1 where h: "authHandler cfg (recording svc) clock (remoteAddr s) user p (world s) = ((ok, err), b1)"
    and t: "t = emit (AuthCall mech user p ok) (s\<lparr>world := b1\<rparr>)"
    using assms(4) by (auto simp: callAuth_def on_bridge_handlers [OF assms(1)] split: prod.splits)
  have "mail_calls s = []" "mail_requests s = []" using assms(2,3) by (simp_all add: submitted_def)
  then have "mail_calls t = []" "mail_requests t = []"
    using authHandler_quiet(1) [OF h] by (simp_all add: t mail_calls_def mail_requests_def)
  moreover have "remoteAddr s = addr" using assms(2) by (simp add: submitted_def)
  ultimately show ?thesis
    using authHandler_quiet(2) [OF h] by (auto simp: submitted_def t mail_calls_def mail_requests_def)
qed

lemma submitted_finishAuth:
  assumes "on_bridge cfg rm exts svc clock s" "submitted cfg rm exts addr s" "\<not> authenticated s" "mechanism s r"
  shows "submitted cfg rm exts addr (snd (finishAuth r))"
proof -
  obtain t where t: "quiet s t" "srv t = srv s"
    and r: "(\<exists>err. r = ((False, err), t)) \<or> (\<exists>mech user p sh. r = callAuth mech user p sh t)"
    using assms(4) unfolding mechanism_def by blast
  have t_ok: "submitted cfg rm exts addr t" "\<not> authenticated t" "on_bridge cfg rm exts svc clock t"
    using assms(1-3) t submitted_quiet [OF t(1) assms(2)] by (simp_all add: quiet_def on_bridge_def)
  obtain ok err u where u: "r = ((ok, err), u)" by (metis surj_pair)
  have "submitted cfg rm exts addr (u\<lparr>authenticated := ok\<rparr>)"
    using r
  proof
    assume "\<exists>err. r = ((False, err), t)"
    with u t_ok(1,2) show ?thesis by (auto simp: submitted_def mail_calls_def mail_requests_def)
  next
    assume "\<exists>mech user p sh. r = callAuth mech user p sh t"
    with u submitted_callAuth [OF t_ok(3,1,2)] show ?thesis by metis
  qed
  then have w: "submitted cfg rm exts addr (writef l (u\<lparr>authenticated := ok\<rparr>))" for l
    by (rule submitted_quiet [rotated]) simp
  show ?thesis unfolding finishAuth_def u Let_def
    by (cases err; cases ok) (use w in simp_all)
qed

lemma submitted_cmdAUTH:
  assumes "on_bridge cfg rm exts svc clock s" "submitted cfg rm exts addr s"
  shows "submitted cfg rm exts addr (snd (cmdAUTH E args s))"
proof -
  have w: "submitted cfg rm exts addr (writef l s)" for l by (rule submitted_quiet [OF _ assms(2)]) simp
  have f: "submitted cfg rm exts addr (snd (finishAuth r))" if "\<not> authenticated s" "mechanism s r" for r
    by (rule submitted_finishAuth [OF assms that])
  show ?thesis
    by (simp add: cmdAUTH_def w f mechanism_Plain mechanism_Login mechanism_CramMD5 split: prod.split)
qed

lemma submitted_deliver:
  assumes "on_bridge cfg rm exts svc clock s" "submitted cfg rm exts addr s" "authenticated s"
  shows "submitted cfg rm exts addr (deliver s)"
proof -
  obtain c where addr: "remoteAddr s = addr" and c: "tokens (world s) (addr_string (remoteAddr s)) = Some c" "cli_token c \<noteq> []"
    and sub: "list_all2 (submits cfg rm exts c) (mail_calls s) (mail_requests s)"
    using assms(2,3) by (auto simp: submitted_def)
  let ?ev = "MailCall (from_addr s) (to_addrs s) (buffer s)"
  obtain err b1 where h: "mailHandler cfg rm exts (recording svc) (remoteAddr s) (to_addrs s) (buffer s) (world s) = (err, b1)"
    by (metis surj_pair)
  define u where "u = emit ?ev (s\<lparr>world := b1\<rparr>)"
  obtain r where r: "fst (remote b1) = fst (remote (world s)) @ [r]" "is_mail_request r"
    "submits cfg rm exts c ?ev r" "tokens b1 = tokens (world s)"
    using mailHandler_request [OF c, of cfg rm exts svc "to_addrs s" "buffer s"]
    by (auto simp: h submits_def is_mail_request_def)
  have "submitted cfg rm exts addr u"
    using addr c r sub assms(3)
    by (auto simp: submitted_def u_def mail_calls_def mail_requests_def intro!: list_all2_appendI)
  then have "submitted cfg rm exts addr (writef l u)" "submitted cfg rm exts addr (resetTxn (writef l u))" for l
    by (auto intro: submitted_quiet [rotated])
  then show ?thesis
    by (simp add: deliver_def on_bridge_handlers [OF assms(1)] h u_def [symmetric] Let_def split: option.split)
qed

lemma submitted_cmdDATA:
  assumes "on_bridge cfg rm exts svc clock s" "submitted cfg rm exts addr s"
  shows "submitted cfg rm exts addr (snd (cmdDATA E s))"
proof -
  have w: "submitted cfg rm exts addr (writef l t)" if "quiet s t" for l t
    by (rule submitted_quiet [OF _ assms(2)]) (simp add: that)
  define l where "l = ''354 Start mail input; end with <CR><LF>.<CR><LF>''"
  obtain r t where r: "readData E (writef l s) = (r, t)" by (cases "readData E (writef l s)")
  have q: "quiet s t" using quiet_readData [OF r] by (simp add: quiet_def mail_calls_def)
  have srv: "srv t = srv s" using r by (auto simp: readData_def split: prod.splits)
  have d: "submitted cfg rm exts addr (deliver (t\<lparr>buffer := b\<rparr>))" if "\<not> needAuth s" for b
  proof -
    have "authenticated s" using that by (simp add: needAuth_def on_bridge_handlers [OF assms(1)])
    then have "authenticated (t\<lparr>buffer := b\<rparr>)" using q by (simp add: quiet_def)
    moreover have "submitted cfg rm exts addr (t\<lparr>buffer := b\<rparr>)"
      by (rule submitted_quiet [OF _ assms(2)]) (simp add: q)
    moreover have "on_bridge cfg rm exts svc clock (t\<lparr>buffer := b\<rparr>)"
      using assms(1) srv by (simp add: on_bridge_def)
    ultimately show ?thesis by (intro submitted_deliver)
  qed
  show ?thesis unfolding cmdDATA_def l_def [symmetric] r
    using submitted_quiet [OF q assms(2)]
    by (cases r; cases "needAuth s") (simp_all add: w q d split: data_error.split)
qed

lemma submitted_dispatch:
  assumes "on_bridge cfg rm exts svc clock s" "submitted cfg rm exts addr s"
  shows "submitted cfg rm exts addr (snd (dispatch E verb args s))"
proof -
  have q: "quiet s (cmdEHLO E args s)" "quiet s (cmdHELO args s)" "quiet s (cmdRSET s)" "quiet s (cmdQUIT s)"
    "quiet s (cmdRCPT args s)" "quiet s (writef l s)" for l
    using on_bridge_handlers(3) [OF assms(1)]
    by (simp_all add: cmdEHLO_def cmdHELO_def cmdRSET_def cmdQUIT_def Let_def quiet_cmdRCPT)
  have "submitted cfg rm exts addr t" if "quiet s t" for t
    by (rule submitted_quiet [OF that assms(2)])
  then show ?thesis
    by (simp add: dispatch_def q quiet_cmdMAIL quiet_cmdXCLIENT quiet_cmdSTARTTLS
        submitted_cmdDATA [OF assms] submitted_cmdAUTH [OF assms])
qed

lemma submitted_serveStep:
  assumes "on_bridge cfg rm exts svc clock s" "submitted cfg rm exts addr s"
  shows "submitted cfg rm exts addr (snd (serveStep E s))"
proof -
  obtain r t where r: "readLine s = (r, t)" by (cases "readLine s")
  have t: "submitted cfg rm exts addr t" "on_bridge cfg rm exts svc clock t"
    using assms submitted_quiet [OF quiet_readLine [OF r]] srv_readLine [OF r] by (simp_all add: on_bridge_def)
  have "submitted cfg rm exts addr (writef l t)" for l by (rule submitted_quiet [OF _ t(1)]) simp
  then show ?thesis using t submitted_dispatch [OF t(2,1)]
    by (simp add: serveStep_def r split: sum.split prod.split)
qed

lemma submitted_reach:
  assumes "session_reach E s go t" "on_bridge cfg rm exts svc clock s" "submitted cfg rm exts addr s"
  shows "submitted cfg rm exts addr t"
  using assms
proof (induction rule: session_reach.induct)
  case start
  show ?case by (rule submitted_quiet [OF _ start(2)]) (simp add: banner_def)
next
  case (turn t go u)
  have "on_bridge cfg rm exts svc clock t"
    using turn.prems(1) srv_reach [OF turn.hyps(1)] same_server_trans by (auto simp: on_bridge_def)
  with turn.IH [OF turn.prems] turn.hyps(2) show ?case
    by (metis snd_conv submitted_serveStep)
qed

text \<open>
  C3: In every session on the server of the bridge the messages handed on and the requests to
  the mail service correspond, one for one and in order.  Each message is submitted by one
  request that is fixed in every field: the token of the login of this very session, the
  configured language, and either a new message with its subject, its HTML, its recipients and
  its files, or a reply to the mail that it names, with its HTML and its files.  Without a login
  nothing is submitted.
\<close>

theorem messages_submitted:
  assumes "session_reach E (newSession E (smtpServer cfg rm exts (recording svc) clock) addr isTLS lines tlsLines w) go s"
    and "filter is_mail_request (fst (remote w)) = []"
  shows "(mail_calls s = [] \<and> mail_requests s = []) \<or>
    (\<exists>c. authenticated s \<and> tokens (world s) (addr_string addr) = Some c \<and> cli_token c \<noteq> [] \<and>
      list_all2 (submits cfg rm exts c) (mail_calls s) (mail_requests s))"
proof -
  let ?s = "newSession E (smtpServer cfg rm exts (recording svc) clock) addr isTLS lines tlsLines w"
  have "on_bridge cfg rm exts svc clock ?s" by (simp add: on_bridge_def)
  moreover have "submitted cfg rm exts addr ?s"
    using assms(2) by (simp add: submitted_def newSession_def Let_def mail_calls_def mail_requests_def)
  ultimately have "submitted cfg rm exts addr s" using submitted_reach [OF assms(1)] by blast
  then show ?thesis by (auto simp: submitted_def split: if_split_asm)
qed

text \<open>A service that lets everyone in, and a session with a message on it.\<close>

definition open_service :: "unit service" where
  "open_service req w = (Inr (emptyResponse\<lparr>Status := 1, RespData := Some (JStr ''tok'')\<rparr>), w)"

definition bridge_demo :: "(request list \<times> unit) bridge session" where
  "bridge_demo =
     newSession demo_env
       (smtpServer (Load (\<lambda>_. [])) (\<lambda>_. None) (\<lambda>_. []) (recording open_service) (\<lambda>_. 0))
       (OtherAddr ''h'') False demo_lines None
       \<lparr>limit = New, tokens = Map.empty, ticks = 0, remote = ([], ())\<rparr>"

definition bridge_demo_end :: "(request list \<times> unit) bridge session" where
  "bridge_demo_end = the (serve 9 demo_env bridge_demo)"

lemma bridge_demo_reach: "session_reach demo_env bridge_demo False bridge_demo_end"
proof -
  have "unread (banner bridge_demo) < 9"
    by (simp add: banner_def unread_def bridge_demo_def newSession_def demo_lines_def Let_def)
  then obtain t where "serve 9 demo_env bridge_demo = Some t"
    unfolding serve_def using serveLoop_enough [OF demo_discard] by blast
  then show ?thesis by (simp add: bridge_demo_end_def serve_reach)
qed

lemma messages_submitted_witness:
  "mail_calls bridge_demo_end = [] \<and> mail_requests bridge_demo_end = [] \<or>
   (\<exists>c. authenticated bridge_demo_end \<and> tokens (world bridge_demo_end) ''h'' = Some c \<and>
      list_all2 (submits (Load (\<lambda>_. [])) (\<lambda>_. None) (\<lambda>_. []) c)
        (mail_calls bridge_demo_end) (mail_requests bridge_demo_end))"
  using messages_submitted [OF bridge_demo_reach [unfolded bridge_demo_def]] by auto

end
