(* ===== verification/Trace_Redaction.thy ===== *)
theory Trace_Redaction
  imports Http_Client
begin

text \<open>
  The trace log of the remote client, \<open>internal/remote/redact.go\<close> and \<open>redact_url.go\<close>: what is
  written of the requests, the answers and the addresses.

  The JSON parser and printer and the parser of addresses of the standard library are an
  argument, the record \<open>trace_lib\<close>.  A Go map is a list of members without repetition, whose
  order is the order in which the code happens to range over it.
\<close>

section \<open>Environment\<close>

record 'u trace_lib =
  tl_parse :: "string \<Rightarrow> json option"
  tl_marshal :: "json \<Rightarrow> string option"
  tl_request :: "request \<Rightarrow> string option"
  tl_url :: "string \<Rightarrow> 'u option"
  tl_query :: "'u \<Rightarrow> (string \<times> string) list"
  tl_set_query :: "'u \<Rightarrow> (string \<times> string) list \<Rightarrow> 'u"
  tl_url_string :: "'u \<Rightarrow> string"

text \<open>Decoding into \<open>map[string]any\<close>: of the members with the same name the last one stays.\<close>

fun keep_last :: "('k \<times> 'v) list \<Rightarrow> ('k \<times> 'v) list" where
  "keep_last [] = []"
| "keep_last ((k, v) # kvs) = (if k \<in> fst ` set kvs then keep_last kvs else (k, v) # keep_last kvs)"

fun as_any :: "json \<Rightarrow> json" where
  "as_any (JObj kvs) = JObj (keep_last (map (\<lambda>(k, v). (k, as_any v)) kvs))"
| "as_any (JArr xs) = JArr (map as_any xs)"
| "as_any v = v"

section \<open>Values\<close>

definition redactTokenString :: "string \<Rightarrow> string" where
  "redactTokenString s0 =
     (let s = trim_space s0 in
      if s = [] then []
      else if length s \<le> 12 then ''[token len='' @ itoa (int (length s)) @ '']''
      else take 4 s @ dots @ ''[redacted '' @ itoa (int (length s)) @ '' chars]'' @ dots @ drop (length s - 4) s)"

fun stringify :: "'u trace_lib \<Rightarrow> json \<Rightarrow> string" where
  "stringify T JNull = []"
| "stringify T (JStr s) = s"
| "stringify T v = (case tl_marshal T v of None \<Rightarrow> [] | Some b \<Rightarrow> b)"

fun castSlice :: "json \<Rightarrow> json list" where
  "castSlice (JArr xs) = xs"
| "castSlice _ = []"

definition password_key :: "string \<Rightarrow> bool" where
  "password_key k \<longleftrightarrow> to_lower k \<in> {''password'', ''pass'', ''secret''}"

definition token_key :: "string \<Rightarrow> bool" where
  "token_key k \<longleftrightarrow> to_lower k \<in> {''token'', ''authorization''} \<or> has_suffix (to_lower k) ''_token''"

definition mails_key :: "string \<Rightarrow> bool" where
  "mails_key k \<longleftrightarrow> to_lower k = ''mails''"

text \<open>
  What becomes of one member; \<open>rv\<close> is \<open>redactValue\<close>, which goes into maps and lists (the case
  of \<open>data\<close> does the same as the last one).
\<close>

definition redactMember :: "'u trace_lib \<Rightarrow> (json \<Rightarrow> json) \<Rightarrow> string \<Rightarrow> json \<Rightarrow> json" where
  "redactMember T rv k v =
     (if password_key k then JStr ''[redacted]''
      else if token_key k then JStr (redactTokenString (stringify T v))
      else if mails_key k then (if 8 < length (castSlice v) then JArr (take 8 (castSlice v)) else v)
      else rv v)"

text \<open>The count of the mails that are left out, which goes under a name of its own.\<close>

definition omittedHere :: "string \<Rightarrow> json \<Rightarrow> int list" where
  "omittedHere k v =
     (if \<not> password_key k \<and> \<not> token_key k \<and> mails_key k \<and> 8 < length (castSlice v)
      then [int (length (castSlice v)) - 8] else [])"

definition omitted :: "(string \<times> json) list \<Rightarrow> int list" where
  "omitted kvs = concat (map (\<lambda>(k, v). omittedHere k v) kvs)"

definition set_key :: "string \<Rightarrow> json \<Rightarrow> (string \<times> json) list \<Rightarrow> (string \<times> json) list" where
  "set_key k v kvs =
     (if k \<in> fst ` set kvs then map (\<lambda>(l, w). (l, if l = k then v else w)) kvs else kvs @ [(k, v)])"

definition redactMap ::
    "'u trace_lib \<Rightarrow> (json \<Rightarrow> json) \<Rightarrow> (string \<times> json) list \<Rightarrow> (string \<times> json) list" where
  "redactMap T rv kvs =
     (let ms = map (\<lambda>(k, v). (k, redactMember T rv k v)) kvs in
      if omitted kvs = [] then ms else set_key ''_mails_omitted'' (JNum (last (omitted kvs))) ms)"

lemma redactMap_cong [fundef_cong]:
  assumes "kvs = kvs'" "\<And>k v. (k, v) \<in> set kvs' \<Longrightarrow> rv v = rv' v"
  shows "redactMap T rv kvs = redactMap T rv' kvs'"
proof -
  have "map (\<lambda>(k, v). (k, redactMember T rv k v)) kvs' = map (\<lambda>(k, v). (k, redactMember T rv' k v)) kvs'"
    using assms(2) by (auto simp: redactMember_def)
  then show ?thesis by (simp only: redactMap_def assms(1))
qed

fun redactValue :: "'u trace_lib \<Rightarrow> json \<Rightarrow> json" where
  "redactValue T (JObj kvs) = JObj (redactMap T (redactValue T) kvs)"
| "redactValue T (JArr xs) = JArr (map (redactValue T) xs)"
| "redactValue T v = v"

section \<open>What is logged\<close>

abbreviation maxLogJSON :: nat where
  "maxLogJSON \<equiv> 24000"

definition redactJSONString :: "'u trace_lib \<Rightarrow> string \<Rightarrow> string" where
  "redactJSONString T s =
     (if s = [] then []
      else case tl_parse T s of
        None \<Rightarrow> truncate_str s maxLogJSON
      | Some v \<Rightarrow>
          (case tl_marshal T (redactValue T (as_any v)) of
             None \<Rightarrow> truncate_str s maxLogJSON
           | Some ss \<Rightarrow>
               if maxLogJSON < length ss then take maxLogJSON ss @ [CHR 0x22] @ ''...[truncated]'' @ [CHR 0x22] else ss))"

definition redactRequestDump :: "'u trace_lib \<Rightarrow> request option \<Rightarrow> string" where
  "redactRequestDump T r =
     (case r of
        None \<Rightarrow> ''null''
      | Some req \<Rightarrow> (case tl_request T req of None \<Rightarrow> ''{}'' | Some b \<Rightarrow> redactJSONString T b))"

text \<open>\<open>url.Values\<close>: the first value of a name, and setting the only one.\<close>

definition query_get :: "string \<Rightarrow> (string \<times> string) list \<Rightarrow> string" where
  "query_get k q = (case map_of q k of None \<Rightarrow> [] | Some v \<Rightarrow> v)"

definition query_set :: "string \<Rightarrow> string \<Rightarrow> (string \<times> string) list \<Rightarrow> (string \<times> string) list" where
  "query_set k v q = filter (\<lambda>(l, _). l \<noteq> k) q @ [(k, v)]"

definition redactURLForLog :: "'u trace_lib \<Rightarrow> string \<Rightarrow> string" where
  "redactURLForLog T raw =
     (case tl_url T raw of
        None \<Rightarrow> raw
      | Some u \<Rightarrow>
          (let q = tl_query T u;
               u1 = (if query_get ''token'' q \<noteq> [] then tl_set_query T u (query_set ''token'' ''[redacted]'' q) else u)
           in truncate_str (tl_url_string T u1) 512))"

section \<open>What the log does not show\<close>

text \<open>Two tokens with the same length and, if they are long, the same ends.\<close>

definition same_ends :: "string \<Rightarrow> string \<Rightarrow> bool" where
  "same_ends s0 t0 \<longleftrightarrow>
     (let s = trim_space s0; t = trim_space t0 in
      length s = length t \<and>
      (12 < length s \<longrightarrow> take 4 s = take 4 t \<and> drop (length s - 4) s = drop (length t - 4) t))"

lemma redactTokenString_ends: "same_ends s t \<Longrightarrow> redactTokenString s = redactTokenString t"
  by (auto simp: same_ends_def redactTokenString_def Let_def)

text \<open>
  Values that differ in nothing but passwords, which may be anything, and tokens; the list of
  mails is not gone into.
\<close>

definition alike_member :: "'u trace_lib \<Rightarrow> (json \<Rightarrow> json \<Rightarrow> bool) \<Rightarrow> string \<times> json \<Rightarrow> string \<times> json \<Rightarrow> bool" where
  "alike_member T al x y \<longleftrightarrow> fst x = fst y \<and>
       (\<not> password_key (fst x) \<and> token_key (fst x) \<longrightarrow> same_ends (stringify T (snd x)) (stringify T (snd y))) \<and>
       (\<not> password_key (fst x) \<and> \<not> token_key (fst x) \<longrightarrow>
          al (snd x) (snd y) \<and> (mails_key (fst x) \<longrightarrow> snd x = snd y))"

lemma alike_member_mono [mono]: "(\<And>v w. P v w \<longrightarrow> Q v w) \<Longrightarrow> alike_member T P x y \<longrightarrow> alike_member T Q x y"
  by (auto simp: alike_member_def)

inductive alike :: "'u trace_lib \<Rightarrow> json \<Rightarrow> json \<Rightarrow> bool" for T where
  alike_same: "alike T v v"
| alike_arr: "list_all2 (alike T) xs ys \<Longrightarrow> alike T (JArr xs) (JArr ys)"
| alike_obj: "list_all2 (alike_member T (alike T)) kvs kws \<Longrightarrow> alike T (JObj kvs) (JObj kws)"

lemma alike_member_step:
  assumes "alike_member T (\<lambda>v w. rv v = rv w) (k, v) (l, w)"
  shows "k = l" "redactMember T rv k v = redactMember T rv k w" "omittedHere k v = omittedHere k w"
  using assms redactTokenString_ends
  by (auto simp: alike_member_def redactMember_def omittedHere_def split del: if_split split: if_split)

lemma list_all2_map_eq:
  "list_all2 P xs ys \<Longrightarrow> (\<And>x y. P x y \<Longrightarrow> f x = f y) \<Longrightarrow> map f xs = map f ys"
  by (induction rule: list_all2_induct) auto

lemma redactMap_alike:
  assumes "list_all2 (alike_member T (\<lambda>v w. rv v = rv w)) kvs kws"
  shows "redactMap T rv kvs = redactMap T rv kws"
proof -
  have "map (\<lambda>(k, v). (k, redactMember T rv k v)) kvs = map (\<lambda>(k, v). (k, redactMember T rv k v)) kws"
    "map (\<lambda>(k, v). omittedHere k v) kvs = map (\<lambda>(k, v). omittedHere k v) kws"
    by (rule list_all2_map_eq [OF assms]; clarify; metis alike_member_step)+
  then show ?thesis by (simp only: redactMap_def omitted_def)
qed

lemma redactValue_alike: "alike T v w \<Longrightarrow> redactValue T v = redactValue T w"
proof (induction rule: alike.induct)
  case (alike_arr xs ys)
  then show ?case by (simp add: list_all2_conv_all_nth list_eq_iff_nth_eq)
next
  case (alike_obj kvs kws)
  then have "list_all2 (alike_member T (\<lambda>v w. redactValue T v = redactValue T w)) kvs kws"
    by (rule list_all2_mono) (auto simp: alike_member_def)
  then show ?case by (simp add: redactMap_alike)
qed simp

text \<open>
  C37: Two texts that are both JSON, and that differ in nothing but values of password members,
  which may be anything, and values of token members with the same length and, if longer than
  twelve, the same four characters at each end, are logged alike: the trace shows nothing else of
  them.  This holds at any depth but not inside a list under \<open>mails\<close>, where the texts must be
  equal because nothing is masked there.  The printer has to print what the parser gives.
\<close>

theorem trace_hides_secrets:
  assumes "s \<noteq> []" "t \<noteq> []" "tl_parse T s = Some v" "tl_parse T t = Some w"
    and "alike T (as_any v) (as_any w)" "tl_marshal T (redactValue T (as_any v)) \<noteq> None"
  shows "redactJSONString T s = redactJSONString T t"
  using assms redactValue_alike [OF assms(5)] by (auto simp: redactJSONString_def split: option.split)

text \<open>Libraries for examples: two texts are JSON, and an address is its query.\<close>

fun demo_print :: "json \<Rightarrow> string" where
  "demo_print (JObj kvs) = ''{'' @ concat (map (\<lambda>(k, v). k @ '':'' @ demo_print v @ '','') kvs) @ ''}''"
| "demo_print (JArr xs) = ''['' @ concat (map (\<lambda>v. demo_print v @ '','') xs) @ '']''"
| "demo_print (JStr s) = s"
| "demo_print (JNum n) = itoa n"
| "demo_print (JBool b) = (if b then ''true'' else ''false'')"
| "demo_print JNull = ''null''"

definition demo_login :: "string \<Rightarrow> string \<Rightarrow> json" where
  "demo_login password token =
     JObj [(''service'', JStr ''account''), (''token'', JStr token),
           (''data'', JObj [(''email'', JStr ''me''), (''password'', JStr password)])]"

definition demo_trace :: "(string \<times> string) list trace_lib" where
  "demo_trace = \<lparr>tl_parse = (\<lambda>s. if s = ''A'' then Some (demo_login ''pw'' ''abcdefghijklmn'')
       else if s = ''B'' then Some (demo_login ''hunter2'' ''abcd123456klmn'') else None),
     tl_marshal = (\<lambda>v. Some (demo_print v)), tl_request = (\<lambda>_. None),
     tl_url = (\<lambda>s. Some [(''token'', s)]), tl_query = (\<lambda>u. u), tl_set_query = (\<lambda>_ q. q),
     tl_url_string = (\<lambda>u. concat (map (\<lambda>(k, v). k @ ''='' @ v) u))\<rparr>"

lemma demo_keys:
  "\<not> password_key ''service''" "\<not> token_key ''service''" "\<not> mails_key ''service''"
  "\<not> password_key ''token''" "token_key ''token''"
  "\<not> password_key ''data''" "\<not> token_key ''data''" "\<not> mails_key ''data''"
  "\<not> password_key ''email''" "\<not> token_key ''email''" "\<not> mails_key ''email''" "password_key ''password''"
  by code_simp+

lemma demo_ends: "same_ends ''abcdefghijklmn'' ''abcd123456klmn''"
  by code_simp

lemma trace_hides_secrets_witness:
  "redactJSONString demo_trace ''A'' = redactJSONString demo_trace ''B''"
proof (rule trace_hides_secrets)
  show "alike demo_trace (as_any (demo_login ''pw'' ''abcdefghijklmn'')) (as_any (demo_login ''hunter2'' ''abcd123456klmn''))"
    by (auto simp: demo_login_def alike_member_def demo_keys demo_ends
        intro!: alike_obj alike_same)
qed (simp_all add: demo_trace_def)

section \<open>Length of what is logged\<close>

text \<open>
  Whatever the service sends, an entry of the trace is bounded: 24016 bytes for a body and
  515 for an address that can be parsed.
\<close>

theorem trace_bounded:
  "length (redactJSONString T s) \<le> 24016 \<and> length (redactRequestDump T r) \<le> 24016 \<and>
   (case tl_url T url of None \<Rightarrow> redactURLForLog T url = url | Some u \<Rightarrow> length (redactURLForLog T url) \<le> 515)"
proof -
  have body: "length (redactJSONString T s) \<le> 24016" for s
    by (auto simp: redactJSONString_def truncate_str_def split: option.split)
  then show ?thesis
    by (auto simp: redactRequestDump_def redactURLForLog_def truncate_str_def Let_def split: option.split)
qed

section \<open>What it does show\<close>

text \<open>A token that comes as the value of \<open>data\<close>, which the client accepts, is logged.\<close>

lemma data_token_logged:
  assumes "tok \<noteq> []" "RespData resp = Some (JStr tok)"
  shows "ExtractToken resp = Inr tok \<and> redactValue T (JObj [(''data'', JStr tok)]) = JObj [(''data'', JStr tok)]"
  using assms by (simp add: ExtractToken_def redactMap_def redactMember_def omitted_def omittedHere_def demo_keys)

text \<open>Nothing in the list of mails is masked.\<close>

lemma mails_logged:
  assumes "length ms \<le> 8"
  shows "redactValue T (JObj [(''mails'', JArr ms)]) = JObj [(''mails'', JArr ms)]"
proof -
  have "\<not> password_key ''mails''" "\<not> token_key ''mails''" "mails_key ''mails''" by code_simp+
  then show ?thesis using assms by (simp add: redactMap_def redactMember_def omitted_def omittedHere_def)
qed

text \<open>The token in the address of a mail stands in the path, which is left as it is.\<close>

lemma html_token_logged:
  assumes "tl_url T (MailHTMLURL base tok n) = Some u" "tl_query T u = []"
    and "tl_url_string T u = MailHTMLURL base tok n" "length (MailHTMLURL base tok n) \<le> 512"
  shows "redactURLForLog T (MailHTMLURL base tok n) = MailHTMLURL base tok n"
  using assms by (simp add: redactURLForLog_def query_get_def truncate_str_def)

end
