(* ===== verification/Client_Trace.thy ===== *)
theory Client_Trace
  imports Trace_Redaction
begin

text \<open>
  The rest of \<open>internal/remote/client.go\<close>: the payload of \<open>postJSONMap\<close>, the copies of a client,
  and what a client whose trace is on writes about an exchange: in \<open>postJSON\<close>, \<open>postJSONBody\<close>
  and \<open>downloadGET\<close>.
\<close>

section \<open>Payloads\<close>

definition fillPayload :: "client \<Rightarrow> (string \<rightharpoonup> json) \<Rightarrow> (string \<rightharpoonup> json)" where
  "fillPayload c payload =
     (let p = (case payload ''token'' of
                 None \<Rightarrow> payload(''token'' \<mapsto> JStr (cli_token c))
               | Some v \<Rightarrow> if v = JNull then payload(''token'' \<mapsto> JStr (cli_token c)) else payload)
      in case p ''currentLang'' of
           None \<Rightarrow> p(''currentLang'' \<mapsto> JStr (cli_Lang c))
         | Some v \<Rightarrow> if v = JNull \<or> v = JStr [] then p(''currentLang'' \<mapsto> JStr (cli_Lang c)) else p)"

definition replyPayload :: "string \<Rightarrow> string \<Rightarrow> attach list \<Rightarrow> string \<Rightarrow> (string \<rightharpoonup> json)" where
  "replyPayload mailID messageHTML attaches currentLang =
     (let p = [''service'' \<mapsto> JStr ''mail'', ''action'' \<mapsto> JStr ''reply-confirm'', ''draft_id'' \<mapsto> JNull,
               ''data'' \<mapsto> JObj [(''message'', JStr messageHTML), (''attaches'', JArr (map attach_json attaches)),
                               (''mail_id'', JStr mailID)]]
      in if trim_space currentLang \<noteq> [] then p(''currentLang'' \<mapsto> JStr currentLang) else p)"

text \<open>The payload of a reply says what the request of \<open>DoReplyConfirm\<close> says.\<close>

definition replyRequest :: "client \<Rightarrow> string \<Rightarrow> string \<Rightarrow> attach list \<Rightarrow> string \<Rightarrow> request" where
  "replyRequest c mailID messageHTML attaches currentLang =
     emptyRequest\<lparr>Service := ''mail'', Action := ''reply-confirm'', DraftID := Some JNull,
       Data := [''message'' \<mapsto> JStr messageHTML, ''attaches'' \<mapsto> JArr (map attach_json attaches),
                ''mail_id'' \<mapsto> JStr mailID],
       CurrentLang := (if trim_space currentLang \<noteq> [] then currentLang else cli_Lang c),
       Token := cli_token c\<rparr>"

lemma fillPayload_token:
  "p ''token'' = None \<Longrightarrow> fillPayload c p ''token'' = Some (JStr (cli_token c))"
  by (auto simp: fillPayload_def Let_def split: option.split)

lemma fillPayload_lang:
  "fillPayload c p ''currentLang'' =
     (case p ''currentLang'' of None \<Rightarrow> Some (JStr (cli_Lang c))
      | Some v \<Rightarrow> if v = JNull \<or> v = JStr [] then Some (JStr (cli_Lang c)) else Some v)"
  by (auto simp: fillPayload_def Let_def split: option.split)

lemma fillPayload_other:
  "k \<noteq> ''token'' \<Longrightarrow> k \<noteq> ''currentLang'' \<Longrightarrow> fillPayload c p k = p k"
  by (auto simp: fillPayload_def Let_def split: option.split)

lemma replyPayload_fields:
  "replyPayload n h as lang ''token'' = None"
  "replyPayload n h as lang ''currentLang'' = (if trim_space lang \<noteq> [] then Some (JStr lang) else None)"
  "replyPayload n h as lang ''action'' = Some (JStr ''reply-confirm'')"
  "replyPayload n h as lang ''service'' = Some (JStr ''mail'')"
  by (simp_all add: replyPayload_def Let_def)

lemma reply_payload_fields:
  "DoReplyConfirm svc c n h as lang w = svc (replyRequest c n h as lang) w"
  "fillPayload c (replyPayload n h as lang) ''token'' = Some (JStr (Token (replyRequest c n h as lang)))"
  "fillPayload c (replyPayload n h as lang) ''currentLang'' = Some (JStr (CurrentLang (replyRequest c n h as lang)))"
  "fillPayload c (replyPayload n h as lang) ''action'' = Some (JStr (Action (replyRequest c n h as lang)))"
  "fillPayload c (replyPayload n h as lang) ''service'' = Some (JStr (Service (replyRequest c n h as lang)))"
proof -
  have "lang \<noteq> []" if "trim_space lang \<noteq> []" using that by auto
  then show "fillPayload c (replyPayload n h as lang) ''currentLang'' = Some (JStr (CurrentLang (replyRequest c n h as lang)))"
    by (cases "trim_space lang = []") (simp_all add: fillPayload_lang replyPayload_fields replyRequest_def)
qed (simp_all add: DoReplyConfirm_def replyRequest_def fillPayload_token fillPayload_other replyPayload_fields)

section \<open>Copies\<close>

text \<open>The timeout is not part of the model, so the copy differs in nothing else.\<close>

definition WithTimeout :: "client \<Rightarrow> client" where
  "WithTimeout c = CloneWithToken c (cli_token c)"

lemma trim_right_char_idem [simp]: "trim_right_char x (trim_right_char x s) = trim_right_char x s"
  by (simp add: trim_right_char_def dropWhile_idem)

lemma copies_same:
  assumes "BaseURL c = trim_right_char CHR ''/'' b"
  shows "CloneWithToken c tok = c\<lparr>cli_token := tok\<rparr>" "WithTimeout c = c"
  using assms by (simp_all add: CloneWithToken_def WithTimeout_def NewClient_def)

section \<open>Traces\<close>

text \<open>How an exchange goes: no answer, an answer whose body cannot be read, or status and body.\<close>

datatype exchange =
    NoAnswer go_error
  | Unreadable go_error
  | Answer int string

fun outcome :: "exchange \<Rightarrow> (int \<times> string) result" where
  "outcome (NoAnswer e) = Inl e"
| "outcome (Unreadable e) = Inl e"
| "outcome (Answer n b) = Inr (n, b)"

type_synonym trace_line = "string \<times> (string \<times> string) list"

definition tracePost :: "'u trace_lib \<Rightarrow> client \<Rightarrow> request \<Rightarrow> exchange \<Rightarrow> trace_line list" where
  "tracePost T c req x =
     [(''remote HTTP POST request'', [(''url'', BaseURL c @ ''/request''), (''body'', redactRequestDump T (Some req))]),
      (case x of
         NoAnswer e \<Rightarrow> (''remote HTTP POST error'', [(''err'', error_text e)])
       | Unreadable e \<Rightarrow> (''remote HTTP POST read error'', [(''err'', error_text e)])
       | Answer n raw \<Rightarrow>
           (''remote HTTP POST response'', [(''status_code'', itoa n), (''body'', redactJSONString T raw)]))]"

definition traceGet :: "'u trace_lib \<Rightarrow> string \<Rightarrow> bool \<Rightarrow> exchange \<Rightarrow> trace_line list" where
  "traceGet T fullURL bearer x =
     (let safeURL = redactURLForLog T fullURL in
      [(''remote HTTP GET request'', [(''url'', safeURL), (''bearer'', if bearer then ''true'' else ''false'')]),
       (case x of
          NoAnswer e \<Rightarrow> (''remote HTTP GET error'', [(''url'', safeURL), (''err'', error_text e)])
        | Unreadable e \<Rightarrow> (''remote HTTP GET read error'', [(''url'', safeURL), (''err'', error_text e)])
        | Answer n b \<Rightarrow>
            (''remote HTTP GET response'',
             [(''url'', safeURL), (''status_code'', itoa n), (''content_length'', itoa (int (length b))),
              (''body'', redactJSONString T b)]))])"

text \<open>The bodies in a trace are bounded, whatever is sent and whatever comes back.\<close>

lemma trace_bodies_bounded:
  "\<forall>(msg, attrs) \<in> set (tracePost T c req x) \<union> set (traceGet T url bearer x).
     \<forall>(k, v) \<in> set attrs. k = ''body'' \<longrightarrow> length v \<le> 24016"
  using trace_bounded [of T]
  by (auto simp: tracePost_def traceGet_def Let_def split: exchange.split)

text \<open>
  An exchange that fails is traced with the text of its error, as it is: where this text names
  the address, which the errors of \<open>net/http\<close> do, a token in the address is in the trace.
\<close>

lemma failed_get_shows_error:
  "traceGet T url bearer (NoAnswer (ErrText (''Get '' @ url @ rest))) ! 1 =
     (''remote HTTP GET error'', [(''url'', redactURLForLog T url), (''err'', ''Get '' @ url @ rest)])"
  by (simp add: traceGet_def Let_def)

end
