(* ===== verification/Smtp_Listener.thy ===== *)
theory Smtp_Listener
  imports Smtp_Session Config
begin

text \<open>
  The life of the SMTP server around its sessions, \<open>internal/mhalesmtpd/smtpd.go\<close>:
  \<open>ListenAndServe\<close>, the loop of \<open>Serve\<close>, \<open>Close\<close> and \<open>Shutdown\<close>, and \<open>Stop\<close> of
  \<open>internal/smtpbridge/submit.go\<close>.

  They run in different goroutines, so the system is a relation: a step is one operation of
  one of them on the shared state.  The mutex covers each use of the channel as a whole.
\<close>

section \<open>State\<close>

definition ErrServerClosed :: go_error where
  "ErrServerClosed = ErrText ''Server has been closed''"

text \<open>Where the goroutine of \<open>Serve\<close> is.\<close>

datatype serve_at = NotServing | AtSelect | InAccept | Returned go_error

text \<open>
  \<open>shutdownChan\<close> is \<open>None\<close> before its first use and otherwise whether it is closed;
  \<open>running\<close> counts the goroutines of sessions, \<open>accepted\<close> all sessions ever started.
\<close>

record listener =
  inShutdown :: bool
  openSessions :: int
  shutdownChan :: "bool option"
  serving :: serve_at
  running :: nat
  accepted :: nat

definition newServer :: listener where
  "newServer = \<lparr>inShutdown = False, openSessions = 0, shutdownChan = None, serving = NotServing,
     running = 0, accepted = 0\<rparr>"

section \<open>Operations\<close>

definition getShutdownChan :: "listener \<Rightarrow> bool \<times> listener" where
  "getShutdownChan l =
     (let l1 = (if shutdownChan l = None then l\<lparr>shutdownChan := Some False\<rparr> else l) in
      (shutdownChan l1 = Some True, l1))"

definition closeShutdownChan :: "listener \<Rightarrow> listener" where
  "closeShutdownChan l =
     (let l1 = (if shutdownChan l = None then l\<lparr>shutdownChan := Some False\<rparr> else l) in
      if shutdownChan l1 = Some True then l1 else l1\<lparr>shutdownChan := Some True\<rparr>)"

definition Close :: "listener \<Rightarrow> listener" where
  "Close l = closeShutdownChan (l\<lparr>inShutdown := True\<rparr>)"

text \<open>\<open>Serve\<close> in three parts: its entry, the select, and what \<open>Accept\<close> returns.\<close>

definition serveEntry :: "listener \<Rightarrow> listener" where
  "serveEntry l = l\<lparr>serving := (if inShutdown l then Returned ErrServerClosed else AtSelect)\<rparr>"

definition serveSelect :: "listener \<Rightarrow> listener" where
  "serveSelect l =
     (case getShutdownChan l of
        (closed, l1) \<Rightarrow> l1\<lparr>serving := (if closed then Returned ErrServerClosed else InAccept)\<rparr>)"

datatype accept_result = Conn | TemporaryError | AcceptError go_error

definition serveAccept :: "accept_result \<Rightarrow> listener \<Rightarrow> listener" where
  "serveAccept r l =
     (case r of
        Conn \<Rightarrow> l\<lparr>openSessions := openSessions l + 1, running := running l + 1, accepted := accepted l + 1,
          serving := AtSelect\<rparr>
      | TemporaryError \<Rightarrow> l\<lparr>serving := AtSelect\<rparr>
      | AcceptError e \<Rightarrow> l\<lparr>serving := Returned e\<rparr>)"

text \<open>A session ends: the first deferred call of its \<open>serve\<close>.\<close>

definition sessionEnds :: "listener \<Rightarrow> listener" where
  "sessionEnds l = l\<lparr>openSessions := openSessions l - 1, running := running l - 1\<rparr>"

text \<open>
  \<open>Shutdown\<close>: the rounds of its loop, each with the count of open sessions that it reads and
  the case of the select that is taken, and whether it returns an error.
\<close>

datatype select_case = TimerFired | CtxDone go_error | NothingReady

fun shutdownRounds :: "(int \<times> select_case) list \<Rightarrow> go_error option" where
  "shutdownRounds [] = None"
| "shutdownRounds ((n, c) # rounds) =
     (if n = 0 then None
      else case c of
        CtxDone e \<Rightarrow> Some e
      | TimerFired \<Rightarrow> shutdownRounds rounds
      | NothingReady \<Rightarrow> shutdownRounds rounds)"

definition Shutdown :: "(nat \<Rightarrow> int \<times> select_case) \<Rightarrow> listener \<Rightarrow> go_error option \<times> listener" where
  "Shutdown sees l = (shutdownRounds (map sees [0..<300]), Close l)"

text \<open>\<open>Stop\<close> of the bridge: the server is \<open>None\<close> before and after \<open>ListenTCP\<close>.\<close>

definition Stop :: "listener option \<Rightarrow> listener option" where
  "Stop mhaleSrv = map_option Close mhaleSrv"

section \<open>Settings\<close>

record listen_settings =
  ls_Addr :: string
  ls_Appname :: string
  ls_Hostname :: string
  ls_Timeout :: int
  ls_TLSConfigured :: bool
  ls_TLSListener :: bool

definition listenDefaults :: "string \<Rightarrow> listen_settings \<Rightarrow> listen_settings" where
  "listenDefaults osHostname ls =
     ls\<lparr>ls_Addr := (if ls_Addr ls = [] then '':25'' else ls_Addr ls),
        ls_Appname := (if ls_Appname ls = [] then ''smtpd'' else ls_Appname ls),
        ls_Hostname := (if ls_Hostname ls = [] then osHostname else ls_Hostname ls),
        ls_Timeout := (if ls_Timeout ls = 0 then 5 * 60 * second else ls_Timeout ls)\<rparr>"

text \<open>The address is bound by \<open>tls.Listen\<close> (\<open>True\<close>) or \<open>net.Listen\<close>; then \<open>Serve\<close> begins.\<close>

definition ListenAndServe ::
    "string \<Rightarrow> (bool \<Rightarrow> string \<Rightarrow> go_error option) \<Rightarrow> listen_settings \<Rightarrow> listener
     \<Rightarrow> go_error option \<times> listen_settings \<times> listener" where
  "ListenAndServe osHostname listen ls l =
     (if inShutdown l then (Some ErrServerClosed, ls, l)
      else let ls1 = listenDefaults osHostname ls in
        case listen (ls_TLSConfigured ls1 \<and> ls_TLSListener ls1) (ls_Addr ls1) of
          Some e \<Rightarrow> (Some e, ls1, l)
        | None \<Rightarrow> (None, ls1, serveEntry l))"

section \<open>Keys\<close>

text \<open>
  The calls of \<open>crypto/tls\<close>, \<open>crypto/x509\<close>, \<open>encoding/pem\<close> and of the file system; a PEM
  block is its type and its bytes, and of a certificate only matters whether there is one.
\<close>

record tls_lib =
  LoadX509KeyPair :: "string \<Rightarrow> string \<Rightarrow> go_error option"
  ReadFile :: "string \<Rightarrow> string result"
  pem_Decode :: "string \<Rightarrow> (string \<times> string) option"
  DecryptPEMBlock :: "string \<times> string \<Rightarrow> string \<Rightarrow> string result"
  EncodeToMemory :: "string \<times> string \<Rightarrow> string"
  X509KeyPair :: "string \<Rightarrow> string \<Rightarrow> go_error option"

definition useKeyPair :: "go_error option \<Rightarrow> listen_settings \<Rightarrow> go_error option \<times> listen_settings" where
  "useKeyPair r ls = (case r of Some e \<Rightarrow> (Some e, ls) | None \<Rightarrow> (None, ls\<lparr>ls_TLSConfigured := True\<rparr>))"

definition ConfigureTLS ::
    "tls_lib \<Rightarrow> string \<Rightarrow> string \<Rightarrow> listen_settings \<Rightarrow> go_error option \<times> listen_settings" where
  "ConfigureTLS L certFile keyFile ls = useKeyPair (LoadX509KeyPair L certFile keyFile) ls"

definition ConfigureTLSWithPassphrase ::
    "tls_lib \<Rightarrow> string \<Rightarrow> string \<Rightarrow> string \<Rightarrow> listen_settings \<Rightarrow> go_error option \<times> listen_settings" where
  "ConfigureTLSWithPassphrase L certFile keyFile passphrase ls =
     (case ReadFile L certFile of
        Inl e \<Rightarrow> (Some e, ls)
      | Inr certPEM \<Rightarrow>
          (case ReadFile L keyFile of
             Inl e \<Rightarrow> (Some e, ls)
           | Inr keyPEM \<Rightarrow>
               (case pem_Decode L keyPEM of
                  None \<Rightarrow> (Some (ErrText ''invalid PEM in key file''), ls)
                | Some block \<Rightarrow>
                    (case DecryptPEMBlock L block passphrase of
                       Inl e \<Rightarrow> (Some e, ls)
                     | Inr plain \<Rightarrow>
                         useKeyPair (X509KeyPair L certPEM (EncodeToMemory L (fst block, plain))) ls))))"

definition serverFor :: "string \<Rightarrow> string \<Rightarrow> string \<Rightarrow> listen_settings" where
  "serverFor a appname hostname =
     \<lparr>ls_Addr = a, ls_Appname = appname, ls_Hostname = hostname, ls_Timeout = 0, ls_TLSConfigured = False,
      ls_TLSListener = False\<rparr>"

definition ListenAndServeTLS ::
    "tls_lib \<Rightarrow> string \<Rightarrow> (bool \<Rightarrow> string \<Rightarrow> go_error option) \<Rightarrow> string \<Rightarrow> string \<Rightarrow> string \<Rightarrow> string \<Rightarrow> string
     \<Rightarrow> go_error option \<times> listen_settings \<times> listener" where
  "ListenAndServeTLS L osHostname listen a certFile keyFile appname hostname =
     (case ConfigureTLS L certFile keyFile (serverFor a appname hostname) of
        (Some e, ls) \<Rightarrow> (Some e, ls, newServer)
      | (None, ls) \<Rightarrow> ListenAndServe osHostname listen ls newServer)"

text \<open>A server never comes up without the keys it was given, and listens without TLS at first.\<close>

lemma ListenAndServeTLS_up:
  assumes "ListenAndServeTLS L osHostname listen a certFile keyFile appname hostname = (None, ls, l)"
  shows "LoadX509KeyPair L certFile keyFile = None \<and> ls_TLSConfigured ls \<and> serving l = AtSelect \<and>
    listen False (ls_Addr ls) = None \<and> ls_Addr ls \<noteq> [] \<and> 0 < ls_Timeout ls"
  using assms
  by (cases "a = []") (auto simp: ListenAndServeTLS_def ConfigureTLS_def useKeyPair_def ListenAndServe_def listenDefaults_def
      serverFor_def newServer_def serveEntry_def Let_def second_def split: option.splits)

section \<open>The goroutines together\<close>

datatype listener_event = EServe | ESelect | EAccept accept_result | EEnd | EClose

inductive listener_step :: "listener \<Rightarrow> listener_event \<Rightarrow> listener \<Rightarrow> bool" where
  step_serve: "serving l = NotServing \<Longrightarrow> listener_step l EServe (serveEntry l)"
| step_select: "serving l = AtSelect \<Longrightarrow> listener_step l ESelect (serveSelect l)"
| step_accept: "serving l = InAccept \<Longrightarrow> listener_step l (EAccept r) (serveAccept r l)"
| step_end: "0 < running l \<Longrightarrow> listener_step l EEnd (sessionEnds l)"
| step_close: "listener_step l EClose (Close l)"

inductive listener_run :: "listener \<Rightarrow> listener_event list \<Rightarrow> listener \<Rightarrow> bool" where
  run_none: "listener_run l [] l"
| run_more: "listener_run l es m \<Longrightarrow> listener_step m e n \<Longrightarrow> listener_run l (es @ [e]) n"

inductive_simps listener_step_simps [simp]:
  "listener_step l EServe m" "listener_step l ESelect m" "listener_step l (EAccept r) m"
  "listener_step l EEnd m" "listener_step l EClose m"

inductive_cases listener_run_NilE: "listener_run l [] m"

lemmas listener_defs = serveEntry_def serveSelect_def serveAccept_def sessionEnds_def Close_def
  getShutdownChan_def closeShutdownChan_def Let_def

text \<open>The count of open sessions is right, whatever the goroutines do.\<close>

definition counts_ok :: "listener \<Rightarrow> bool" where
  "counts_ok l \<longleftrightarrow> openSessions l = int (running l) \<and> running l \<le> accepted l"

lemma counts_ok_step: "listener_step l e m \<Longrightarrow> counts_ok l \<Longrightarrow> counts_ok m"
  by (cases e) (auto simp: counts_ok_def listener_defs split: accept_result.split)

lemma counts_ok_run: "listener_run l es m \<Longrightarrow> counts_ok l \<Longrightarrow> counts_ok m"
  by (induction rule: listener_run.induct) (auto intro: counts_ok_step)

text \<open>
  After \<open>Close\<close> the goroutine of \<open>Serve\<close> has this many turns left, and it may accept one more
  connection if it is waiting for one.
\<close>

fun turns_left :: "serve_at \<Rightarrow> nat" where
  "turns_left (Returned e) = 0"
| "turns_left InAccept = 2"
| "turns_left _ = 1"

definition may_accept :: "listener \<Rightarrow> nat" where
  "may_accept l = accepted l + (if serving l = InAccept then 1 else 0)"

fun is_turn :: "listener_event \<Rightarrow> bool" where
  "is_turn EEnd = False"
| "is_turn EClose = False"
| "is_turn _ = True"

definition closed :: "listener \<Rightarrow> bool" where
  "closed l \<longleftrightarrow> inShutdown l \<and> shutdownChan l = Some True"

lemma closed_Close [simp]: "closed (Close l)" "serving (Close l) = serving l" "accepted (Close l) = accepted l"
  by (auto simp: closed_def listener_defs)

lemma closed_step:
  assumes "listener_step l e m" "closed l"
  shows "closed m" "turns_left (serving m) + (if is_turn e then 1 else 0) \<le> turns_left (serving l)"
    "may_accept m \<le> may_accept l"
  using assms by (cases e; auto simp: closed_def may_accept_def listener_defs split: accept_result.splits)+

lemma closed_run:
  assumes "listener_run l es m" "closed l"
  shows "closed m" "turns_left (serving m) + length (filter is_turn es) \<le> turns_left (serving l)"
    "may_accept m \<le> may_accept l"
proof -
  have "closed m \<and> turns_left (serving m) + length (filter is_turn es) \<le> turns_left (serving l) \<and>
      may_accept m \<le> may_accept l"
    using assms
  proof (induction rule: listener_run.induct)
    case (run_more l es m e n)
    then show ?case using closed_step [OF run_more.hyps(2)] by (fastforce split: if_splits)
  qed simp
  then show "closed m" "turns_left (serving m) + length (filter is_turn es) \<le> turns_left (serving l)"
    "may_accept m \<le> may_accept l" by blast+
qed

section \<open>Properties\<close>

text \<open>
  C24: After \<open>Close\<close> the server accepts at most one more connection, and only if it was waiting
  for one, and the loop of \<open>Serve\<close> makes at most two more turns, whatever else goes on; the
  count of open sessions stays exact throughout.
\<close>

theorem close_winds_down:
  assumes "listener_run newServer es l" "listener_run (Close l) fs m"
  shows "accepted m \<le> accepted l + (if serving l = InAccept then 1 else 0) \<and>
    length (filter is_turn fs) \<le> 2 \<and>
    (turns_left (serving l) \<le> length (filter is_turn fs) \<longrightarrow> (\<exists>e. serving m = Returned e)) \<and>
    openSessions m = int (running m)"
proof -
  have "counts_ok newServer" by (simp add: counts_ok_def newServer_def)
  then have "counts_ok (Close l)"
    using counts_ok_step [OF step_close] counts_ok_run [OF assms(1)] by blast
  then have "counts_ok m" by (rule counts_ok_run [OF assms(2)])
  moreover have "turns_left (serving l) \<le> 2" by (cases "serving l") simp_all
  moreover have "turns_left (serving m) = 0 \<longleftrightarrow> (\<exists>e. serving m = Returned e)" by (cases "serving m") simp_all
  ultimately show ?thesis
    using closed_run [OF assms(2)] by (auto simp: may_accept_def counts_ok_def)
qed

text \<open>A server that waits for its first connection.\<close>

definition waiting :: listener where
  "waiting = serveSelect (serveEntry newServer)"

lemma waiting_run: "listener_run newServer ([] @ [EServe] @ [ESelect]) waiting"
  unfolding waiting_def append_assoc [symmetric]
  by (intro run_more [of _ _ "serveEntry newServer"] run_more [of _ _ newServer] run_none)
    (simp_all add: newServer_def listener_defs)

lemma close_winds_down_witness:
  "\<exists>m e. listener_run (Close waiting) ([] @ [EAccept Conn] @ [ESelect]) m \<and> accepted m \<le> 1 \<and> serving m = Returned e"
proof -
  define m where "m = serveSelect (serveAccept Conn (Close waiting))"
  have run: "listener_run (Close waiting) ([] @ [EAccept Conn] @ [ESelect]) m"
    unfolding m_def append_assoc [symmetric]
    by (intro run_more [of _ _ "serveAccept Conn (Close waiting)"] run_more [of _ _ "Close waiting"] run_none)
      (simp_all add: waiting_def newServer_def listener_defs)
  have "serving waiting = InAccept" "accepted waiting = 0" by (simp_all add: waiting_def newServer_def listener_defs)
  then show ?thesis using close_winds_down [OF waiting_run run] run by auto
qed

text \<open>
  \<open>Close\<close> does not wake a goroutine that waits in \<open>Accept\<close>: as long as no connection comes,
  \<open>Serve\<close> does not return.
\<close>

lemma close_leaves_accept:
  assumes "listener_run (Close l) es m" "serving l = InAccept" "\<forall>r. EAccept r \<notin> set es"
  shows "serving m = InAccept"
  using assms
proof (induction "Close l" es m rule: listener_run.induct)
  case (run_more es m e n)
  then show ?case by (cases e) (auto simp: listener_defs)
qed simp

text \<open>
  \<open>Shutdown\<close> does not wait for the sessions: when in each round nothing is ready, it returns
  without an error although they are open.
\<close>

lemma shutdown_does_not_wait:
  "(\<forall>i. sees i = (n, NothingReady)) \<Longrightarrow> Shutdown sees l = (None, Close l)"
proof -
  have "shutdownRounds (map (\<lambda>i. (n, NothingReady)) xs) = None" for xs :: "nat list"
    by (induction xs) simp_all
  then show "(\<forall>i. sees i = (n, NothingReady)) \<Longrightarrow> ?thesis"
    by (simp add: Shutdown_def fun_eq_iff [symmetric])
qed

end
