(* ===== verification/Process.thy ===== *)
theory Process
  imports Smtp_Listener
begin

text \<open>
  The process: \<open>cmd/mailbridge/main.go\<close>, the logger of \<open>internal/logx/logx.go\<close> and
  \<open>ListenTCP\<close> of \<open>internal/smtpbridge/submit.go\<close>.  What they set up is a function of the
  environment; then \<open>main\<close>, the goroutine of the SMTP server with its listener, and the
  goroutine of the IMAP server run side by side until a signal ends them.

  The IMAP server is the library's: its \<open>ListenAndServe\<close> may return at any time.  The signals are
  those that \<open>NotifyContext\<close> catches, SIGINT and SIGTERM: the first one wakes \<open>main\<close>, which then
  calls \<open>stop\<close>; one that comes in between is caught and does nothing, and one that comes after
  \<open>stop\<close> has its default effect, the end of the process on the spot.
\<close>

section \<open>Start\<close>

datatype log_level = LevelDebug | LevelInfo

text \<open>Levels are ordered; a handler writes what is at its level or above.\<close>

instantiation log_level :: linorder
begin

definition less_eq_log_level :: "log_level \<Rightarrow> log_level \<Rightarrow> bool" where
  "less_eq_log_level a b \<longleftrightarrow> a = LevelDebug \<or> b = LevelInfo"

definition less_log_level :: "log_level \<Rightarrow> log_level \<Rightarrow> bool" where
  "less_log_level a b \<longleftrightarrow> a = LevelDebug \<and> b = LevelInfo"

instance
proof
  fix a b c :: log_level
  show "a < b \<longleftrightarrow> a \<le> b \<and> \<not> b \<le> a" "a \<le> a" "a \<le> b \<Longrightarrow> b \<le> c \<Longrightarrow> a \<le> c"
    "a \<le> b \<Longrightarrow> b \<le> a \<Longrightarrow> a = b" "a \<le> b \<or> b \<le> a"
    by (cases a; cases b; cases c; simp add: less_eq_log_level_def less_log_level_def)+
qed

end

definition logLevel :: "(string \<Rightarrow> string) \<Rightarrow> log_level" where
  "logLevel env = (if equal_fold (env ''LOG_LEVEL'') ''debug'' then LevelDebug else LevelInfo)"

definition written :: "(string \<Rightarrow> string) \<Rightarrow> log_level \<Rightarrow> bool" where
  "written env l \<longleftrightarrow> logLevel env \<le> l"

lemma info_always_written: "written env LevelInfo"
  by (simp add: written_def less_eq_log_level_def)

lemma debug_on_request: "written env LevelDebug \<longleftrightarrow> equal_fold (env ''LOG_LEVEL'') ''debug''"
  by (simp add: written_def less_eq_log_level_def logLevel_def)

text \<open>The settings of the two servers, and whether their protocols are logged.\<close>

record process_settings =
  ps_level :: log_level
  ps_imapAddr :: string
  ps_AllowInsecureAuth :: bool
  ps_imapDebug :: bool
  ps_smtpAddr :: string
  ps_smtpWire :: bool

definition startup :: "(string \<Rightarrow> string) \<Rightarrow> process_settings" where
  "startup env =
     (let cfg = Load env in
      \<lparr>ps_level = logLevel env, ps_imapAddr = IMAPAddr cfg, ps_AllowInsecureAuth = IMAPAllowInsecureAuth cfg,
       ps_imapDebug = ProtocolLog cfg,
       ps_smtpAddr = (if SMTPAddr cfg = [] then '':25'' else SMTPAddr cfg), ps_smtpWire = ProtocolLog cfg\<rparr>)"

section \<open>State\<close>

text \<open>
  Where \<open>main\<close> is, or how the process has ended; the goroutine of \<open>ListenTCP\<close>, whose server \<open>Stop\<close> finds from its
  registration to its return; and whether the IMAP server has returned.
\<close>

datatype main_at = AwaitSignal | AtUnnotify | AtClose | AtStop | AtWait | Exited | Killed

datatype smtp_goroutine = NotBegun | Registered listener | Ended

record process =
  main_pc :: main_at
  smtp :: smtp_goroutine
  imap_ended :: bool

definition launched :: process where
  "launched = \<lparr>main_pc = AwaitSignal, smtp = NotBegun, imap_ended = False\<rparr>"

definition mhaleSrv :: "process \<Rightarrow> listener option" where
  "mhaleSrv p = (case smtp p of Registered l \<Rightarrow> Some l | _ \<Rightarrow> None)"

definition stopSmtp :: "process \<Rightarrow> process" where
  "stopSmtp p = (case Stop (mhaleSrv p) of None \<Rightarrow> p | Some l \<Rightarrow> p\<lparr>smtp := Registered l\<rparr>)"

definition alive :: "process \<Rightarrow> bool" where
  "alive p \<longleftrightarrow> main_pc p \<noteq> Exited \<and> main_pc p \<noteq> Killed"

section \<open>Steps\<close>

text \<open>What a signal does, depending on how far \<open>main\<close> has come.\<close>

fun signalled :: "main_at \<Rightarrow> main_at" where
  "signalled AwaitSignal = AtUnnotify"
| "signalled AtUnnotify = AtUnnotify"
| "signalled _ = Killed"

datatype process_event =
    Signal | Unnotify | ImapClose | SmtpStop | Exit
  | ImapReturns | Register | ListenFails | Listener listener_event | ServeReturns

inductive process_step :: "process \<Rightarrow> process_event \<Rightarrow> process \<Rightarrow> bool" where
  signal: "alive p \<Longrightarrow> process_step p Signal (p\<lparr>main_pc := signalled (main_pc p)\<rparr>)"
| unnotify: "main_pc p = AtUnnotify \<Longrightarrow> process_step p Unnotify (p\<lparr>main_pc := AtClose\<rparr>)"
| close_imap: "main_pc p = AtClose \<Longrightarrow> process_step p ImapClose (p\<lparr>main_pc := AtStop\<rparr>)"
| stop_smtp: "main_pc p = AtStop \<Longrightarrow> process_step p SmtpStop ((stopSmtp p)\<lparr>main_pc := AtWait\<rparr>)"
| exit: "main_pc p = AtWait \<Longrightarrow> smtp p = Ended \<Longrightarrow> imap_ended p \<Longrightarrow> process_step p Exit (p\<lparr>main_pc := Exited\<rparr>)"
| imap_returns: "alive p \<Longrightarrow> process_step p ImapReturns (p\<lparr>imap_ended := True\<rparr>)"
| register: "alive p \<Longrightarrow> smtp p = NotBegun \<Longrightarrow>
    process_step p Register (p\<lparr>smtp := Registered newServer\<rparr>)"
| listen_fails: "alive p \<Longrightarrow> smtp p = Registered l \<Longrightarrow> serving l = NotServing \<Longrightarrow>
    process_step p ListenFails (p\<lparr>smtp := Ended\<rparr>)"
| listener: "alive p \<Longrightarrow> smtp p = Registered l \<Longrightarrow> e \<noteq> EClose \<Longrightarrow> listener_step l e m \<Longrightarrow>
    process_step p (Listener e) (p\<lparr>smtp := Registered m\<rparr>)"
| serve_returns: "alive p \<Longrightarrow> smtp p = Registered l \<Longrightarrow> serving l = Returned err \<Longrightarrow>
    process_step p ServeReturns (p\<lparr>smtp := Ended\<rparr>)"

inductive process_run :: "process \<Rightarrow> process_event list \<Rightarrow> process \<Rightarrow> bool" where
  idle: "process_run p [] p"
| next_event: "process_run p es q \<Longrightarrow> process_step q e r \<Longrightarrow> process_run p (es @ [e]) r"

inductive_simps process_step_simps [simp]:
  "process_step p Signal q" "process_step p Unnotify q" "process_step p ImapClose q" "process_step p SmtpStop q" "process_step p Exit q"
  "process_step p ImapReturns q" "process_step p Register q" "process_step p ListenFails q"
  "process_step p (Listener e) q" "process_step p ServeReturns q"

lemma stopSmtp_fields [simp]:
  "main_pc (stopSmtp p) = main_pc p" "imap_ended (stopSmtp p) = imap_ended p"
  "smtp (stopSmtp p) = (case smtp p of Registered l \<Rightarrow> Registered (Close l) | x \<Rightarrow> x)"
  by (simp_all add: stopSmtp_def mhaleSrv_def Stop_def split: smtp_goroutine.split)

section \<open>The end of the process\<close>

text \<open>What \<open>main\<close> does after the signal, and what it has done where.\<close>

fun of_main :: "process_event \<Rightarrow> bool" where
  "of_main Unnotify = True"
| "of_main ImapClose = True"
| "of_main SmtpStop = True"
| "of_main Exit = True"
| "of_main _ = False"

definition main_steps :: "process_event list \<Rightarrow> process_event list" where
  "main_steps es = filter of_main es"

lemma main_steps_simps [simp]:
  "main_steps [] = []" "main_steps (es @ fs) = main_steps es @ main_steps fs"
  "main_steps (e # es) = (if of_main e then e # main_steps es else main_steps es)"
  by (simp_all add: main_steps_def)

fun main_done :: "main_at \<Rightarrow> process_event list \<Rightarrow> bool" where
  "main_done AwaitSignal es \<longleftrightarrow> main_steps es = [] \<and> Signal \<notin> set es"
| "main_done AtUnnotify es \<longleftrightarrow> main_steps es = [] \<and> Signal \<in> set es"
| "main_done AtClose es \<longleftrightarrow> main_steps es = [Unnotify]"
| "main_done AtStop es \<longleftrightarrow> main_steps es = [Unnotify, ImapClose]"
| "main_done AtWait es \<longleftrightarrow> main_steps es = [Unnotify, ImapClose, SmtpStop]"
| "main_done Exited es \<longleftrightarrow> main_steps es = [Unnotify, ImapClose, SmtpStop, Exit]"
| "main_done Killed es \<longleftrightarrow> (\<exists>xs. es = xs @ [Signal] \<and> Unnotify \<in> set xs) \<and> Exit \<notin> set es"

text \<open>\<open>stop\<close> is called after a signal, and the process has ended at its last event at the latest.\<close>

definition signal_first :: "process_event list \<Rightarrow> bool" where
  "signal_first es \<longleftrightarrow> (\<forall>xs ys. es = xs @ Unnotify # ys \<longrightarrow> Signal \<in> set xs)"

definition process_ok :: "process \<Rightarrow> process_event list \<Rightarrow> bool" where
  "process_ok p es \<longleftrightarrow> main_done (main_pc p) es \<and> signal_first es \<and>
     (main_pc p = Exited \<longrightarrow> smtp p = Ended \<and> imap_ended p)"

lemma main_steps_absent: "main_steps es = fs \<Longrightarrow> of_main e \<Longrightarrow> e \<in> set es \<longleftrightarrow> e \<in> set fs"
  by (auto simp: main_steps_def)

lemma signal_first_snoc: "signal_first es \<Longrightarrow> e \<noteq> Unnotify \<or> Signal \<in> set es \<Longrightarrow> signal_first (es @ [e])"
  unfolding signal_first_def by (metis append_self_conv2 butlast_append butlast_snoc last_snoc list.sel(1) list.simps(3)
      last_appendR last.simps butlast.simps(2))

lemma process_ok_run: "process_run launched es p \<Longrightarrow> process_ok p es"
proof (induction launched es p rule: process_run.induct)
  case idle
  then show ?case by (simp add: process_ok_def launched_def signal_first_def)
next
  case (next_event es q e r)
  have ok: "main_done (main_pc q) es" "signal_first es" "main_pc q = Exited \<longrightarrow> smtp q = Ended \<and> imap_ended q"
    using next_event(2) by (simp_all add: process_ok_def)
  have ex: "of_main x \<Longrightarrow> main_steps es = fs \<Longrightarrow> x \<in> set es \<longleftrightarrow> x \<in> set fs" for x fs by (rule main_steps_absent)
  have "e \<noteq> Unnotify \<or> Signal \<in> set es" using next_event(3) ok(1) by (cases "e = Unnotify") auto
  then have "signal_first (es @ [e])" by (rule signal_first_snoc [OF ok(2)])
  moreover have "main_done (main_pc r) (es @ [e])"
    using next_event(3) ok(1) ex [of Unnotify] ex [of Exit]
    by (cases e; cases "main_pc q") (auto simp: alive_def simp del: listener_step_simps)
  moreover have "main_pc r = Exited \<longrightarrow> smtp r = Ended \<and> imap_ended r"
    using next_event(3) ok(3) by (cases e; cases "main_pc q") (auto simp: alive_def simp del: listener_step_simps)
  ultimately show ?case by (simp add: process_ok_def)
qed

text \<open>What the SMTP server does after it was stopped.\<close>

fun is_conn :: "process_event \<Rightarrow> bool" where
  "is_conn (Listener (EAccept Conn)) = True"
| "is_conn _ = False"

fun serve_turn :: "process_event \<Rightarrow> bool" where
  "serve_turn (Listener e) = is_turn e"
| "serve_turn _ = False"

definition count :: "(process_event \<Rightarrow> bool) \<Rightarrow> process_event list \<Rightarrow> nat" where
  "count P es = length (filter P es)"

lemma count_simps [simp]: "count P [] = 0" "count P (es @ [e]) = count P es + (if P e then 1 else 0)"
  by (simp_all add: count_def)

definition wound_down :: "smtp_goroutine \<Rightarrow> process_event list \<Rightarrow> bool" where
  "wound_down g ys \<longleftrightarrow>
     (case g of
        NotBegun \<Rightarrow> False
      | Registered l \<Rightarrow> closed l \<and> count is_conn ys + (if serving l = InAccept then 1 else 0) \<le> 1 \<and>
          count serve_turn ys + turns_left (serving l) \<le> 2
      | Ended \<Rightarrow> count is_conn ys \<le> 1 \<and> count serve_turn ys \<le> 2)"

lemma closed_conn:
  assumes "listener_step l e m" "closed l"
  shows "(if is_conn (Listener e) then 1 else 0) + (if serving m = InAccept then 1 else 0) \<le>
    (if serving l = InAccept then 1 else (0 :: nat))"
  using assms by (cases e) (auto simp: closed_def listener_defs split: accept_result.splits)

lemma wound_down_step:
  assumes "process_step p e q" "wound_down (smtp p) ys" "e \<noteq> SmtpStop"
  shows "wound_down (smtp q) (ys @ [e])"
proof (cases "\<exists>le. e = Listener le")
  case True
  then obtain le l m where le: "e = Listener le" "smtp p = Registered l" "listener_step l le m" "smtp q = Registered m"
    using assms(1) by (auto simp del: listener_step_simps)
  have c: "closed l" using assms(2) le(2) by (simp add: wound_down_def)
  show ?thesis
    using closed_step [OF le(3) c] closed_conn [OF le(3) c] assms(2) le(1,2,4) by (auto simp: wound_down_def)
next
  case False
  then show ?thesis using assms
    by (cases e) (auto simp: wound_down_def split: smtp_goroutine.splits if_split_asm)
qed

lemma registered_run: "process_run launched es p \<Longrightarrow> Register \<in> set es \<longleftrightarrow> smtp p \<noteq> NotBegun"
proof (induction launched es p rule: process_run.induct)
  case (next_event es q e r)
  then show ?case by (cases e) (auto simp del: listener_step_simps split: smtp_goroutine.splits)
qed (simp add: launched_def)

lemma stopped_run:
  "process_run launched es p \<Longrightarrow> es = xs @ SmtpStop # ys \<Longrightarrow> Register \<in> set xs \<Longrightarrow> wound_down (smtp p) ys"
proof (induction launched es p arbitrary: ys rule: process_run.induct)
  case (next_event es q e r)
  show ?case
  proof (cases ys rule: rev_cases)
    case Nil
    then have e: "es = xs" "e = SmtpStop" using next_event.prems(1) by auto
    then have "smtp q \<noteq> NotBegun" using registered_run [OF next_event.hyps(1)] next_event.prems(2) by simp
    moreover have "turns_left (serving l) \<le> 2" for l by (cases "serving l") simp_all
    ultimately show ?thesis using next_event.hyps(3) e(2) Nil
      by (auto simp: wound_down_def split: smtp_goroutine.splits)
  next
    case (snoc zs z)
    then have e: "es = xs @ SmtpStop # zs" "e = z" using next_event.prems(1) by auto
    have "process_ok q es" by (rule process_ok_run [OF next_event.hyps(1)])
    have "e \<noteq> SmtpStop"
    proof
      assume "e = SmtpStop"
      then have "main_steps es = [Unnotify, ImapClose]"
        using next_event.hyps(3) \<open>process_ok q es\<close> by (auto simp: process_ok_def)
      from main_steps_absent [OF this, of SmtpStop] e(1) show False by simp
    qed
    then show ?thesis
      using wound_down_step [OF next_event.hyps(3) next_event.hyps(2) [OF e(1) next_event.prems(2)]] snoc e(2) by simp
  qed
qed simp

text \<open>
  C25: The process ends in one of two ways.  It exits after \<open>main\<close> has, in this order and each
  once, restored the default effect of signals, closed the IMAP server, stopped the SMTP server,
  and seen both return, and the first of these comes after a signal.  Or it is killed by a second
  signal, which comes after the default effect was restored; then nothing is waited for.  An SMTP
  server that had registered before it was stopped takes at most one more connection and makes at
  most two more turns of its loop, whatever else happens in the process.
\<close>

theorem exit_orderly:
  assumes "process_run launched es p"
  shows "(main_pc p = Exited \<longrightarrow> main_steps es = [Unnotify, ImapClose, SmtpStop, Exit] \<and> smtp p = Ended \<and> imap_ended p) \<and>
    (main_pc p = Killed \<longrightarrow> Exit \<notin> set es \<and>
       (\<exists>xs ys. es = xs @ Unnotify # ys @ [Signal] \<and> Signal \<in> set xs)) \<and>
    (\<forall>xs ys. es = xs @ Unnotify # ys \<longrightarrow> Signal \<in> set xs) \<and>
    (\<forall>xs ys. es = xs @ SmtpStop # ys \<and> Register \<in> set xs \<longrightarrow> count is_conn ys \<le> 1 \<and> count serve_turn ys \<le> 2)"
proof (intro conjI allI impI)
  have ok: "main_done (main_pc p) es" "signal_first es" "main_pc p = Exited \<longrightarrow> smtp p = Ended \<and> imap_ended p"
    using process_ok_run [OF assms] by (simp_all add: process_ok_def)
  show "main_steps es = [Unnotify, ImapClose, SmtpStop, Exit]" "smtp p = Ended" "imap_ended p" if "main_pc p = Exited"
    using ok that by simp_all
  show "Exit \<notin> set es" if "main_pc p = Killed" using ok that by simp
  show "\<exists>xs ys. es = xs @ Unnotify # ys @ [Signal] \<and> Signal \<in> set xs" if "main_pc p = Killed"
  proof -
    obtain zs where "es = zs @ [Signal]" "Unnotify \<in> set zs" using ok(1) \<open>main_pc p = Killed\<close> by auto
    moreover then obtain xs ys where "zs = xs @ Unnotify # ys" by (meson split_list)
    ultimately have "es = xs @ Unnotify # ys @ [Signal]" by simp
    then show ?thesis using ok(2) unfolding signal_first_def by blast
  qed
  show "Signal \<in> set xs" if "es = xs @ Unnotify # ys" for xs ys
    using ok(2) that unfolding signal_first_def by blast
next
  fix xs ys assume "es = xs @ SmtpStop # ys \<and> Register \<in> set xs"
  then have "wound_down (smtp p) ys" using stopped_run [OF assms] by blast
  then show "count is_conn ys \<le> 1" "count serve_turn ys \<le> 2"
    by (auto simp: wound_down_def split: smtp_goroutine.splits)
qed

text \<open>Two runs: one in which the SMTP address cannot be bound, and one with a second signal.\<close>

lemma killed_run:
  "process_run launched [Signal, Unnotify, Signal] \<lparr>main_pc = Killed, smtp = NotBegun, imap_ended = False\<rparr>"
proof -
  let ?at = "\<lambda>pc. \<lparr>main_pc = pc, smtp = NotBegun, imap_ended = False\<rparr>"
  have "process_run launched ([] @ [Signal]) (?at AtUnnotify)"
    by (rule next_event [OF idle]) (simp add: launched_def alive_def)
  then have "process_run launched (([] @ [Signal]) @ [Unnotify]) (?at AtClose)"
    by (rule next_event) simp
  then have "process_run launched ((([] @ [Signal]) @ [Unnotify]) @ [Signal]) (?at Killed)"
    by (rule next_event) (simp add: alive_def)
  then show ?thesis by simp
qed

lemma exited_run:
  "process_run launched [Register, ListenFails, ImapReturns, Signal, Unnotify, ImapClose, SmtpStop, Exit]
     \<lparr>main_pc = Exited, smtp = Ended, imap_ended = True\<rparr>"
proof -
  let ?at = "\<lambda>pc. \<lparr>main_pc = pc, smtp = Ended, imap_ended = True\<rparr>"
  have "process_run launched ([] @ [Register]) \<lparr>main_pc = AwaitSignal, smtp = Registered newServer, imap_ended = False\<rparr>"
    by (rule next_event [OF idle]) (simp add: launched_def alive_def)
  then have "process_run launched (([] @ [Register]) @ [ListenFails]) \<lparr>main_pc = AwaitSignal, smtp = Ended, imap_ended = False\<rparr>"
    by (rule next_event) (simp add: newServer_def alive_def)
  then have "process_run launched ((([] @ [Register]) @ [ListenFails]) @ [ImapReturns]) (?at AwaitSignal)"
    by (rule next_event) (simp add: alive_def)
  then have "process_run launched (((([] @ [Register]) @ [ListenFails]) @ [ImapReturns]) @ [Signal]) (?at AtUnnotify)"
    by (rule next_event) (simp add: alive_def)
  from next_event [OF this, of Unnotify "?at AtClose"]
  have "process_run launched [Register, ListenFails, ImapReturns, Signal, Unnotify] (?at AtClose)" by simp
  from next_event [OF this, of ImapClose "?at AtStop"]
  have "process_run launched [Register, ListenFails, ImapReturns, Signal, Unnotify, ImapClose] (?at AtStop)" by simp
  from next_event [OF this, of SmtpStop "?at AtWait"]
  have "process_run launched [Register, ListenFails, ImapReturns, Signal, Unnotify, ImapClose, SmtpStop] (?at AtWait)"
    by (simp add: stopSmtp_def mhaleSrv_def Stop_def)
  from next_event [OF this, of Exit "?at Exited"] show ?thesis by simp
qed

lemma exit_orderly_witness:
  "main_steps [Register, ListenFails, ImapReturns, Signal, Unnotify, ImapClose, SmtpStop, Exit] =
     [Unnotify, ImapClose, SmtpStop, Exit] \<and>
   Exit \<notin> set [Signal, Unnotify, Signal]"
proof
  show "main_steps [Register, ListenFails, ImapReturns, Signal, Unnotify, ImapClose, SmtpStop, Exit] =
     [Unnotify, ImapClose, SmtpStop, Exit]"
    using exit_orderly [OF exited_run] by simp
  show "Exit \<notin> set [Signal, Unnotify, Signal]" using exit_orderly [OF killed_run] by simp
qed

section \<open>A stop that does not stop\<close>

text \<open>
  A server that waits for a connection when it is stopped keeps the process from ending until a
  connection comes; and a stop before the registration is lost.
\<close>

lemma stop_waits_for_connection:
  assumes "process_run p es q" "smtp p = Registered l" "serving l = InAccept" "main_pc p \<noteq> Exited"
    and "\<forall>r. Listener (EAccept r) \<notin> set es"
  shows "main_pc q \<noteq> Exited \<and> (\<exists>m. smtp q = Registered m \<and> serving m = InAccept)"
  using assms
proof (induction rule: process_run.induct)
  case (next_event p es q e r)
  then obtain m where m: "main_pc q \<noteq> Exited" "smtp q = Registered m" "serving m = InAccept" by auto
  have "serving n = InAccept" if "listener_step m le n" "le \<noteq> EClose" "Listener le \<notin> set (es @ [e]) \<or> (\<forall>r. le \<noteq> EAccept r)"
      "e = Listener le" for le n
    using that m(3) next_event.prems(4) by (cases le) (auto simp: listener_defs)
  moreover have "\<forall>x. e \<noteq> Listener (EAccept x)" using next_event.prems(4) by auto
  moreover have "signalled (main_pc q) \<noteq> Exited" by (cases "main_pc q") simp_all
  ultimately show ?case using next_event.hyps(2) m
    by (cases e) (auto simp: listener_defs simp del: listener_step_simps)
qed auto

lemma early_stop_is_lost: "smtp p = NotBegun \<Longrightarrow> smtp (stopSmtp p) = NotBegun"
  by simp

end
