(* ===== verification/Spec2Isabelle.thy ===== *)
theory Spec2Isabelle
  imports Smtp_Transactions Smtp_Replies Identity Config Imap_Connection Multipart Protocol_Log Bridge_Session Client_Trace Process
begin

text \<open>
  \<^bold>\<open>Mailbridge: a bridge from IMAP and SMTP to a remote mail service.\<close>

  The program (Go, below \<open>src/\<close>) is an IMAP server and an SMTP submission server in one
  process.  Neither stores mail: every command is turned into requests to a remote service
  that speaks JSON over HTTP (POST of \<open>/request\<close>, GET of mail bodies and attachments).

  \<^bold>\<open>Parts and how they interact.\<close>  \<open>cmd/mailbridge/main.go\<close> loads the settings
  (\<open>internal/config\<close>) and starts both servers, with one login limit (\<open>internal/loginlimit\<close>)
  that they share.  On the SMTP side \<open>internal/mhalesmtpd/smtpd.go\<close> runs the sessions; its
  handlers \<open>authHandler\<close> and \<open>mailHandler\<close> are those of \<open>internal/smtpbridge/submit.go\<close>, which
  keeps the token of every connection and takes a submitted message apart with
  \<open>parse_outbound.go\<close>.  On the IMAP side the go-imap library calls \<open>Login\<close>
  (\<open>internal/imapbackend/backend.go\<close>), then the methods of the user (\<open>user.go\<close>) and of the
  selected mailbox (\<open>mailbox.go\<close>, \<open>msg.go\<close>), which name mailboxes with \<open>names.go\<close> and
  compose messages with \<open>rfc822.go\<close>.  Both sides reach the service through
  \<open>internal/remote\<close>, and the protocol logs of both go through \<open>internal/protocollog\<close>.

  \<^bold>\<open>Theories.\<close>  Strings are byte strings (\<open>char list\<close>, one character a byte), a Go error is
  a \<open>go_error\<close>, a fallible function returns \<open>go_error + 'a\<close>, an \<open>int\<close> is an \<open>int\<close> with the
  64-bit wrap written out where it can happen, an \<open>uint32\<close> is a \<open>32 word\<close>, a struct is a
  record and a loop is a recursive function.  State is passed explicitly.

    \<^item> \<open>Prelude\<close>: errors and results; the loop that stops at the first error (\<open>for_each\<close>)
      with the locale \<open>traced_body\<close>, which says what such a loop sends from what its body
      sends; generic lemmas.
    \<^item> \<open>Go_Unicode\<close>, \<open>Go_Strings\<close>, \<open>Base64\<close>: the parts of Go's standard library that the program
      uses (UTF-8, \<open>unicode\<close>, \<open>strings\<close>, \<open>strconv\<close>, \<open>base64\<close>), as executable functions;
      round trips of decimal printing and of base64 (locale \<open>text_codec\<close>, interpreted on the
      codec).  Letter case follows the tables of Unicode.
    \<^item> \<open>Config\<close> (\<open>config.go\<close>) and \<open>Identity\<close> (\<open>identity/email.go\<close>): all functions.
    \<^item> \<open>Login_Limit\<close> (\<open>loginlimit.go\<close>): the tracker; the locale \<open>attempt_gate\<close> is the contract
      of a gate that counts failures in a window, interpreted on the tracker.
    \<^item> \<open>Smtp_Syntax\<close>, \<open>Smtp_Session\<close> (\<open>smtpd.go\<close>): the regular expressions and the parser, the
      type \<open>session\<close> and one definition per command, composed by \<open>dispatch\<close>, \<open>serveStep\<close> and
      \<open>serveLoop\<close>; the relation \<open>session_reach\<close>.  A session keeps a record of its events: the lines
      written and the calls of the three kinds of handler, in their order.  \<open>Smtp_Invariants\<close> has the frame facts and
      the session invariant, \<open>Smtp_Props\<close> what holds of every session, \<open>Smtp_Transactions\<close>
      what a client that follows the protocol gets, \<open>Smtp_Replies\<close> what every command is answered
      with.
    \<^item> \<open>Smtp_Listener\<close> (\<open>smtpd.go\<close>): the server around the sessions, with the loop of \<open>Serve\<close>, \<open>Close\<close>,
      \<open>Shutdown\<close> and the loading of keys; \<open>listener_step\<close> interleaves the goroutines.  \<open>Process\<close>
      (\<open>main.go\<close>, \<open>logx.go\<close>, \<open>ListenTCP\<close>): the start and the end of the process on top of it, with
      the signals, which \<open>main\<close> catches until it calls \<open>stop\<close> and which kill the process afterwards.
    \<^item> \<open>Mailbox_Names\<close> (\<open>names.go\<close>): all functions; the locale \<open>fresh_naming\<close> (a name that is
      not taken) is interpreted on both naming functions.  \<open>Mailbox_Index\<close> (\<open>user.go\<close>): the
      index of LIST names; the locale \<open>label_naming\<close> extends \<open>fresh_naming\<close>, and \<open>quiet_fetch\<close>
      is the contract of a call that leaves something of the world alone.
    \<^item> \<open>Remote_Api\<close> (\<open>client.go\<close>, \<open>types.go\<close>, \<open>parse.go\<close>): requests, answers as the code reads
      them from JSON, login and refresh.  \<open>Http_Client\<close> (\<open>client.go\<close>,
      \<open>attachment_download.go\<close>): posting and decoding, addresses, downloads.  \<open>Mail_View\<close>
      (\<open>parse.go\<close>): one mail out of the answer to a view.
    \<^item> \<open>Login_Handlers\<close> (\<open>submit.go\<close>, \<open>backend.go\<close>): the logins over SMTP and IMAP, on the
      shared limit.  \<open>Outbound\<close> (\<open>submit.go\<close>, \<open>parse_outbound.go\<close>): submitted mail, up to the
      request it costs, and the settings of the SMTP server (\<open>smtpServer\<close>).  \<open>Bridge_Session\<close>
      puts the sessions on this server: from the lines of a client to the requests they cost.
    \<^item> \<open>Imap_User\<close> (\<open>user.go\<close>): listing, opening, creating, renaming and deleting mailboxes.
      \<open>Imap_Mailbox\<close> (\<open>mailbox.go\<close>): loading lists, numbers, flags, STATUS, STORE, COPY, MOVE,
      EXPUNGE, APPEND.  \<open>Mailbox_Loading\<close>, \<open>Mailbox_Actions\<close> and \<open>Mailbox_Numbers\<close> hold what
      is proved of them; the loops are interpretations of \<open>traced_body\<close>.
    \<^item> \<open>Rfc822\<close> (\<open>rfc822.go\<close>): the message that is built, and how one without attachments is read
      back; \<open>Multipart\<close>: how one with attachments is read back, from the header to the bytes of
      each file.  \<open>Imap_Fetch\<close> (\<open>mailbox.go\<close>, \<open>msg.go\<close>):
      FETCH and SEARCH.  \<open>Imap_Connection\<close>: all operations of a connection as one step relation,
      \<open>conn_step\<close>; the locales \<open>kept_fetch\<close> and \<open>one_login\<close> say what the operations rely on, and
      \<open>one_login\<close> is interpreted on the environment that records what is sent.
    \<^item> \<open>Protocol_Log\<close> (\<open>protocollog/writer.go\<close>): the line writer and both redactions.
    \<^item> \<open>Trace_Redaction\<close> (\<open>redact.go\<close>, \<open>redact_url.go\<close>): what the trace of the client shows of
      requests, answers and addresses.  \<open>Client_Trace\<close> (\<open>client.go\<close>): the lines of the trace, and
      the payload of \<open>postJSONMap\<close>.

  \<^bold>\<open>What is shown.\<close>  SMTP: no mail without authentication, and no handler called before TLS,
  where they are required; DATA undoes dot-stuffing, a transaction reaches the handler exactly,
  the number of recipients is bounded, every command gets one final reply (two exceptions are
  stated), the session ends; after \<open>Close\<close> at most one more session begins, and the process exits
  in order or is killed by a second signal.  Login: when every attempt fails and they come one
  after the other, at most five guesses per address and window, over both servers.  Submission:
  the messages of a session and the requests to the service correspond one for one, each request
  fixed in every field, with the token of the login of the session; replies find their mail, and
  the files sent are exactly the parts that are files, byte for byte.  IMAP: names are injective
  and parse back, listed mailboxes whose name is their own open as themselves, a command changes
  at most the mailbox it names, the loaded list is a prefix of that of the service (refinement), a
  connection stays well typed whatever is called, and sends no token but that of its login, in the
  places stated; message numbers are as the protocol wants them when the numbers of the mails fit;
  STORE, COPY, MOVE and EXPUNGE send exactly the requests they should, FETCH answers every
  addressed message that can be read, SEARCH returns exactly the matching ones.  Messages: the
  header that is built is one header exactly if the subject has no line break, and then the HTML and
  every attachment are read back byte for byte.  Client: a view is read back wherever the service
  puts it, downloads are bounded, tokens stay in their place in an address, and the trace shows
  neither passwords nor whole tokens outside the places that the findings name.

  The conditions of these theorems are in their statements.  Where the code misbehaves beyond them,
  a lemma shows it next to the theorem (\<open>subject_injects_header\<close>, \<open>label_shadows_folder\<close>,
  \<open>view_status_string\<close>, \<open>mails_logged\<close>, \<open>stop_waits_for_connection\<close> and others).

  \<^bold>\<open>Bounds and fuel.\<close>  \<open>serveLoop\<close> takes the number of unread lines plus one as fuel: every
  step that goes on reads a line (theorem \<open>serve_terminates\<close>).  Lists are loaded with the
  measure 501 minus the page, so at most 500 requests (\<open>list_requests_bounded\<close>).  The search
  for a free name ends because only finitely many names are taken (\<open>pickName\<close>).  \<open>Shutdown\<close>
  makes at most 300 rounds.  Everything else is structural recursion.

  \<^bold>\<open>Limits of the model.\<close>  A session takes the lines it will read as a list, with an error or
  the end where reading stops; the outcome of a TLS handshake is one value per session.
  JSON numbers are integers.  The library delimits the parts of a message by a random boundary,
  an argument of the model.  The attempts of the guess limit come one after the other (a
  finding says what happens otherwise).  \<open>sort.Slice\<close> is \<open>sort_key\<close>, which differs only on mails
  with equal numbers.  One command of the IMAP side reads the clock once.  Reading of JSON,
  MIME, addresses, dates and body sections belongs to libraries: a field of an environment
  record (\<open>transport\<close>, \<open>mime_env\<close>, \<open>imap_env\<close>, \<open>fetch_env\<close>) and never defined here.

  In \<open>Bridge_Session\<close> one session runs alone: what other connections do to the shared state in
  between is left out.

  \<^bold>\<open>Not modelled.\<close>  Sockets with their options and deadlines, locks (a user belongs to one
  connection, the tracker is atomic, a channel is used under its mutex), what is written to
  the log except the protocol log and the bodies of the trace, and the IMAP server, which is
  the library's: it calls the operations and may return at any time.
\<close>

end
